(* ===== verification/Prelude.thy ===== *)
theory Prelude
  imports Main "HOL-Library.Char_ord" "HOL-Library.List_Lexorder"
begin

text \<open>
  What the components share: the outcome of a Go statement that may not return (a panic or a
  goroutine that blocks for ever), the few functions of the standard library the sources call
  (\<open>strings.Split\<close>, \<open>strings.Join\<close>, \<open>strings.Index\<close>, \<open>strconv.Itoa\<close>, indexing of a slice,
  reading a map with its zero value), 64-bit \<open>int\<close> addition, and the generic lemmas about them.
  Go strings are byte strings: \<open>string\<close> is a list of \<open>char\<close>, and a \<open>char\<close> is a byte.
\<close>

named_theorems go_res \<open>unfolding a computation that may abort\<close>

section \<open>Outcomes\<close>

datatype abort =
    IndexOutOfRange
  | TypeAssertion
  | NilDereference
  | ClosedChannel
  | ExplicitPanic string
  | BlockedForever

type_synonym 'a res = "abort + 'a"

fun bind_res :: "'a res \<Rightarrow> ('a \<Rightarrow> 'b res) \<Rightarrow> 'b res" where
  "bind_res (Inl e) f = Inl e"
| "bind_res (Inr x) f = f x"

lemma bind_res_eq_Inr [simp]:
  "bind_res m f = Inr y \<longleftrightarrow> (\<exists>x. m = Inr x \<and> f x = Inr y)"
  by (cases m) auto

lemma bind_res_eq_Inl:
  "bind_res m f = Inl e \<longleftrightarrow> m = Inl e \<or> (\<exists>x. m = Inr x \<and> f x = Inl e)"
  by (cases m) auto

lemma bind_res_assoc: "bind_res (bind_res m f) g = bind_res m (\<lambda>x. bind_res (f x) g)"
  by (cases m) auto

lemma case_sum_Inr [simp]:
  "(case r of Inl x \<Rightarrow> Inr (f x) | Inr y \<Rightarrow> Inr (g y)) \<noteq> (Inl e :: 'a res)"
  by (cases r) auto

text \<open>A property of the result of a computation, if it returns one.\<close>

fun returns :: "('a \<Rightarrow> bool) \<Rightarrow> 'a res \<Rightarrow> bool" where
  "returns P (Inl e) = True"
| "returns P (Inr x) = P x"

lemma returns_bind [intro]:
  "returns Q m \<Longrightarrow> (\<And>x. m = Inr x \<Longrightarrow> Q x \<Longrightarrow> returns P (f x)) \<Longrightarrow> returns P (bind_res m f)"
  by (cases m) auto

lemma returns_Inr: "returns P m \<Longrightarrow> m = Inr x \<Longrightarrow> P x"
  by simp

lemma returns_iff: "returns P m \<longleftrightarrow> (\<forall>x. m = Inr x \<longrightarrow> P x)"
  by (cases m) auto

section \<open>Slices\<close>

text \<open>\<open>xs[i]\<close> panics when the index is out of range.\<close>

definition index_at :: "'a list \<Rightarrow> nat \<Rightarrow> 'a res" where
  "index_at xs i = (if i < length xs then Inr (xs ! i) else Inl IndexOutOfRange)"

lemma index_at_Inr [simp]: "index_at xs i = Inr x \<longleftrightarrow> i < length xs \<and> x = xs ! i"
  by (auto simp: index_at_def)

lemma index_at_Inl [simp]: "index_at xs i = Inl e \<longleftrightarrow> length xs \<le> i \<and> e = IndexOutOfRange"
  by (auto simp: index_at_def)

lemma index_at_lt: "i < length xs \<Longrightarrow> index_at xs i = Inr (xs ! i)"
  by simp

section \<open>Maps\<close>

text \<open>Reading a Go map gives the zero value of its element type for a missing key.\<close>

definition get_or :: "'v \<Rightarrow> ('k \<rightharpoonup> 'v) \<Rightarrow> 'k \<Rightarrow> 'v" where
  "get_or z m k = (case m k of None \<Rightarrow> z | Some v \<Rightarrow> v)"

lemma get_or_None [simp]: "m k = None \<Longrightarrow> get_or z m k = z"
  by (simp add: get_or_def)

lemma get_or_Some [simp]: "m k = Some v \<Longrightarrow> get_or z m k = v"
  by (simp add: get_or_def)

lemma get_or_upd [simp]: "get_or z (m(k := v)) k' =
    (if k' = k then (case v of None \<Rightarrow> z | Some x \<Rightarrow> x) else get_or z m k')"
  by (simp add: get_or_def)

text \<open>
  \<open>range\<close> over a map walks its keys once each, in an order Go leaves open: the operations that
  range over a map take the order as an argument, and their theorems hold for every such order.
\<close>

definition key_order :: "('k \<rightharpoonup> 'v) \<Rightarrow> 'k list \<Rightarrow> bool" where
  "key_order m ks \<longleftrightarrow> distinct ks \<and> set ks = dom m"

lemma key_order_distinct: "key_order m ks \<Longrightarrow> distinct ks"
  by (simp add: key_order_def)

lemma key_order_set: "key_order m ks \<Longrightarrow> set ks = dom m"
  by (simp add: key_order_def)

lemma key_order_sort: "key_order m ks \<Longrightarrow> key_order m ks' \<Longrightarrow> sort ks = sort ks'"
  for ks :: "'k :: linorder list"
  by (metis key_order_def sorted_list_of_set_sort_remdups distinct_remdups_id)

section \<open>Strings\<close>

fun split_on :: "char \<Rightarrow> string \<Rightarrow> string list" where
  "split_on c [] = [[]]"
| "split_on c (x # xs) =
     (if x = c then [] # split_on c xs
      else (case split_on c xs of [] \<Rightarrow> [[x]] | p # ps \<Rightarrow> (x # p) # ps))"

fun join_with :: "string \<Rightarrow> string list \<Rightarrow> string" where
  "join_with s [] = []"
| "join_with s [p] = p"
| "join_with s (p # q # ps) = p @ s @ join_with s (q # ps)"

fun index_of :: "char \<Rightarrow> string \<Rightarrow> nat option" where
  "index_of c [] = None"
| "index_of c (x # xs) = (if x = c then Some 0 else map_option Suc (index_of c xs))"

lemma split_on_nonempty [simp]: "split_on c s \<noteq> []"
  by (cases s) (auto split: list.splits)

lemma length_split_on: "length (split_on c s) = Suc (count_list s c)"
  by (induction s) (auto split: list.splits)

lemma split_on_no_sep: "c \<notin> set s \<Longrightarrow> split_on c s = [s]"
  by (induction s) auto

lemma split_on_append:
  "c \<notin> set p \<Longrightarrow> split_on c (p @ c # s) = p # split_on c s"
  by (induction p) auto

lemma split_on_parts: "p \<in> set (split_on c s) \<Longrightarrow> c \<notin> set p"
  by (induction s arbitrary: p) (auto split: if_splits list.splits)

lemma join_split: "join_with [c] (split_on c s) = s"
proof (induction s)
  case (Cons x xs)
  obtain p ps where "split_on c xs = p # ps"
    by (cases "split_on c xs") auto
  with Cons show ?case by (cases ps) auto
qed simp

lemma split_join:
  "ps \<noteq> [] \<Longrightarrow> \<forall>p\<in>set ps. c \<notin> set p \<Longrightarrow> split_on c (join_with [c] ps) = ps"
  by (induction "[c]" ps rule: join_with.induct)
     (auto simp: split_on_no_sep split_on_append)

lemma join_with_Cons: "ps \<noteq> [] \<Longrightarrow> join_with s (p # ps) = p @ s @ join_with s ps"
  by (cases ps) auto

lemma join_with_append:
  "ps \<noteq> [] \<Longrightarrow> qs \<noteq> [] \<Longrightarrow> join_with s (ps @ qs) = join_with s ps @ s @ join_with s qs"
proof (induction ps)
  case (Cons p ps)
  then show ?case by (cases "ps = []") (auto simp: join_with_Cons)
qed simp

lemma index_of_None [simp]: "index_of c s = None \<longleftrightarrow> c \<notin> set s"
  by (induction s) auto

lemma index_of_not_in [simp]: "c \<notin> set s \<Longrightarrow> index_of c s = None"
  by simp

lemma index_of_Some:
  "index_of c s = Some i \<Longrightarrow>
     i < length s \<and> s ! i = c \<and> c \<notin> set (take i s) \<and> s = take i s @ c # drop (i + 1) s"
  by (induction s arbitrary: i) (auto split: if_splits)

section \<open>Integers\<close>

text \<open>\<open>int\<close> has 64 bits and wraps around; \<open>strconv.Itoa\<close> prints it in decimal.\<close>

definition wrap64 :: "int \<Rightarrow> int" where
  "wrap64 x = (x + 2 ^ 63) mod 2 ^ 64 - 2 ^ 63"

definition int64 :: "int \<Rightarrow> bool" where
  "int64 x \<longleftrightarrow> - (2 ^ 63) \<le> x \<and> x < 2 ^ 63"

lemma wrap64_int64 [simp]: "int64 (wrap64 x)"
  unfolding int64_def wrap64_def
  using pos_mod_bound [of "2 ^ 64 :: int" "x + 2 ^ 63"]
    pos_mod_sign [of "2 ^ 64 :: int" "x + 2 ^ 63"]
  by simp

lemma wrap64_id: "int64 x \<Longrightarrow> wrap64 x = x"
  by (simp add: int64_def wrap64_def)

fun digits :: "nat \<Rightarrow> string" where
  "digits n = (if n < 10 then [char_of (48 + n)] else digits (n div 10) @ [char_of (48 + n mod 10)])"

declare digits.simps [simp del]

definition itoa :: "int \<Rightarrow> string" where
  "itoa i = (if i < 0 then CHR ''-'' # digits (nat (- i)) else digits (nat i))"

text \<open>Reading the digits back gives the number, so \<open>itoa\<close> tells numbers apart.\<close>

definition digits_value :: "string \<Rightarrow> nat" where
  "digits_value s = foldl (\<lambda>a c. 10 * a + (of_char c - 48)) 0 s"

lemma digits_value_snoc: "digits_value (s @ [c]) = 10 * digits_value s + (of_char c - 48)"
  by (simp add: digits_value_def)

lemma of_char_digit: "n < 10 \<Longrightarrow> (of_char (char_of (48 + n) :: char) :: nat) = 48 + n"
  by simp

lemma digits_value_digits [simp]: "digits_value (digits n) = n"
proof (induction n rule: digits.induct)
  case (1 n)
  show ?case
  proof (cases "n < 10")
    case True
    then show ?thesis by (simp add: digits.simps [of n] digits_value_def of_char_digit)
  next
    case False
    with 1 have IH: "digits_value (digits (n div 10)) = n div 10" by simp
    have "digits_value (digits n) = 10 * (n div 10) + n mod 10"
      using False by (simp add: digits.simps [of n] digits_value_snoc IH of_char_digit)
    then show ?thesis by simp
  qed
qed

lemma digits_chars: "c \<in> set (digits n) \<Longrightarrow> 48 \<le> (of_char c :: nat) \<and> (of_char c :: nat) < 58"
proof (induction n rule: digits.induct)
  case (1 n)
  then show ?case
    by (cases "n < 10") (auto simp: digits.simps [of n] of_char_digit)
qed

lemma digits_inj [simp]: "digits m = digits n \<longleftrightarrow> m = n"
  by (metis digits_value_digits)

lemma minus_not_digit: "CHR ''-'' \<notin> set (digits n)"
  using digits_chars by fastforce

lemma itoa_inj [simp]: "itoa i = itoa j \<longleftrightarrow> i = j"
proof
  assume eq: "itoa i = itoa j"
  have hd: "digits m \<noteq> CHR ''-'' # s" for m s
    using minus_not_digit [of m] by (metis list.set_intros(1))
  show "i = j"
  proof (cases "i < 0"; cases "j < 0")
    assume "i < 0" "\<not> j < 0"
    with eq hd [of "nat j"] show ?thesis by (metis itoa_def)
  next
    assume "\<not> i < 0" "j < 0"
    with eq hd [of "nat i"] show ?thesis by (metis itoa_def)
  qed (use eq in \<open>simp_all add: itoa_def\<close>)
qed simp

section \<open>Conditional steps and lists\<close>

text \<open>A Go \<open>if\<close> without \<open>else\<close>: the step is taken under the condition.\<close>

definition step_if :: "bool \<Rightarrow> ('s \<Rightarrow> 's) \<Rightarrow> 's \<Rightarrow> 's" where
  "step_if b f s = (if b then f s else s)"

lemma step_if_simps [simp]: "step_if True f s = f s" "step_if False f s = s"
  by (simp_all add: step_if_def)

lemma step_if_preserves: "P s \<Longrightarrow> (b \<Longrightarrow> P s \<Longrightarrow> P (f s)) \<Longrightarrow> P (step_if b f s)"
  by (simp add: step_if_def)

lemma fold_preserves:
  assumes "P s" "\<And>x t. \<lbrakk>x \<in> set xs; P t\<rbrakk> \<Longrightarrow> P (f x t)"
  shows "P (fold f xs s)"
  using assms by (induction xs arbitrary: s) auto

lemma step_if_field: "(\<And>s. g (f s) = g s) \<Longrightarrow> g (step_if b f s) = g s"
  by (simp add: step_if_def)

lemma fold_field: "(\<And>x s. g (f x s) = g s) \<Longrightarrow> g (fold f xs s) = g s"
  by (induction xs arbitrary: s) auto

text \<open>Appending an element unless it is there already.\<close>

definition add_once :: "'a \<Rightarrow> 'a list \<Rightarrow> 'a list" where
  "add_once x xs = (if x \<in> set xs then xs else xs @ [x])"

lemma set_add_once [simp]: "set (add_once x xs) = insert x (set xs)"
  by (auto simp: add_once_def)

lemma distinct_add_once [simp]: "distinct (add_once x xs) \<longleftrightarrow> distinct xs"
  by (auto simp: add_once_def)

end
