(* ===== verification/Content_Tracker.thy ===== *)
theory Content_Tracker
  imports Prelude
begin

text \<open>
  content_tracker.go: tells whether the content of a file differs from what was seen last under a
  key. What \<open>ioutil.ReadFile\<close> returns (an error, or the bytes) is an argument of \<open>Track\<close>.
\<close>

section \<open>Hashes\<close>

text \<open>
  \<open>h.Sum(bs)\<close> appends the digest of what was written to \<open>h\<close> to \<open>bs\<close>, and nothing was: the digest is
  the constant one of no bytes at all, five words with the high byte first. \<open>%x\<close> prints two lower case digits for each byte.
\<close>

definition hex_char :: "nat \<Rightarrow> char" where
  "hex_char n = ''0123456789abcdef'' ! n"

fun hex :: "string \<Rightarrow> string" where
  "hex [] = []"
| "hex (c # cs) = hex_char (of_char c div 16) # hex_char (of_char c mod 16) # hex cs"

definition big_endian :: "nat \<Rightarrow> string" where
  "big_endian w = map (\<lambda>k. char_of (w div 256 ^ k)) [3, 2, 1, 0]"

definition sha1_of_nothing :: string where
  "sha1_of_nothing = concat (map big_endian [0xDA39A3EE, 0x5E6B4B0D, 0x3255BFEF, 0x95601890, 0xAFD80709])"

definition hash_of :: "string \<Rightarrow> string" where
  "hash_of bs = hex (bs @ sha1_of_nothing)"

section \<open>The tracker\<close>

record ContentTracker =
  hashes :: "string \<rightharpoonup> string"

definition NewContentTracker :: ContentTracker where
  "NewContentTracker = \<lparr>hashes = Map.empty\<rparr>"

definition Track :: "string \<Rightarrow> string + string \<Rightarrow> ContentTracker \<Rightarrow> ContentTracker \<times> bool \<times> string option" where
  "Track key contents tracker =
     (case contents of
        Inl err \<Rightarrow> (tracker, False, Some err)
      | Inr bs \<Rightarrow>
          (let hash = hash_of bs; oldHash = get_or [] (hashes tracker) key in
           if oldHash \<noteq> hash then (tracker\<lparr>hashes := (hashes tracker)(key \<mapsto> hash)\<rparr>, True, None)
           else (tracker, False, None)))"

section \<open>What a hash tells\<close>

lemma hex_char_inj: "m < 16 \<Longrightarrow> n < 16 \<Longrightarrow> hex_char m = hex_char n \<Longrightarrow> m = n"
proof -
  have "distinct ''0123456789abcdef''" by simp
  moreover assume "m < 16" "n < 16" "hex_char m = hex_char n"
  ultimately show ?thesis by (simp add: hex_char_def nth_eq_iff_index_eq)
qed

lemma byte_bound: "(of_char c :: nat) div 16 < 16"
proof -
  have "(of_char c :: nat) < 256" by simp
  then show ?thesis by linarith
qed

lemma hex_inj: "hex xs = hex ys \<longleftrightarrow> xs = ys"
proof (induction xs arbitrary: ys)
  case Nil
  show ?case by (cases ys) auto
next
  case (Cons c cs)
  show ?case
  proof (cases ys)
    case (Cons d ds)
    have "(of_char c :: nat) = of_char d"
      if "hex_char (of_char c div 16) = hex_char (of_char d div 16)"
        "hex_char (of_char c mod 16) = hex_char (of_char d mod 16)"
      using hex_char_inj [OF byte_bound byte_bound that(1)] hex_char_inj [OF _ _ that(2)]
      by (metis div_mult_mod_eq mod_less_divisor zero_less_numeral)
    with Cons Cons.IH show ?thesis by auto
  qed simp
qed

lemma length_hex: "length (hex xs) = 2 * length xs"
  by (induction xs) auto

lemma hash_of_inj: "hash_of bs = hash_of bs' \<longleftrightarrow> bs = bs'"
  by (simp add: hash_of_def hex_inj)

lemma hash_of_nonempty [simp]: "hash_of bs \<noteq> []" "[] \<noteq> hash_of bs"
proof -
  have "length (hash_of bs) = 2 * (length bs + 20)"
    by (simp add: hash_of_def length_hex sha1_of_nothing_def big_endian_def)
  then show "hash_of bs \<noteq> []" by auto
  then show "[] \<noteq> hash_of bs" by metis
qed

section \<open>Calls one after the other\<close>

definition tracked :: "(string \<times> (string + string)) list \<Rightarrow> ContentTracker" where
  "tracked hist = fold (\<lambda>(key, contents) t. fst (Track key contents t)) hist NewContentTracker"

text \<open>The content last read under a key, by a call that could read it.\<close>

definition last_content :: "(string \<times> (string + string)) list \<Rightarrow> string \<Rightarrow> string option" where
  "last_content hist key =
     map_of (rev (concat (map (\<lambda>(k, r). case r of Inl err \<Rightarrow> [] | Inr bs \<Rightarrow> [(k, bs)]) hist))) key"

lemma last_content_snoc:
  "last_content (hist @ [(k, r)]) key =
     (case r of Inl err \<Rightarrow> last_content hist key | Inr bs \<Rightarrow> if key = k then Some bs else last_content hist key)"
  by (simp add: last_content_def split: sum.split)

lemma hashes_tracked: "hashes (tracked hist) key = map_option hash_of (last_content hist key)"
proof (induction hist arbitrary: key rule: rev_induct)
  case Nil
  show ?case by (simp add: tracked_def NewContentTracker_def last_content_def)
next
  case (snoc x hist)
  obtain k r where x: "x = (k, r)" by (cases x)
  have step: "tracked (hist @ [(k, r)]) = fst (Track k r (tracked hist))"
    by (simp add: tracked_def)
  show ?case
  proof (cases r)
    case (Inr bs)
    then show ?thesis
      using snoc [of key] snoc [of k] unfolding x step
      by (auto simp: last_content_snoc Track_def Let_def get_or_def hash_of_inj split: option.splits)
  qed (unfold x step, simp add: last_content_snoc Track_def snoc)
qed

text \<open>
  C36. \<open>Track\<close> reports a change exactly when the file could be read and its content is not the one last
  read under the same key; an error is passed on and changes nothing. What the tracker keeps for a
  key is the whole content, in hexadecimal, followed by a constant: not a digest of it.
\<close>

theorem track_reports_changes:
  "Track key contents (tracked hist) =
     (tracked (hist @ [(key, contents)]),
      (case contents of Inl err \<Rightarrow> (False, Some err) | Inr bs \<Rightarrow> (last_content hist key \<noteq> Some bs, None))) \<and>
   hashes (tracked hist) key = map_option (\<lambda>bs. hex bs @ hex sha1_of_nothing) (last_content hist key)"
proof -
  have app: "hex (xs @ ys) = hex xs @ hex ys" for xs ys by (induction xs) auto
  have "snd (Track key contents (tracked hist)) =
      (case contents of Inl err \<Rightarrow> (False, Some err) | Inr bs \<Rightarrow> (last_content hist key \<noteq> Some bs, None))"
    by (auto simp: Track_def Let_def get_or_def hashes_tracked hash_of_inj split: sum.split option.split)
  moreover have "fst (Track key contents (tracked hist)) = tracked (hist @ [(key, contents)])"
    by (simp add: tracked_def)
  ultimately show ?thesis
    by (metis (no_types, lifting) prod.collapse hashes_tracked hash_of_def app option.map_cong)
qed

end
