(* ===== verification/Timers.thy ===== *)
theory Timers
  imports Prelude
begin

text \<open>
  timers.go: the real timers, which wrap \<open>time.Timer\<close> and \<open>time.Ticker\<close>. Durations are counted in
  nanoseconds.
\<close>

section \<open>Timers of the library and their wrappers\<close>

text \<open>
  A timer of the \<open>time\<close> package: armed until it expires or is stopped, a ticker until it is stopped;
  its channel holds one tick at most (\<open>it_full\<close>), also after the timer was stopped. \<open>it_got\<close> counts the
  ticks readers of the channel got.
\<close>

record inner =
  it_ticker :: bool
  it_duration :: int
  it_armed :: bool
  it_full :: bool
  it_got :: nat

definition new_inner :: "bool \<Rightarrow> int \<Rightarrow> inner" where
  "new_inner ticker d =
     \<lparr>it_ticker = ticker, it_duration = d, it_armed = True, it_full = False, it_got = 0\<rparr>"

text \<open>
  The three wrappers hold a pointer to the timer they wrap: \<open>innerTimer\<close> (for a ticker \<open>innerTicker\<close>) is
  its place among all timers ever made for the wrapper, and so its channel.
\<close>

record real_timer =
  inners :: "inner list"
  innerTimer :: "nat option"

definition NewRealTicker :: "int \<Rightarrow> real_timer res" where
  "NewRealTicker d =
     (if d \<le> 0 then Inl (ExplicitPanic ''non-positive interval for NewTicker'')
      else Inr \<lparr>inners = [new_inner True d], innerTimer = Some 0\<rparr>)"

definition NewRealTimer :: "int \<Rightarrow> real_timer" where
  "NewRealTimer d = \<lparr>inners = [new_inner False d], innerTimer = Some 0\<rparr>"

definition NewRealRTimer :: "int \<Rightarrow> real_timer" where
  "NewRealRTimer d = NewRealTimer d"

definition tickerGetChannel :: "real_timer \<Rightarrow> nat res" where
  "tickerGetChannel ticker =
     (case innerTimer ticker of
        None \<Rightarrow> Inl (ExplicitPanic ''trying to get channel from a stopped ticker'')
      | Some c \<Rightarrow> Inr c)"

definition timerGetChannel :: "real_timer \<Rightarrow> nat res" where
  "timerGetChannel timer =
     (case innerTimer timer of
        None \<Rightarrow> Inl (ExplicitPanic ''trying to get channel from a stopped timer'')
      | Some c \<Rightarrow> Inr c)"

definition stop_inner :: "nat \<Rightarrow> real_timer \<Rightarrow> real_timer" where
  "stop_inner i t = t\<lparr>inners := (inners t)[i := (inners t ! i)\<lparr>it_armed := False\<rparr>]\<rparr>"

definition tickerStop :: "real_timer \<Rightarrow> real_timer" where
  "tickerStop ticker =
     (case innerTimer ticker of
        None \<Rightarrow> ticker
      | Some i \<Rightarrow> (stop_inner i ticker)\<lparr>innerTimer := None\<rparr>)"

definition timerStop :: "real_timer \<Rightarrow> real_timer" where
  "timerStop timer =
     (case innerTimer timer of
        None \<Rightarrow> timer
      | Some i \<Rightarrow> (stop_inner i timer)\<lparr>innerTimer := None\<rparr>)"

definition Reset :: "int \<Rightarrow> real_timer \<Rightarrow> real_timer" where
  "Reset d timer =
     (case innerTimer timer of
        None \<Rightarrow> timer\<lparr>inners := inners timer @ [new_inner False d], innerTimer := Some (length (inners timer))\<rparr>
      | Some i \<Rightarrow> timer\<lparr>inners := (inners timer)[i := (inners timer ! i)\<lparr>it_armed := True, it_duration := d\<rparr>]\<rparr>)"

text \<open>What the runtime and the reader of a channel do: an expiry is dropped when the channel is full.\<close>

definition expire :: "nat \<Rightarrow> real_timer \<Rightarrow> real_timer" where
  "expire i t =
     (if i < length (inners t) \<and> it_armed (inners t ! i)
      then t\<lparr>inners := (inners t)[i := (inners t ! i)\<lparr>it_armed := it_ticker (inners t ! i), it_full := True\<rparr>]\<rparr>
      else t)"

text \<open>A reader gets the tick in the channel; on an empty channel it waits on.\<close>

definition receive_tick :: "nat \<Rightarrow> real_timer \<Rightarrow> real_timer" where
  "receive_tick i t =
     (if i < length (inners t) \<and> it_full (inners t ! i)
      then t\<lparr>inners := (inners t)[i := (inners t ! i)\<lparr>it_full := False, it_got := it_got (inners t ! i) + 1\<rparr>]\<rparr>
      else t)"

datatype timer_op = TimerStop | TimerReset int | TimerExpire nat | TimerReceive nat

fun timer_do :: "timer_op \<Rightarrow> real_timer \<Rightarrow> real_timer" where
  "timer_do TimerStop t = timerStop t"
| "timer_do (TimerReset d) t = Reset d t"
| "timer_do (TimerExpire i) t = expire i t"
| "timer_do (TimerReceive i) t = receive_tick i t"

text \<open>The ticks readers got, those that wait in a channel, and both together.\<close>

definition received_ticks :: "real_timer \<Rightarrow> nat" where
  "received_ticks t = sum_list (map it_got (inners t))"

definition pending_ticks :: "real_timer \<Rightarrow> nat" where
  "pending_ticks t = length (filter it_full (inners t))"

definition it_ticks :: "inner \<Rightarrow> nat" where
  "it_ticks x = it_got x + (if it_full x then 1 else 0)"

definition total_ticks :: "real_timer \<Rightarrow> nat" where
  "total_ticks t = sum_list (map it_ticks (inners t))"

lemma sum_ticks: "sum_list (map it_ticks xs) = sum_list (map it_got xs) + length (filter it_full xs)"
  by (induction xs) (simp_all add: it_ticks_def)

lemma total_ticks_eq: "total_ticks t = received_ticks t + pending_ticks t"
  by (simp add: total_ticks_def received_ticks_def pending_ticks_def sum_ticks)

lemma it_ticks_simps [simp]:
  "it_ticks (x\<lparr>it_armed := b\<rparr>) = it_ticks x" "it_ticks (x\<lparr>it_duration := d\<rparr>) = it_ticks x"
  by (simp_all add: it_ticks_def)

text \<open>Stopped by the last call of \<open>Stop\<close> or \<open>Reset\<close>.\<close>

fun stopped_by :: "bool \<Rightarrow> timer_op list \<Rightarrow> bool" where
  "stopped_by b [] = b"
| "stopped_by b (TimerStop # ops) = stopped_by True ops"
| "stopped_by b (TimerReset d # ops) = stopped_by False ops"
| "stopped_by b (TimerExpire i # ops) = stopped_by b ops"
| "stopped_by b (TimerReceive i # ops) = stopped_by b ops"

definition resets :: "timer_op list \<Rightarrow> nat" where
  "resets ops = length (filter (\<lambda>oper. \<exists>d. oper = TimerReset d) ops)"

section \<open>One inner timer at a time\<close>

text \<open>
  At most one inner timer is armed, the one the wrapper points to; and every tick that was sent was
  paid for by arming (\<open>n\<close> times so far).
\<close>

definition armed_set :: "real_timer \<Rightarrow> nat set" where
  "armed_set t = {i. i < length (inners t) \<and> it_armed (inners t ! i)}"

definition timer_inv :: "nat \<Rightarrow> real_timer \<Rightarrow> bool" where
  "timer_inv n t \<longleftrightarrow>
     armed_set t \<subseteq> set_option (innerTimer t) \<and>
     set_option (innerTimer t) \<subseteq> {..<length (inners t)} \<and>
     (\<forall>x\<in>set (inners t). \<not> it_ticker x) \<and>
     total_ticks t + (if armed_set t = {} then 0 else 1) \<le> n"

lemma armed_set_update:
  "i < length (inners t) \<Longrightarrow> armed_set (t\<lparr>inners := (inners t)[i := x]\<rparr>) =
     (if it_armed x then insert i (armed_set t) else armed_set t - {i})"
  by (auto simp: armed_set_def nth_list_update split: if_splits)

lemma armed_set_ptr [simp]: "armed_set (t\<lparr>innerTimer := p\<rparr>) = armed_set t"
  by (simp add: armed_set_def)

lemma total_ticks_ptr [simp]: "total_ticks (t\<lparr>innerTimer := p\<rparr>) = total_ticks t"
  by (simp add: total_ticks_def)

lemma total_ticks_update:
  "i < length (inners t) \<Longrightarrow>
     sum_list (map it_ticks ((inners t)[i := x])) + it_ticks (inners t ! i) = total_ticks t + it_ticks x"
  unfolding total_ticks_def
proof (induction "inners t" arbitrary: t i)
  case (Cons y ys)
  from Cons(2) [symmetric] show ?case
    using Cons(1) [of "t\<lparr>inners := ys\<rparr>" "i - 1"] Cons.prems by (cases i) auto
qed simp

lemma total_ticks_same:
  "it_ticks x = it_ticks (inners t ! i) \<Longrightarrow> total_ticks (t\<lparr>inners := (inners t)[i := x]\<rparr>) = total_ticks t"
  using total_ticks_update [of i t x]
  by (cases "i < length (inners t)") (auto simp: total_ticks_def list_update_beyond)

lemma timer_inv_new: "timer_inv 1 (NewRealRTimer d)"
proof -
  have "armed_set (NewRealRTimer d) = {0}"
    by (auto simp: NewRealRTimer_def NewRealTimer_def new_inner_def armed_set_def)
  then show ?thesis
    by (simp add: timer_inv_def NewRealRTimer_def NewRealTimer_def new_inner_def total_ticks_def it_ticks_def)
qed

lemma timer_inv_stop:
  assumes "timer_inv n t"
  shows "timer_inv n (timerStop t)"
proof (cases "innerTimer t")
  case (Some i)
  let ?x = "(inners t ! i)\<lparr>it_armed := False\<rparr>"
  have i: "i < length (inners t)" "\<not> it_ticker (inners t ! i)" "armed_set t \<subseteq> {i}"
    using assms Some by (auto simp: timer_inv_def)
  have a: "armed_set (timerStop t) = {}"
    using i by (auto simp: timerStop_def Some stop_inner_def armed_set_update)
  have "total_ticks (timerStop t) = total_ticks t"
    by (simp add: timerStop_def Some stop_inner_def total_ticks_same)
  moreover have "set (inners (timerStop t)) \<subseteq> insert ?x (set (inners t))"
    by (simp add: timerStop_def Some stop_inner_def set_update_subset_insert)
  moreover have "innerTimer (timerStop t) = None" by (simp add: timerStop_def Some)
  moreover have "total_ticks t \<le> n" using assms by (simp add: timer_inv_def)
  ultimately show ?thesis using assms i a unfolding timer_inv_def by auto
qed (use assms in \<open>simp add: timerStop_def\<close>)

lemma timer_inv_reset:
  assumes "timer_inv n t"
  shows "timer_inv (n + 1) (Reset d t)"
proof (cases "innerTimer t")
  case None
  with assms have "armed_set t = {}" by (simp add: timer_inv_def)
  then have "armed_set (Reset d t) = {length (inners t)}"
    by (auto simp: Reset_def None armed_set_def new_inner_def nth_append split: if_splits)
  moreover have "total_ticks (Reset d t) = total_ticks t"
    by (simp add: Reset_def None total_ticks_def new_inner_def it_ticks_def)
  ultimately show ?thesis
    using assms None by (auto simp: timer_inv_def Reset_def new_inner_def)
next
  case (Some i)
  let ?x = "(inners t ! i)\<lparr>it_armed := True, it_duration := d\<rparr>"
  have i: "i < length (inners t)" "\<not> it_ticker (inners t ! i)" "armed_set t \<subseteq> {i}"
    using assms Some by (auto simp: timer_inv_def)
  have r: "Reset d t = t\<lparr>inners := (inners t)[i := ?x]\<rparr>" by (simp add: Reset_def Some)
  have "armed_set (Reset d t) = {i}" unfolding r using i by (auto simp: armed_set_update)
  moreover have "total_ticks (Reset d t) = total_ticks t" unfolding r by (rule total_ticks_same) simp
  moreover have "total_ticks t \<le> n" using assms by (simp add: timer_inv_def)
  moreover have "\<forall>x\<in>set ((inners t)[i := ?x]). \<not> it_ticker x"
    using assms i set_update_subset_insert [of "inners t" i ?x] by (auto simp: timer_inv_def)
  ultimately show ?thesis
    using i Some by (simp add: timer_inv_def r)
qed

lemma timer_inv_expire:
  assumes "timer_inv n t"
  shows "timer_inv n (expire i t)"
proof (cases "i < length (inners t) \<and> it_armed (inners t ! i)")
  case True
  let ?x = "(inners t ! i)\<lparr>it_armed := it_ticker (inners t ! i), it_full := True\<rparr>"
  have e: "expire i t = t\<lparr>inners := (inners t)[i := ?x]\<rparr>" using True by (simp add: expire_def)
  have "i \<in> armed_set t" using True by (simp add: armed_set_def)
  with assms have "innerTimer t = Some i" by (auto simp: timer_inv_def)
  moreover from this assms \<open>i \<in> armed_set t\<close> have "armed_set t = {i}" by (auto simp: timer_inv_def)
  moreover from this assms True have "\<not> it_ticker (inners t ! i)" "total_ticks t + 1 \<le> n"
    by (auto simp: timer_inv_def)
  ultimately have p: "innerTimer t = Some i" "armed_set t = {i}" "\<not> it_ticker (inners t ! i)"
    "total_ticks t + 1 \<le> n" by blast+
  have "armed_set (expire i t) = {}" unfolding e using True p by (simp add: armed_set_update)
  moreover have "total_ticks (expire i t) \<le> total_ticks t + 1"
    using total_ticks_update [of i t ?x] True unfolding e
    by (auto simp: total_ticks_def it_ticks_def split: if_splits)
  moreover have "\<forall>x\<in>set ((inners t)[i := ?x]). \<not> it_ticker x"
    using assms p set_update_subset_insert [of "inners t" i ?x] by (auto simp: timer_inv_def)
  ultimately show ?thesis using assms p unfolding timer_inv_def by (simp add: e)
qed (use assms in \<open>auto simp: expire_def\<close>)

lemma timer_inv_receive:
  assumes "timer_inv n t"
  shows "timer_inv n (receive_tick i t)"
proof (cases "i < length (inners t) \<and> it_full (inners t ! i)")
  case True
  let ?x = "(inners t ! i)\<lparr>it_full := False, it_got := it_got (inners t ! i) + 1\<rparr>"
  have e: "receive_tick i t = t\<lparr>inners := (inners t)[i := ?x]\<rparr>" using True by (simp add: receive_tick_def)
  have "armed_set (receive_tick i t) = armed_set t"
    unfolding e armed_set_update [OF conjunct1 [OF True]] using True by (auto simp: armed_set_def)
  moreover have "total_ticks (receive_tick i t) = total_ticks t"
    unfolding e using True by (intro total_ticks_same) (simp add: it_ticks_def)
  moreover have "\<forall>x\<in>set ((inners t)[i := ?x]). \<not> it_ticker x"
    using assms True set_update_subset_insert [of "inners t" i ?x] by (auto simp: timer_inv_def)
  ultimately show ?thesis using assms unfolding timer_inv_def by (simp add: e)
qed (use assms in \<open>auto simp: receive_tick_def\<close>)

lemma timer_inv_run: "timer_inv n t \<Longrightarrow> timer_inv (n + resets ops) (fold timer_do ops t)"
proof (induction ops arbitrary: n t)
  case (Cons x ops)
  then show ?case
    using Cons.IH [OF timer_inv_stop] Cons.IH [OF timer_inv_reset] Cons.IH [OF timer_inv_expire]
      Cons.IH [OF timer_inv_receive]
    by (cases x) (auto simp: resets_def)
qed (simp add: resets_def)

lemma timer_stopped_run: "innerTimer (fold timer_do ops t) = None \<longleftrightarrow> stopped_by (innerTimer t = None) ops"
proof (induction ops arbitrary: t)
  case (Cons x ops)
  show ?case
    by (cases x)
       (auto simp: Cons timerStop_def stop_inner_def Reset_def expire_def receive_tick_def split: option.splits)
qed simp

text \<open>
  Whatever is done with a reusable timer and whenever its inner timers expire: at most one inner
  timer is armed, the one \<open>GetChannel\<close> gives the channel of, so no replaced timer is left running; at
  most one tick is ever sent for its creation and for each \<open>Reset\<close>, read or not; and \<open>GetChannel\<close> panics exactly when
  \<open>Stop\<close> was called and \<open>Reset\<close> was not called since, in which case no timer is armed.
\<close>

theorem real_timer_runs_once:
  assumes "t = fold timer_do ops (NewRealRTimer d)"
  shows "(\<forall>i<length (inners t). it_armed (inners t ! i) \<longrightarrow> timerGetChannel t = Inr i) \<and>
    total_ticks t \<le> 1 + resets ops \<and>
    ((\<exists>msg. timerGetChannel t = Inl (ExplicitPanic msg)) \<longleftrightarrow> stopped_by False ops)"
proof -
  have "timer_inv (1 + resets ops) t"
    unfolding assms by (rule timer_inv_run) (rule timer_inv_new)
  moreover have "innerTimer t = None \<longleftrightarrow> stopped_by False ops"
    using timer_stopped_run [of ops "NewRealRTimer d"]
    by (simp add: assms NewRealRTimer_def NewRealTimer_def)
  ultimately show ?thesis
    by (cases "innerTimer t") (auto simp: timer_inv_def armed_set_def timerGetChannel_def)
qed

text \<open>A timer that is stopped and used again has a new channel: readers of the old one get no new tick.\<close>

lemma real_timer_runs_once_witness:
  "timerGetChannel (fold timer_do [TimerExpire 0, TimerStop, TimerReset 5] (NewRealRTimer 7)) = Inr 1"
proof -
  define t where "t = fold timer_do [TimerExpire 0, TimerStop, TimerReset 5] (NewRealRTimer 7)"
  have "length (inners t) = 2" "it_armed (inners t ! 1)"
    by (simp_all add: t_def NewRealRTimer_def NewRealTimer_def new_inner_def expire_def timerStop_def
        stop_inner_def Reset_def)
  with real_timer_runs_once [OF t_def] show ?thesis by (simp add: t_def)
qed

end
