(* ===== verification/Recorder.thy ===== *)
theory Recorder
  imports Prelude
begin

text \<open>
  \<open>Recorder\<close> of testutils/testutils.go: a channel of 1000 places that the fakes write items to and
  a test reads back, comparing each with what it expects. Time only decides how long a reader waits
  for a writer, so reading from an empty channel is the timeout that fails the test.
\<close>

definition REC_CAPACITY :: nat where "REC_CAPACITY = 1000"

type_synonym recorder = "string list"

definition Rec :: "string \<Rightarrow> recorder \<Rightarrow> recorder res" where
  "Rec item ch = (if length ch < REC_CAPACITY then Inr (ch @ [item]) else Inl BlockedForever)"

text \<open>
  What a test expects of an item: a text, a regular expression (its source text, and what
  \<open>FindStringIndex\<close> finds) or a matcher (its text and its function).
\<close>

datatype expected =
    Literal string
  | Regexp string "string \<Rightarrow> bool"
  | Matcher string "string \<Rightarrow> bool"

text \<open>
  A matcher that hands the submatches of a regular expression to a function, and one that compares
  the first group, or the whole match, with a JSON value: \<open>submatch\<close> is \<open>FindStringSubmatch\<close> of the compiled
  expression, \<open>toJSON\<close> and \<open>fromJSON\<close> are the functions of the \<open>objx\<close> package.
\<close>

definition RegexpCaptureMatcherWithCustomText ::
  "(string \<Rightarrow> string list option) \<Rightarrow> string \<Rightarrow> string \<Rightarrow> (string list \<Rightarrow> bool) \<Rightarrow> expected" where
  "RegexpCaptureMatcherWithCustomText submatch itemRx text handler =
     Matcher itemRx (\<lambda>item. case submatch item of None \<Rightarrow> False | Some m \<Rightarrow> handler m)"

definition RegexpCaptureMatcher ::
  "(string \<Rightarrow> string list option) \<Rightarrow> string \<Rightarrow> (string list \<Rightarrow> bool) \<Rightarrow> expected" where
  "RegexpCaptureMatcher submatch itemRx handler = RegexpCaptureMatcherWithCustomText submatch itemRx itemRx handler"

definition JSONRecMatcher ::
  "(string \<Rightarrow> string list option) \<Rightarrow> ('j \<Rightarrow> string) \<Rightarrow> (string \<Rightarrow> 'j option) \<Rightarrow> 'j \<Rightarrow> string \<Rightarrow> expected" where
  "JSONRecMatcher submatch toJSON fromJSON v itemRx =
     (let valStr = toJSON v in
      RegexpCaptureMatcherWithCustomText submatch itemRx valStr (\<lambda>m.
        let text = (if length m > 1 then m ! 1 else m ! 0) in
        case fromJSON text of None \<Rightarrow> False | Some actualValue \<Rightarrow> valStr = toJSON actualValue))"

datatype failure = TimedOut | UnexpectedLogs string | NotEqual "string list" "string list"

text \<open>The text an expectation is replaced by once its item is there.\<close>

fun replaced :: "expected \<Rightarrow> string \<Rightarrow> string" where
  "replaced (Literal s) item = s"
| "replaced (Regexp text found) item = (if found item then item else text)"
| "replaced (Matcher text fn) item = (if fn item then item else text)"

fun readItems :: "expected list \<Rightarrow> recorder \<Rightarrow> failure + (string list \<times> string list \<times> recorder)" where
  "readItems [] ch = Inr ([], [], ch)"
| "readItems (e # es) [] = Inl TimedOut"
| "readItems (e # es) (item # ch) =
     (case readItems es ch of
        Inl f \<Rightarrow> Inl f
      | Inr (logs, actual, rest) \<Rightarrow> Inr (replaced e item # logs, item # actual, rest))"

definition VerifyEmpty :: "recorder \<Rightarrow> failure + recorder" where
  "VerifyEmpty ch = (case ch of [] \<Rightarrow> Inr [] | item # _ \<Rightarrow> Inl (UnexpectedLogs item))"

definition verifyRec :: "bool \<Rightarrow> expected list \<Rightarrow> recorder \<Rightarrow> failure + recorder" where
  "verifyRec sortLogs logs ch =
     (if logs = [] then VerifyEmpty ch
      else (case readItems logs ch of
              Inl f \<Rightarrow> Inl f
            | Inr (logs, actual, rest) \<Rightarrow>
                (let (logs, actual) = (if sortLogs then (sort logs, sort actual) else (logs, actual))
                 in if logs = actual then Inr rest else Inl (NotEqual logs actual))))"

definition Verify :: "expected list \<Rightarrow> recorder \<Rightarrow> failure + recorder" where
  "Verify = verifyRec False"

definition VerifyUnordered :: "expected list \<Rightarrow> recorder \<Rightarrow> failure + recorder" where
  "VerifyUnordered = verifyRec True"

text \<open>Items are skipped until the given one; the timer fires on an empty channel.\<close>

fun SkipTill :: "string \<Rightarrow> recorder \<Rightarrow> failure + recorder" where
  "SkipTill s [] = Inl TimedOut"
| "SkipTill s (l # ch) = (if l = s then Inr ch else SkipTill s ch)"

section \<open>When a verification succeeds\<close>

text \<open>An expectation is met by an item it matches, and by one that reads like its own text.\<close>

fun meets :: "expected \<Rightarrow> string \<Rightarrow> bool" where
  "meets (Literal s) item \<longleftrightarrow> s = item"
| "meets (Regexp text found) item \<longleftrightarrow> found item \<or> text = item"
| "meets (Matcher text fn) item \<longleftrightarrow> fn item \<or> text = item"

lemma replaced_eq: "replaced e item = item \<longleftrightarrow> meets e item"
  by (cases e) auto

lemma readItems_eq:
  "readItems es ch =
     (if length es \<le> length ch
      then Inr (map2 replaced es ch, take (length es) ch, drop (length es) ch) else Inl TimedOut)"
  by (induction es ch rule: readItems.induct) auto

lemma map2_replaced_eq:
  "length es \<le> length ch \<Longrightarrow>
     map2 replaced es ch = take (length es) ch \<longleftrightarrow> list_all2 meets es (take (length es) ch)"
proof (induction es arbitrary: ch)
  case (Cons e es)
  then show ?case by (cases ch) (auto simp: replaced_eq)
qed simp

lemma verifyRec_ordered:
  "Verify es ch = Inr rest \<longleftrightarrow>
     (if es = [] then ch = [] \<and> rest = []
      else length es \<le> length ch \<and> list_all2 meets es (take (length es) ch) \<and>
           rest = drop (length es) ch)"
proof (cases "es = []")
  case True
  then show ?thesis by (auto simp: Verify_def verifyRec_def VerifyEmpty_def split: list.splits)
next
  case False
  show ?thesis
  proof (cases "length es \<le> length ch")
    case True
    then have "readItems es ch = Inr (map2 replaced es ch, take (length es) ch, drop (length es) ch)"
      by (simp add: readItems_eq)
    then show ?thesis
      using False True map2_replaced_eq [OF True] by (auto simp: Verify_def verifyRec_def)
  next
    case short: False
    then have "readItems es ch = Inl TimedOut"
      by (simp add: readItems_eq)
    then show ?thesis
      using False short by (simp add: Verify_def verifyRec_def)
  qed
qed

text \<open>Unordered literals: the items read are the expected ones, in any order.\<close>

lemma map2_replaced_Literal:
  "length ss \<le> length ch \<Longrightarrow> map2 replaced (map Literal ss) ch = ss"
proof (induction ss arbitrary: ch)
  case (Cons s ss)
  then show ?case by (cases ch) auto
qed simp

lemma verifyRec_unordered_Literal:
  assumes "ss \<noteq> []"
  shows "VerifyUnordered (map Literal ss) ch = Inr rest \<longleftrightarrow>
     length ss \<le> length ch \<and> sort (take (length ss) ch) = sort ss \<and> rest = drop (length ss) ch"
proof (cases "length ss \<le> length ch")
  case True
  then have "readItems (map Literal ss) ch = Inr (ss, take (length ss) ch, drop (length ss) ch)"
    by (simp add: readItems_eq map2_replaced_Literal)
  then show ?thesis
    using assms True by (auto simp: VerifyUnordered_def verifyRec_def)
next
  case False
  then have "readItems (map Literal ss) ch = Inl TimedOut"
    by (simp add: readItems_eq)
  then show ?thesis
    using assms False by (simp add: VerifyUnordered_def verifyRec_def)
qed

end
