(* ===== verification/Fake_Timer.thy ===== *)
theory Fake_Timer
  imports Recorder "HOL-Library.Word"
begin

text \<open>
  testutils/faketimer.go: timers that fire when a test says so. The timers a fixture made are objects
  that their users go on holding; the fixture finds them by their ids, until it forgets them. Times
  are counted in nanoseconds.
\<close>

section \<open>Data\<close>

text \<open>
  A fake timer. Its channel has no buffer: a firing that has passed its checks waits for a reader with
  the timer's lock held (\<open>ft_sending\<close>), and \<open>ft_received\<close> is what readers got, in order.
\<close>

record fakeTimer =
  ft_id :: "64 word"
  ft_d :: int
  ft_periodic :: bool
  ft_active :: bool
  ft_sending :: "int option"
  ft_received :: "int list"

text \<open>\<open>timers\<close> points into \<open>objects\<close>; \<open>testFailed\<close> is what the testing package remembers of a failed check.\<close>

record fake_timers =
  rec_items :: recorder
  nextTimerId :: "64 word"
  timers :: "64 word \<rightharpoonup> nat"
  objects :: "fakeTimer list"
  currentTime :: int
  testFailed :: bool

definition testStartTime :: int where
  "testStartTime = 1425065597 * 10 ^ 9"

definition NewFakeTimerFixture :: "recorder \<Rightarrow> fake_timers" where
  "NewFakeTimerFixture items =
     \<lparr>rec_items = items, nextTimerId = 1, timers = Map.empty, objects = [],
      currentTime = testStartTime, testFailed = False\<rparr>"

definition ClearTimers :: "fake_timers \<Rightarrow> fake_timers" where
  "ClearTimers s = s\<lparr>nextTimerId := 1, timers := Map.empty\<rparr>"

definition rec_item :: "string \<Rightarrow> fake_timers \<Rightarrow> fake_timers res" where
  "rec_item item s = bind_res (Rec item (rec_items s)) (\<lambda>items. Inr (s\<lparr>rec_items := items\<rparr>))"

section \<open>Making timers\<close>

text \<open>\<open>d / time.Millisecond\<close>: the division of Go rounds towards zero.\<close>

definition milliseconds :: "int \<Rightarrow> int" where
  "milliseconds d = (if d < 0 then - (- d div 10 ^ 6) else d div 10 ^ 6)"

text \<open>A new timer, and its place among the objects. Its id is the given one, or the next one for 0.\<close>

definition NewFakeTimerOrTicker :: "64 word \<Rightarrow> int \<Rightarrow> bool \<Rightarrow> fake_timers \<Rightarrow> (fake_timers \<times> nat) res" where
  "NewFakeTimerOrTicker i d periodic s =
     (let (i, s) = (if i = 0 then (nextTimerId s, s\<lparr>nextTimerId := nextTimerId s + 1\<rparr>) else (i, s));
          timer = \<lparr>ft_id = i, ft_d = d, ft_periodic = periodic, ft_active = True, ft_sending = None,
            ft_received = []\<rparr>
      in if timers s i \<noteq> None then Inl (ExplicitPanic ''FakeTimerFixture: duplicate timer id'')
         else
           (let p = length (objects s);
                s = s\<lparr>timers := (timers s)(i \<mapsto> p), objects := objects s @ [timer]\<rparr>;
                what = (if periodic then ''ticker'' else ''timer'')
            in bind_res (rec_item (''new fake '' @ what @ '': '' @ digits (unat i) @ '', '' @ itoa (milliseconds d)) s)
                 (\<lambda>s. Inr (s, p))))"

definition NewFakeTimer :: "int \<Rightarrow> fake_timers \<Rightarrow> (fake_timers \<times> nat) res" where
  "NewFakeTimer d s = NewFakeTimerOrTicker 0 d False s"

definition NewFakeTicker :: "int \<Rightarrow> fake_timers \<Rightarrow> (fake_timers \<times> nat) res" where
  "NewFakeTicker d s = NewFakeTimerOrTicker 0 d True s"

definition AdvanceTime :: "int \<Rightarrow> fake_timers \<Rightarrow> fake_timers" where
  "AdvanceTime d s = s\<lparr>currentTime := currentTime s + d\<rparr>"

section \<open>Firing and stopping\<close>

definition update_timer :: "nat \<Rightarrow> (fakeTimer \<Rightarrow> fakeTimer) \<Rightarrow> fake_timers \<Rightarrow> fake_timers" where
  "update_timer p f s = s\<lparr>objects := (objects s)[p := f (objects s ! p)]\<rparr>"

text \<open>
  \<open>fire\<close> up to the send, with the lock of the timer taken: a check that fails ends the goroutine and
  gives the lock back. Then the rest of it, when a reader of the channel takes the time.
\<close>

definition fire :: "nat \<Rightarrow> int \<Rightarrow> fake_timers \<Rightarrow> fake_timers res" where
  "fire p ts s =
     bind_res (rec_item (''timer.fire(): '' @ digits (unat (ft_id (objects s ! p)))) s) (\<lambda>s. Inr
       (if \<not> ft_active (objects s ! p) then s\<lparr>testFailed := True\<rparr>
        else update_timer p (\<lambda>t. t\<lparr>ft_sending := Some ts\<rparr>) s))"

definition taken :: "nat \<Rightarrow> fake_timers \<Rightarrow> fake_timers" where
  "taken p s =
     (case ft_sending (objects s ! p) of
        None \<Rightarrow> s
      | Some ts \<Rightarrow>
          update_timer p (\<lambda>t. t\<lparr>ft_sending := None, ft_received := ft_received t @ [ts],
            ft_active := ft_active t \<and> ft_periodic t\<rparr>) s)"

definition FireTimer :: "64 word \<Rightarrow> int \<Rightarrow> fake_timers \<Rightarrow> fake_timers res" where
  "FireTimer i ts s =
     (case timers s i of
        None \<Rightarrow> Inl (ExplicitPanic ''FakeTimerFixture.FireTimer(): bad timer id'')
      | Some p \<Rightarrow> fire p ts s)"

definition fakeStop :: "nat \<Rightarrow> fake_timers \<Rightarrow> fake_timers res" where
  "fakeStop p s =
     rec_item (''timer.Stop(): '' @ digits (unat (ft_id (objects s ! p))))
       (update_timer p (\<lambda>t. t\<lparr>ft_active := False\<rparr>) s)"

section \<open>Steps\<close>

text \<open>The lock of a timer is free while it does not wait for a reader.\<close>

definition unlocked :: "nat \<Rightarrow> fake_timers \<Rightarrow> bool" where
  "unlocked p s \<longleftrightarrow> p < length (objects s) \<and> ft_sending (objects s ! p) = None"

inductive ft_step :: "fake_timers \<Rightarrow> fake_timers \<Rightarrow> bool" where
  ft_new: "NewFakeTimerOrTicker i d periodic s = Inr (s', p) \<Longrightarrow> ft_step s s'"
| ft_clear: "ft_step s (ClearTimers s)"
| ft_advance: "ft_step s (AdvanceTime d s)"
| ft_fire: "timers s i = Some p \<Longrightarrow> unlocked p s \<Longrightarrow> FireTimer i ts s = Inr s' \<Longrightarrow> ft_step s s'"
| ft_read: "p < length (objects s) \<Longrightarrow> ft_step s (taken p s)"
| ft_stop: "unlocked p s \<Longrightarrow> fakeStop p s = Inr s' \<Longrightarrow> ft_step s s'"
| ft_verify: "ft_step s (s\<lparr>rec_items := items\<rparr>)"

inductive ft_reachable :: "fake_timers \<Rightarrow> bool" where
  ft_start: "ft_reachable (NewFakeTimerFixture items)"
| ft_next: "ft_reachable s \<Longrightarrow> ft_step s s' \<Longrightarrow> ft_reachable s'"

section \<open>What fires, and how often\<close>

definition timer_ok :: "fakeTimer \<Rightarrow> bool" where
  "timer_ok t \<longleftrightarrow> (ft_sending t \<noteq> None \<longrightarrow> ft_active t) \<and>
     (\<not> ft_periodic t \<longrightarrow> length (ft_received t) \<le> 1 \<and> (ft_active t \<longrightarrow> ft_received t = []))"

definition ft_inv :: "fake_timers \<Rightarrow> bool" where
  "ft_inv s \<longleftrightarrow> (\<forall>t\<in>set (objects s). timer_ok t) \<and>
     (\<forall>i p. timers s i = Some p \<longrightarrow> p < length (objects s) \<and> ft_id (objects s ! p) = i)"

lemma rec_item_Inr: "rec_item item s = Inr s' \<Longrightarrow> \<exists>items. s' = s\<lparr>rec_items := items\<rparr>"
  by (auto simp: rec_item_def)

lemma ft_inv_items [simp]: "ft_inv (s\<lparr>rec_items := items\<rparr>) = ft_inv s"
  by (simp add: ft_inv_def)

lemma ft_inv_update:
  assumes "ft_inv s" "timer_ok (f (objects s ! p))" "\<And>t. ft_id (f t) = ft_id t"
  shows "ft_inv (update_timer p f s)"
proof -
  have "timer_ok t" if "t \<in> set ((objects s)[p := f (objects s ! p)])" for t
    using that assms(1,2) set_update_subset_insert [of "objects s" p "f (objects s ! p)"]
    by (auto simp: ft_inv_def)
  moreover have "ft_id ((objects s)[p := f (objects s ! p)] ! q) = ft_id (objects s ! q)" for q
    using assms(3) by (cases "p = q"; cases "q < length (objects s)") (simp_all add: list_update_beyond)
  ultimately show ?thesis
    using assms(1) by (simp add: ft_inv_def update_timer_def)
qed

lemma ft_inv_object: "ft_inv s \<Longrightarrow> p < length (objects s) \<Longrightarrow> timer_ok (objects s ! p)"
  by (simp add: ft_inv_def)

text \<open>What a step does to the objects: it adds one, changes one as a firing or a stop does, or nothing.\<close>

lemma new_timer_Inr:
  "NewFakeTimerOrTicker i d periodic s = Inr (s', p) \<Longrightarrow>
     \<exists>j. timers s j = None \<and> p = length (objects s) \<and> timers s' = (timers s)(j \<mapsto> p) \<and>
       objects s' = objects s @ [\<lparr>ft_id = j, ft_d = d, ft_periodic = periodic, ft_active = True,
           ft_sending = None, ft_received = []\<rparr>]"
  unfolding NewFakeTimerOrTicker_def
  by (cases "i = 0") (auto simp: Let_def split: if_splits dest!: rec_item_Inr)

lemma fire_Inr:
  "fire p ts s = Inr s' \<Longrightarrow> \<exists>items.
     s' = (if ft_active (objects s ! p) then update_timer p (\<lambda>t. t\<lparr>ft_sending := Some ts\<rparr>) (s\<lparr>rec_items := items\<rparr>)
           else s\<lparr>rec_items := items, testFailed := True\<rparr>)"
  by (auto simp: fire_def dest!: rec_item_Inr)

lemma fakeStop_Inr:
  "fakeStop p s = Inr s' \<Longrightarrow>
     \<exists>items. s' = (update_timer p (\<lambda>t. t\<lparr>ft_active := False\<rparr>) s)\<lparr>rec_items := items\<rparr>"
  by (auto simp: fakeStop_def dest!: rec_item_Inr)

lemma ft_inv_step: "ft_step s s' \<Longrightarrow> ft_inv s \<Longrightarrow> ft_inv s'"
proof (induction rule: ft_step.induct)
  case (ft_new i d periodic s s' p)
  from new_timer_Inr [OF ft_new(1)] ft_new(2) show ?case
    by (auto simp: ft_inv_def timer_ok_def nth_append less_SucI split: if_splits)
next
  case (ft_fire s i p ts s')
  then have ok: "timer_ok (objects s ! p)" by (simp add: unlocked_def ft_inv_object)
  from ft_fire(1,3) have "fire p ts s = Inr s'" by (simp add: FireTimer_def)
  then obtain items where "s' = (if ft_active (objects s ! p)
      then update_timer p (\<lambda>t. t\<lparr>ft_sending := Some ts\<rparr>) (s\<lparr>rec_items := items\<rparr>)
      else s\<lparr>rec_items := items, testFailed := True\<rparr>)" by (blast dest: fire_Inr)
  moreover have "ft_inv (update_timer p (\<lambda>t. t\<lparr>ft_sending := Some ts\<rparr>) (s\<lparr>rec_items := items\<rparr>))"
    if "ft_active (objects s ! p)"
    using ft_fire(4) ok that by (intro ft_inv_update) (simp_all add: timer_ok_def)
  ultimately show ?case using ft_fire(4) by (simp add: ft_inv_def)
next
  case (ft_read p s)
  then have ok: "timer_ok (objects s ! p)" by (simp add: ft_inv_object)
  show ?case
  proof (cases "ft_sending (objects s ! p)")
    case (Some ts)
    then have "ft_inv (update_timer p (\<lambda>t. t\<lparr>ft_sending := None, ft_received := ft_received t @ [ts],
        ft_active := ft_active t \<and> ft_periodic t\<rparr>) s)"
      using ft_read(2) ok by (intro ft_inv_update) (auto simp: timer_ok_def)
    with Some show ?thesis by (simp add: taken_def)
  qed (simp add: taken_def ft_read(2))
next
  case (ft_stop p s s')
  then have "ft_inv (update_timer p (\<lambda>t. t\<lparr>ft_active := False\<rparr>) s)"
    using ft_inv_object [of s p] by (intro ft_inv_update) (auto simp: timer_ok_def unlocked_def)
  with fakeStop_Inr [OF ft_stop(2)] show ?case by auto
qed (simp_all add: ft_inv_def ClearTimers_def AdvanceTime_def)

lemma ft_reachable_inv: "ft_reachable s \<Longrightarrow> ft_inv s"
  by (induction rule: ft_reachable.induct)
     (auto simp: ft_inv_step, simp add: ft_inv_def NewFakeTimerFixture_def)

text \<open>A timer that is not active stays as it is.\<close>

lemma inactive_step:
  "ft_step s s' \<Longrightarrow> ft_inv s \<Longrightarrow> q < length (objects s) \<Longrightarrow> \<not> ft_active (objects s ! q) \<Longrightarrow>
     q < length (objects s') \<and> objects s' ! q = objects s ! q"
proof (induction rule: ft_step.induct)
  case (ft_new i d periodic s s' p)
  from new_timer_Inr [OF ft_new(1)] ft_new(3) show ?case by (auto simp: nth_append)
next
  case (ft_fire s i p ts s')
  from ft_fire(1,3) have "fire p ts s = Inr s'" by (simp add: FireTimer_def)
  with ft_fire(5,6) show ?case
    by (cases "p = q") (auto dest!: fire_Inr simp: update_timer_def split: if_splits)
next
  case (ft_read p s)
  have "ft_sending (objects s ! q) = None"
    using ft_inv_object [OF ft_read(2,3)] ft_read(4) by (auto simp: timer_ok_def)
  with ft_read(3) show ?case
    by (cases "p = q") (auto simp: taken_def update_timer_def split: option.split)
next
  case (ft_stop p s s')
  have "(objects s ! q)\<lparr>ft_active := False\<rparr> = objects s ! q"
    using ft_stop(5) by simp
  with fakeStop_Inr [OF ft_stop(2)] ft_stop(4) show ?case
    by (cases "p = q") (auto simp: update_timer_def)
qed (simp_all add: ClearTimers_def AdvanceTime_def)

lemma inactive_steps:
  "ft_step\<^sup>*\<^sup>* s s' \<Longrightarrow> ft_inv s \<Longrightarrow> q < length (objects s) \<Longrightarrow> \<not> ft_active (objects s ! q) \<Longrightarrow>
     ft_inv s' \<and> q < length (objects s') \<and> objects s' ! q = objects s ! q"
  by (induction rule: rtranclp_induct) (use inactive_step ft_inv_step in \<open>simp, metis\<close>)

text \<open>
  A fake timer keeps to the contract of a real one in every reachable state, whatever its fixture
  and its holders do and in whatever order: one that is not a ticker hands over one time at most;
  once stopped or fired, no timer hands over anything any more, however often it is fired; and the
  fixture finds a timer only under its own id.
\<close>

theorem fake_timers_keep_the_contract:
  assumes "ft_reachable s" "p < length (objects s)"
  shows "(\<not> ft_periodic (objects s ! p) \<longrightarrow> length (ft_received (objects s ! p)) \<le> 1) \<and>
    (\<not> ft_active (objects s ! p) \<longrightarrow> (\<forall>s'. ft_step\<^sup>*\<^sup>* s s' \<longrightarrow> objects s' ! p = objects s ! p)) \<and>
    (\<forall>i. timers s i = Some p \<longrightarrow> ft_id (objects s ! p) = i)"
proof -
  have inv: "ft_inv s" using assms(1) by (rule ft_reachable_inv)
  then have "timer_ok (objects s ! p)" using assms(2) by (rule ft_inv_object)
  moreover have "objects s' ! p = objects s ! p" if "\<not> ft_active (objects s ! p)" "ft_step\<^sup>*\<^sup>* s s'" for s'
    using inactive_steps [OF that(2) inv assms(2) that(1)] by simp
  moreover have "ft_id (objects s ! p) = i" if "timers s i = Some p" for i
    using inv that by (simp add: ft_inv_def)
  ultimately show ?thesis unfolding timer_ok_def by blast
qed

definition demo_timers :: fake_timers where
  "demo_timers =
     (case NewFakeTimer (10 ^ 9) (NewFakeTimerFixture []) of Inl e \<Rightarrow> NewFakeTimerFixture [] | Inr (s, p) \<Rightarrow> s)"

definition demo_fired :: fake_timers where
  "demo_fired = taken 0 (case FireTimer 1 7 demo_timers of Inl e \<Rightarrow> demo_timers | Inr s \<Rightarrow> s)"

lemma demo_timers_eq:
  "demo_timers = \<lparr>rec_items = [''new fake timer: 1, 1000''], nextTimerId = 2, timers = [1 \<mapsto> 0],
     objects = [\<lparr>ft_id = 1, ft_d = 10 ^ 9, ft_periodic = False, ft_active = True, ft_sending = None,
       ft_received = []\<rparr>], currentTime = testStartTime, testFailed = False\<rparr>"
  by (simp add: demo_timers_def NewFakeTimer_def NewFakeTimerOrTicker_def NewFakeTimerFixture_def
      rec_item_def Rec_def REC_CAPACITY_def milliseconds_def itoa_def digits.simps char_of_def bit_Suc_0_iff)

lemma demo_fired_reachable: "ft_reachable demo_fired"
proof -
  have "ft_step (NewFakeTimerFixture []) demo_timers"
    by (rule ft_new [of 0 "10 ^ 9" False _ _ 0])
       (simp add: demo_timers_eq NewFakeTimerOrTicker_def NewFakeTimerFixture_def
          rec_item_def Rec_def REC_CAPACITY_def milliseconds_def itoa_def digits.simps char_of_def bit_Suc_0_iff)
  then have t: "ft_reachable demo_timers" by (rule ft_next [OF ft_start])
  obtain s where s: "FireTimer 1 7 demo_timers = Inr s" "length (objects s) = 1"
    by (simp add: demo_timers_eq FireTimer_def fire_def rec_item_def Rec_def REC_CAPACITY_def update_timer_def)
  have "ft_step demo_timers s"
    by (rule ft_fire [of _ 1 0, OF _ _ s(1)]) (simp_all add: demo_timers_eq unlocked_def)
  moreover have "ft_step s (taken 0 s)" by (rule ft_read) (simp add: s(2))
  moreover have "demo_fired = taken 0 s" by (simp add: demo_fired_def s(1))
  ultimately show ?thesis using t by (auto intro: ft_next)
qed

text \<open>Fired a second time, the timer hands over nothing.\<close>

definition demo_again :: fake_timers where
  "demo_again = (case FireTimer 1 8 demo_fired of Inl e \<Rightarrow> demo_fired | Inr s \<Rightarrow> s)"

lemma fake_timers_keep_the_contract_witness:
  "ft_received (objects demo_fired ! 0) = [7] \<and> ft_received (objects demo_again ! 0) = [7] \<and> testFailed demo_again"
proof -
  have f: "objects demo_fired = [\<lparr>ft_id = 1, ft_d = 10 ^ 9, ft_periodic = False, ft_active = False,
      ft_sending = None, ft_received = [7]\<rparr>]" "timers demo_fired = [1 \<mapsto> 0]" "length (rec_items demo_fired) = 2"
    by (simp_all add: demo_fired_def taken_def demo_timers_eq FireTimer_def fire_def rec_item_def Rec_def
        REC_CAPACITY_def update_timer_def)
  then obtain s where s: "FireTimer 1 8 demo_fired = Inr s" "testFailed s"
    by (simp add: FireTimer_def fire_def rec_item_def Rec_def REC_CAPACITY_def)
  have "ft_step demo_fired s"
    by (rule ft_fire [of _ 1 0, OF _ _ s(1)]) (simp_all add: f unlocked_def)
  moreover have "demo_again = s" by (simp add: demo_again_def s(1))
  ultimately have "ft_step\<^sup>*\<^sup>* demo_fired demo_again" by auto
  moreover have "0 < length (objects demo_fired)" "\<not> ft_active (objects demo_fired ! 0)"
    "ft_received (objects demo_fired ! 0) = [7]" by (simp_all add: f)
  ultimately have "objects demo_again ! 0 = objects demo_fired ! 0"
    using fake_timers_keep_the_contract [OF demo_fired_reachable, of 0] by blast
  with \<open>ft_received (objects demo_fired ! 0) = [7]\<close> \<open>demo_again = s\<close> s(2) show ?thesis by simp
qed

end
