(* ===== verification/Timer_Interface.thy ===== *)
theory Timer_Interface
  imports Timers Fake_Timer
begin

text \<open>
  The interface \<open>Timer\<close> of timers.go as a contract, what a holder of a timer can rely on whichever
  implementation it was given: the wrappers of the library's timers, or the fakes of the tests.
\<close>

section \<open>The contract\<close>

text \<open>
  \<open>stop\<close> is the method; \<open>other\<close> is anything else that may happen to the timer; \<open>received\<close> counts the times
  its readers got, \<open>pending\<close> those sent that wait in a channel for a reader, and \<open>armed\<close> is whether more
  can be sent. \<open>Stop\<close> ends the sending; it takes back nothing.
\<close>

locale timer_contract =
  fixes stop :: "'s \<Rightarrow> 's res"
    and other :: "'s \<Rightarrow> 's \<Rightarrow> bool"
    and armed :: "'s \<Rightarrow> bool"
    and received :: "'s \<Rightarrow> nat"
    and pending :: "'s \<Rightarrow> nat"
    and ok :: "'s \<Rightarrow> bool"
  assumes stop_disarms: "ok s \<Longrightarrow> stop s = Inr s' \<Longrightarrow>
      ok s' \<and> \<not> armed s' \<and> received s' = received s \<and> pending s' = pending s"
    and other_ok: "ok s \<Longrightarrow> other s s' \<Longrightarrow> ok s'"
    and keeps_received: "ok s \<Longrightarrow> other s s' \<Longrightarrow> received s \<le> received s'"
    and disarmed_quiet: "ok s \<Longrightarrow> other s s' \<Longrightarrow> \<not> armed s \<Longrightarrow>
      \<not> armed s' \<and> received s' + pending s' = received s + pending s"
begin

lemma others_ok: "other\<^sup>*\<^sup>* s s' \<Longrightarrow> ok s \<Longrightarrow> ok s'"
  by (induction rule: rtranclp_induct) (auto intro: other_ok)

lemma others_received: "other\<^sup>*\<^sup>* s s' \<Longrightarrow> ok s \<Longrightarrow> received s \<le> received s'"
proof (induction rule: rtranclp_induct)
  case (step y z)
  then show ?case using keeps_received [OF others_ok [OF step(1,4)] step(2)] by simp
qed simp

lemma stays_quiet:
  "other\<^sup>*\<^sup>* s s' \<Longrightarrow> ok s \<Longrightarrow> \<not> armed s \<Longrightarrow>
     \<not> armed s' \<and> received s' + pending s' = received s + pending s"
proof (induction rule: rtranclp_induct)
  case (step y z)
  then show ?case using disarmed_quiet [OF others_ok [OF step(1,4)] step(2)] by simp
qed simp

lemma stopped_is_quiet:
  "ok s \<Longrightarrow> stop s = Inr s1 \<Longrightarrow> other\<^sup>*\<^sup>* s1 s2 \<Longrightarrow>
     received s \<le> received s2 \<and> received s2 + pending s2 = received s + pending s"
  using stop_disarms [of s s1] stays_quiet [of s1 s2] others_received [of s1 s2] by simp

end

text \<open>A timer that is not a ticker sends once.\<close>

locale one_shot = timer_contract +
  assumes goes_off: "ok s \<Longrightarrow> other s s' \<Longrightarrow>
    received s' + pending s' \<le> received s + pending s \<or>
    received s' + pending s' \<le> Suc (received s + pending s) \<and> armed s \<and> \<not> armed s'"
begin

lemma at_most_once:
  "other\<^sup>*\<^sup>* s s' \<Longrightarrow> ok s \<Longrightarrow>
     received s' + pending s' \<le> received s + pending s \<or>
     received s' + pending s' \<le> Suc (received s + pending s) \<and> \<not> armed s'"
proof (induction rule: rtranclp_induct)
  case (step y z)
  then have "ok y" using others_ok by blast
  from goes_off [OF this step(2)] disarmed_quiet [OF this step(2)] step.IH [OF step.prems] show ?case
    by linarith
qed simp

end

section \<open>The real timers\<close>

text \<open>
  A stopped wrapper is left with no armed timer, so nothing is sent after it; a tick sent before still
  waits in its channel.
\<close>

inductive real_other :: "real_timer \<Rightarrow> real_timer \<Rightarrow> bool" where
  real_expire: "real_other t (expire i t)"
| real_read: "real_other t (receive_tick i t)"

inductive_cases real_otherE: "real_other t t'"

definition ticker_ok :: "real_timer \<Rightarrow> bool" where
  "ticker_ok t \<longleftrightarrow> armed_set t \<subseteq> set_option (innerTimer t) \<and> set_option (innerTimer t) \<subseteq> {..<length (inners t)}"

lemma armed_read [simp]: "armed_set (receive_tick i t) = armed_set t" "total_ticks (receive_tick i t) = total_ticks t"
  by (auto simp: receive_tick_def armed_set_def nth_list_update total_ticks_same it_ticks_def)

lemma received_ticks_update:
  "i < length (inners t) \<Longrightarrow>
     received_ticks (t\<lparr>inners := (inners t)[i := x]\<rparr>) + it_got (inners t ! i) = received_ticks t + it_got x"
proof -
  have "i < length xs \<Longrightarrow>
      sum_list (map it_got (xs[i := x])) + it_got (xs ! i) = sum_list (map it_got xs) + it_got x" for xs
    by (induction xs arbitrary: i) (auto split: nat.split)
  then show "i < length (inners t) \<Longrightarrow> ?thesis" by (simp add: received_ticks_def)
qed

lemma pending_ticks_same:
  "it_full x = it_full (inners t ! i) \<Longrightarrow> it_got x = it_got (inners t ! i) \<Longrightarrow>
     received_ticks (t\<lparr>inners := (inners t)[i := x]\<rparr>) = received_ticks t \<and>
     pending_ticks (t\<lparr>inners := (inners t)[i := x]\<rparr>) = pending_ticks t"
  using total_ticks_same [of x t i] received_ticks_update [of i t x]
  by (cases "i < length (inners t)")
     (auto simp: it_ticks_def total_ticks_eq received_ticks_def pending_ticks_def list_update_beyond)

lemma real_received: "real_other t t' \<Longrightarrow> received_ticks t \<le> received_ticks t'"
proof (erule real_otherE)
  fix i assume "t' = expire i t"
  then show ?thesis
    using received_ticks_update [of i t "(inners t ! i)\<lparr>it_armed := it_ticker (inners t ! i), it_full := True\<rparr>"]
    by (auto simp: expire_def)
next
  fix i assume "t' = receive_tick i t"
  then show ?thesis
    using received_ticks_update [of i t "(inners t ! i)\<lparr>it_full := False, it_got := it_got (inners t ! i) + 1\<rparr>"]
    by (auto simp: receive_tick_def)
qed


lemma real_fields [simp]:
  "innerTimer (expire i t) = innerTimer t" "innerTimer (receive_tick i t) = innerTimer t"
  "length (inners (expire i t)) = length (inners t)" "length (inners (receive_tick i t)) = length (inners t)"
  by (simp_all add: expire_def receive_tick_def)

lemma expire_armed: "armed_set (expire i t) \<subseteq> armed_set t"
  "i \<notin> armed_set t \<Longrightarrow> expire i t = t"
  by (auto simp: expire_def armed_set_def nth_list_update split: if_splits)


lemma real_quiet:
  "real_other t t' \<Longrightarrow> armed_set t = {} \<Longrightarrow> armed_set t' = {} \<and> total_ticks t' = total_ticks t"
  using expire_armed by (auto elim!: real_otherE)

lemma stop_disarms_real:
  assumes "ticker_ok t"
  shows "ticker_ok (tickerStop t) \<and> armed_set (tickerStop t) = {} \<and>
    received_ticks (tickerStop t) = received_ticks t \<and> pending_ticks (tickerStop t) = pending_ticks t"
proof (cases "innerTimer t")
  case (Some i)
  with assms have "i < length (inners t)" "armed_set t \<subseteq> {i}" by (auto simp: ticker_ok_def)
  moreover have "received_ticks (tickerStop t) = received_ticks t \<and> pending_ticks (tickerStop t) = pending_ticks t"
    using pending_ticks_same [of "(inners t ! i)\<lparr>it_armed := False\<rparr>" t i]
    by (simp add: tickerStop_def Some stop_inner_def received_ticks_def pending_ticks_def)
  ultimately show ?thesis
    using Some by (auto simp: ticker_ok_def tickerStop_def stop_inner_def armed_set_update)
qed (use assms in \<open>simp add: ticker_ok_def tickerStop_def\<close>)

lemma tickerStop_timerStop: "timerStop = tickerStop"
  by (simp add: timerStop_def tickerStop_def fun_eq_iff)


definition timer_ready :: "real_timer \<Rightarrow> bool" where
  "timer_ready t \<longleftrightarrow> ticker_ok t \<and> (\<forall>x\<in>set (inners t). \<not> it_ticker x)"

lemma timer_ready_inv: "timer_ready t \<longleftrightarrow> (\<exists>n. timer_inv n t)"
  by (auto simp: timer_ready_def timer_inv_def ticker_ok_def)

lemma timer_ready_stop: "timer_ready t \<Longrightarrow> timer_ready (timerStop t)"
  unfolding timer_ready_inv by (blast intro: timer_inv_stop)

lemma timer_ready_other: "timer_ready t \<Longrightarrow> real_other t t' \<Longrightarrow> timer_ready t'"
  unfolding timer_ready_inv by (auto elim!: real_otherE intro: timer_inv_expire timer_inv_receive)

lemma expire_once:
  assumes "timer_ready t" "i \<in> armed_set t"
  shows "total_ticks (expire i t) \<le> Suc (total_ticks t) \<and> armed_set (expire i t) = {}"
proof -
  let ?x = "(inners t ! i)\<lparr>it_armed := it_ticker (inners t ! i), it_full := True\<rparr>"
  have i: "i < length (inners t)" "it_armed (inners t ! i)" using assms(2) by (simp_all add: armed_set_def)
  have "innerTimer t = Some i" using assms by (auto simp: timer_ready_def ticker_ok_def)
  with assms i have "armed_set t \<subseteq> {i}" "\<not> it_ticker (inners t ! i)"
    by (auto simp: timer_ready_def ticker_ok_def)
  with i total_ticks_update [OF i(1), of ?x] show ?thesis
    by (auto simp: expire_def armed_set_update total_ticks_def it_ticks_def split: if_splits)
qed

lemma real_goes_off:
  assumes "timer_ready t" "real_other t t'"
  shows "total_ticks t' \<le> total_ticks t \<or>
    total_ticks t' \<le> Suc (total_ticks t) \<and> armed_set t \<noteq> {} \<and> armed_set t' = {}"
  using assms(2)
proof (cases rule: real_other.cases)
  case (real_expire i)
  with expire_once [OF assms(1), of i] expire_armed(2) [of i t] show ?thesis by (cases "i \<in> armed_set t") auto
qed simp

interpretation real_timer: one_shot "\<lambda>t. Inr (timerStop t)" real_other "\<lambda>t. armed_set t \<noteq> {}"
    received_ticks pending_ticks timer_ready
proof unfold_locales
  fix t t' assume "timer_ready t" "(Inr (timerStop t) :: real_timer res) = Inr t'"
  then show "timer_ready t' \<and> \<not> armed_set t' \<noteq> {} \<and>
      received_ticks t' = received_ticks t \<and> pending_ticks t' = pending_ticks t"
    using stop_disarms_real [of t] timer_ready_stop [of t] by (simp add: tickerStop_timerStop timer_ready_def)
next
  fix t t' assume "timer_ready t" "real_other t t'"
  from real_goes_off [OF this]
  show "received_ticks t' + pending_ticks t' \<le> received_ticks t + pending_ticks t \<or>
      received_ticks t' + pending_ticks t' \<le> Suc (received_ticks t + pending_ticks t) \<and>
      armed_set t \<noteq> {} \<and> \<not> armed_set t' \<noteq> {}"
    by (simp add: total_ticks_eq)
qed (auto simp: total_ticks_eq [symmetric] real_received dest: timer_ready_other real_quiet)

section \<open>The fake timers\<close>












section \<open>What both keep to, and where they differ\<close>







end
