(* ===== verification/Profiling.thy ===== *)
theory Profiling
  imports Prelude "HOL-Library.Word"
begin

text \<open>
  profile.go: a goroutine that measures the program from the moment it is ready until an interrupt or
  for a given time, prints what it used and ends it. Durations are 64-bit counts of nanoseconds. What
  the system answers (times, resources, counts of packets, whether a file can be made) are arguments,
  and so is the arithmetic of \<open>float64\<close> with the printing of two decimals.
\<close>

section \<open>Measuring\<close>

type_synonym duration = "64 word"

definition Second :: duration where "Second = 1000000000"
definition Microsecond :: duration where "Microsecond = 1000"

text \<open>Seconds and microseconds of user and system time; \<open>None\<close> when the system call fails.\<close>

type_synonym rusage = "(duration \<times> duration \<times> duration \<times> duration) option"

definition getRusage :: "rusage \<Rightarrow> duration \<times> duration" where
  "getRusage ru =
     (case ru of
        None \<Rightarrow> (0, 0)
      | Some (usec, uusec, ssec, susec) \<Rightarrow>
          (usec * Second + uusec * Microsecond, ssec * Second + susec * Microsecond))"

record 'f float_ops =
  of_count :: "int \<Rightarrow> 'f"
  f_mul :: "'f \<Rightarrow> 'f \<Rightarrow> 'f"
  f_div :: "'f \<Rightarrow> 'f \<Rightarrow> 'f"
  two_decimals :: "'f \<Rightarrow> string"

text \<open>A moment: the clock, the resources used, the packets sent and received.\<close>

record sample =
  sm_time :: duration
  sm_usage :: rusage
  sm_sent :: int
  sm_received :: int

definition per :: "'f float_ops \<Rightarrow> int \<Rightarrow> duration \<Rightarrow> string" where
  "per fo n d =
     two_decimals fo (f_div fo (f_mul fo (of_count fo n) (of_count fo (sint Second))) (of_count fo (sint d)))"

definition percent :: "'f float_ops \<Rightarrow> duration \<Rightarrow> duration \<Rightarrow> string" where
  "percent fo d elapsed =
     two_decimals fo (f_div fo (f_mul fo (of_count fo (sint d)) (of_count fo 100)) (of_count fo (sint elapsed)))"

definition seconds :: "'f float_ops \<Rightarrow> duration \<Rightarrow> string" where
  "seconds fo d = two_decimals fo (f_div fo (of_count fo (sint d)) (of_count fo (sint Second)))"

definition LF_CHAR :: string where "LF_CHAR = [char_of (10 :: nat)]"

text \<open>What is printed about the time between two moments; \<open>None\<close> when no time has passed.\<close>

definition report :: "'f float_ops \<Rightarrow> sample \<Rightarrow> sample \<Rightarrow> string list option" where
  "report fo s0 s1 =
     (let elapsed = sm_time s1 - sm_time s0 in
      if elapsed = 0 then None
      else
        (let user = fst (getRusage (sm_usage s1)) - fst (getRusage (sm_usage s0));
             sys = snd (getRusage (sm_usage s1)) - snd (getRusage (sm_usage s0));
             cpu = user + sys;
             sent = sm_sent s1 - sm_sent s0;
             rcvd = sm_received s1 - sm_received s0;
             packets = LF_CHAR @ ''*** '' @ itoa sent @ '' packets sent ('' @ per fo sent elapsed @ '' per sec, '' @
               per fo sent cpu @ '' per cpu sec), '' @ itoa rcvd @ '' packets received ('' @ per fo rcvd elapsed @
               '' per sec, '' @ per fo rcvd cpu @ '' per cpu sec)'' @ LF_CHAR
         in Some ((if sent > 0 \<or> rcvd > 0 then [packets] else []) @
             [''*** '' @ seconds fo elapsed @ '' seconds elapsed, '' @ seconds fo user @ '' user, '' @
                seconds fo sys @ '' sys'' @ LF_CHAR,
              ''*** '' @ percent fo cpu elapsed @ ''% CPU load, '' @ percent fo user elapsed @ ''% user, '' @
                percent fo sys elapsed @ ''% sys'' @ LF_CHAR])))"

section \<open>The goroutine\<close>

text \<open>
  Where the goroutine is: waiting for the program to be ready, profiling since a moment, returned; or
  the program has ended, with a status.
\<close>

datatype phase =
    Waiting
  | Measuring sample
  | Returned
  | Ended nat

text \<open>
  \<open>pr_signals\<close> is the channel the system puts interrupts into, when there is room: from \<open>Notify\<close> on an
  interrupt does not end the program any more. \<open>dieCh\<close> is whether there is a timer and it has expired.
\<close>

record profiler =
  pr_phase :: phase
  pr_signals :: nat
  dieAfter :: duration
  dieCh :: bool
  cpu_profiling :: bool
  pr_output :: "string list"

definition profile :: "duration \<Rightarrow> profiler" where
  "profile die =
     \<lparr>pr_phase = Waiting, pr_signals = 0, dieAfter = die, dieCh = False, cpu_profiling = False, pr_output = []\<rparr>"

text \<open>\<open>MaybeInitProfiling\<close>, with the two flags of the command line.\<close>

definition MaybeInitProfiling :: "string \<Rightarrow> duration \<Rightarrow> profiler option" where
  "MaybeInitProfiling cpuprofile die = (if cpuprofile \<noteq> [] then Some (profile (die * Second)) else None)"

definition begin_profile :: "bool \<Rightarrow> sample \<Rightarrow> profiler \<Rightarrow> profiler" where
  "begin_profile created s0 p =
     (if created then p\<lparr>pr_phase := Measuring s0, cpu_profiling := True\<rparr> else p\<lparr>pr_phase := Ended 1\<rparr>)"

definition end_profile :: "'f float_ops \<Rightarrow> sample \<Rightarrow> sample \<Rightarrow> profiler \<Rightarrow> profiler" where
  "end_profile fo s0 s1 p =
     (case report fo s0 s1 of
        None \<Rightarrow> p\<lparr>pr_phase := Returned\<rparr>
      | Some ls \<Rightarrow> p\<lparr>pr_output := pr_output p @ ls, cpu_profiling := False, pr_phase := Ended 130\<rparr>)"

definition prof_running :: "profiler \<Rightarrow> bool" where
  "prof_running p \<longleftrightarrow> (\<forall>k. pr_phase p \<noteq> Ended k)"

text \<open>The steps of the goroutine and of what happens around it; the timer runs only with a positive time.\<close>

inductive prof_step :: "'f float_ops \<Rightarrow> profiler \<Rightarrow> profiler \<Rightarrow> bool" for fo :: "'f float_ops" where
  prof_interrupt: "prof_running p \<Longrightarrow> prof_step fo p (p\<lparr>pr_signals := 1\<rparr>)"
| prof_ready: "pr_phase p = Waiting \<Longrightarrow> prof_step fo p (begin_profile created s0 p)"
| prof_die: "pr_phase p = Measuring s0 \<Longrightarrow> 0 <s dieAfter p \<Longrightarrow> prof_step fo p (p\<lparr>dieCh := True\<rparr>)"
| prof_signalled:
    "pr_phase p = Measuring s0 \<Longrightarrow> pr_signals p > 0 \<Longrightarrow> prof_step fo p (end_profile fo s0 s1 (p\<lparr>pr_signals := 0\<rparr>))"
| prof_expired:
    "pr_phase p = Measuring s0 \<Longrightarrow> dieCh p \<Longrightarrow> prof_step fo p (end_profile fo s0 s1 (p\<lparr>dieCh := False\<rparr>))"

inductive_cases prof_stepE: "prof_step fo p q"

section \<open>How it ends\<close>

definition prof_inv :: "profiler \<Rightarrow> bool" where
  "prof_inv p \<longleftrightarrow> pr_signals p \<le> 1 \<and>
     (case pr_phase p of
        Waiting \<Rightarrow> \<not> cpu_profiling p \<and> pr_output p = []
      | Measuring s0 \<Rightarrow> cpu_profiling p \<and> pr_output p = []
      | Returned \<Rightarrow> cpu_profiling p \<and> pr_output p = []
      | Ended k \<Rightarrow> \<not> cpu_profiling p \<and> (k = 130 \<and> length (pr_output p) \<ge> 2 \<or> k = 1 \<and> pr_output p = []))"

lemma report_lines: "report fo s0 s1 = Some ls \<Longrightarrow> length ls \<ge> 2"
  by (auto simp: report_def Let_def split: if_splits)

lemma report_None: "report fo s0 s1 = None \<longleftrightarrow> sm_time s1 = sm_time s0"
  by (auto simp: report_def Let_def)

lemma prof_inv_step: "prof_step fo p q \<Longrightarrow> prof_inv p \<Longrightarrow> prof_inv q"
proof (induction rule: prof_step.induct)
  case (prof_interrupt p)
  then show ?case by (auto simp: prof_inv_def prof_running_def split: phase.splits)
qed (auto simp: prof_inv_def begin_profile_def end_profile_def dest: report_lines split: option.split)

lemma prof_reachable_inv: "(prof_step fo)\<^sup>*\<^sup>* (profile die) p \<Longrightarrow> prof_inv p"
proof (induction rule: rtranclp_induct)
  case base
  show ?case by (simp add: prof_inv_def profile_def)
next
  case (step y z)
  then show ?case by (blast intro: prof_inv_step)
qed

lemma returned_stays: "(prof_step fo)\<^sup>*\<^sup>* p q \<Longrightarrow> pr_phase p = Returned \<Longrightarrow> pr_phase q = Returned"
  by (induction rule: rtranclp_induct) (auto elim!: prof_stepE)

text \<open>
  C39. How a profiled program ends. When it ends with status 130 its report is printed and the profile
  is complete. While it measures, an interrupt, or the expired timer, ends it so, unless the clock reads
  the same as at the start: then the goroutine returns with the profile left open, and from there on no
  interrupt ends the program. Until the program is ready no interrupt does either: the first one is
  kept for later.
\<close>

theorem profile_ends:
  assumes "(prof_step fo)\<^sup>*\<^sup>* (profile die) p"
  shows "(pr_phase p = Ended 130 \<longrightarrow> \<not> cpu_profiling p \<and> length (pr_output p) \<ge> 2) \<and>
    (\<forall>s0 (s1 :: sample). pr_phase p = Measuring s0 \<and> (pr_signals p > 0 \<or> dieCh p) \<longrightarrow>
      (\<exists>q. prof_step fo p q \<and> pr_phase q = (if sm_time s1 = sm_time s0 then Returned else Ended 130))) \<and>
    (pr_phase p = Returned \<longrightarrow> cpu_profiling p \<and> (\<forall>q. (prof_step fo)\<^sup>*\<^sup>* p q \<longrightarrow> pr_phase q = Returned)) \<and>
    (pr_phase p = Waiting \<longrightarrow> (\<forall>q. prof_step fo p q \<longrightarrow> pr_phase q \<noteq> Ended 130))"
proof -
  have inv: "prof_inv p" using assms by (rule prof_reachable_inv)
  have e: "pr_phase (end_profile fo s0 s1 r) = (if sm_time s1 = sm_time s0 then Returned else Ended 130)" for s0 s1 :: sample and r
    using report_None [of fo s0 s1] by (auto simp: end_profile_def split: option.split)
  have "\<exists>q. prof_step fo p q \<and> pr_phase q = (if sm_time s1 = sm_time s0 then Returned else Ended 130)"
    if "pr_phase p = Measuring s0" "pr_signals p > 0 \<or> dieCh p" for s0 and s1 :: sample
    using that(2)
  proof
    assume "pr_signals p > 0"
    with prof_signalled [of p s0 fo s1] that(1) e show ?thesis by blast
  next
    assume "dieCh p"
    with prof_expired [of p s0 fo s1] that(1) e show ?thesis by blast
  qed
  moreover have "\<not> cpu_profiling p \<and> length (pr_output p) \<ge> 2" if "pr_phase p = Ended 130"
    using inv that by (auto simp: prof_inv_def)
  moreover have "cpu_profiling p" if "pr_phase p = Returned" using inv that by (simp add: prof_inv_def)
  moreover have "pr_phase q = Returned" if "pr_phase p = Returned" "(prof_step fo)\<^sup>*\<^sup>* p q" for q
    using returned_stays [OF that(2,1)] .
  moreover have "pr_phase q \<noteq> Ended 130" if "pr_phase p = Waiting" "prof_step fo p q" for q
    using that by (auto elim!: prof_stepE simp: begin_profile_def split: if_splits)
  ultimately show ?thesis by blast
qed

definition demo_sample :: sample where
  "demo_sample = \<lparr>sm_time = 5, sm_usage = None, sm_sent = 0, sm_received = 0\<rparr>"

text \<open>An interrupt that comes before the program is ready ends it only afterwards.\<close>

definition demo_float :: "unit float_ops" where
  "demo_float = \<lparr>of_count = (\<lambda>_. ()), f_mul = (\<lambda>_ _. ()), f_div = (\<lambda>_ _. ()), two_decimals = (\<lambda>_. ''1.00'')\<rparr>"

lemma profile_ends_witness:
  "\<exists>q. prof_step demo_float ((profile 0)\<lparr>pr_signals := 1, pr_phase := Measuring demo_sample, cpu_profiling := True\<rparr>) q \<and>
     pr_phase q = Ended 130"
proof -
  let ?p = "(profile 0)\<lparr>pr_signals := 1\<rparr>" and ?q = "(profile 0)\<lparr>pr_signals := 1, pr_phase := Measuring demo_sample, cpu_profiling := True\<rparr>"
  have "prof_step demo_float (profile 0) ?p" by (rule prof_interrupt) (simp add: prof_running_def profile_def)
  moreover have "prof_step demo_float ?p ?q"
    using prof_ready [of ?p demo_float True demo_sample] by (simp add: begin_profile_def profile_def)
  ultimately have r: "(prof_step demo_float)\<^sup>*\<^sup>* (profile 0) ?q" by (meson converse_rtranclp_into_rtranclp rtranclp.rtrancl_refl)
  have "pr_phase ?q = Measuring demo_sample" "pr_signals ?q > 0" "sm_time (demo_sample\<lparr>sm_time := 6\<rparr>) \<noteq> sm_time demo_sample"
    by (simp_all add: demo_sample_def)
  with profile_ends [OF r] show ?thesis by (metis (no_types, lifting))
qed

end
