(* ===== verification/Visitor.thy ===== *)
theory Visitor
  imports Prelude
begin

text \<open>
  \<open>Visit\<close> of util.go: the method of a visitor is found by the name of a value's type. Of reflection this
  needs the exported methods of the visitor's type, by name, each with what a call of it does to the state,
  and the name of the type a value has or points to. \<open>Call\<close> panics inside \<open>m_call\<close> when the
  values do not fit the method's parameters.
\<close>

type_synonym ('v, 'u) method_table = "string \<rightharpoonup> 'v list \<Rightarrow> 'u \<Rightarrow> 'u res"

definition doVisit :: "('v, 'u) method_table \<Rightarrow> 'v \<Rightarrow> string \<Rightarrow> 'v list \<Rightarrow> 'u \<Rightarrow> ('u \<times> bool) res" where
  "doVisit visitor thing methodName args u =
     (case visitor methodName of
        None \<Rightarrow> Inr (u, False)
      | Some method \<Rightarrow> bind_res (method (thing # args) u) (\<lambda>u. Inr (u, True)))"

text \<open>\<open>type_name\<close> is \<open>None\<close> for a nil value, which has no type to ask for.\<close>

definition Visit ::
  "('v \<Rightarrow> string option) \<Rightarrow> ('v, 'u) method_table \<Rightarrow> 'v \<Rightarrow> string \<Rightarrow> 'v list \<Rightarrow> 'u \<Rightarrow> 'u res" where
  "Visit type_name visitor thing pre args u =
     (case type_name thing of
        None \<Rightarrow> Inl NilDereference
      | Some typeName \<Rightarrow>
          bind_res (doVisit visitor thing (pre @ typeName) args u) (\<lambda>(u, found).
            if found then Inr u
            else bind_res (doVisit visitor thing (pre @ ''Anything'') args u) (\<lambda>(u, _). Inr u)))"

text \<open>The methods a visit calls, in order.\<close>

definition visited :: "('v, 'u) method_table \<Rightarrow> string \<Rightarrow> string \<Rightarrow> ('v list \<Rightarrow> 'u \<Rightarrow> 'u res) option" where
  "visited visitor pre typeName =
     (case visitor (pre @ typeName) of Some m \<Rightarrow> Some m | None \<Rightarrow> visitor (pre @ ''Anything''))"

text \<open>
  A visit calls one method at most: the one for the type, or else the one for anything; without either
  nothing happens. A method for the type hides the general one even when it panics.
\<close>

lemma visit_calls_one:
  assumes "type_name thing = Some typeName"
  shows "Visit type_name visitor thing pre args u =
    (case visited visitor pre typeName of None \<Rightarrow> Inr u | Some m \<Rightarrow> m (thing # args) u)"
proof -
  have "bind_res r (\<lambda>u. Inr u) = r" for r :: "'b res" by (cases r) auto
  with assms show ?thesis
    by (auto simp: Visit_def doVisit_def visited_def bind_res_assoc split: option.split)
qed

text \<open>A visitor with a method for numbers and one for anything, which count their calls.\<close>

lemma visit_calls_one_witness:
  "Visit (\<lambda>_. Some ''Num'') [''VisitNum'' \<mapsto> (\<lambda>_ u. Inr (u + 1)), ''VisitAnything'' \<mapsto> (\<lambda>_ u. Inr (u + 10))]
     () ''Visit'' [] (0 :: nat) = Inr 1"
  by (simp add: visit_calls_one [where type_name = "\<lambda>_. Some ''Num''", OF refl] visited_def)

end
