(* ===== verification/Test_Log.thy ===== *)
theory Test_Log
  imports Prelude
begin

text \<open>
  The test logs and the waiting of testutils/testutils.go: \<open>TestLog\<close> hands complete lines to the
  testing package however the writes cut them, and remembers whether anything was written;
  \<open>WaitFor\<close> looks at a condition until it holds.
\<close>

section \<open>Waiting\<close>

definition WAIT_COUNT :: nat where "WAIT_COUNT = 300"

text \<open>
  The loop of \<open>WaitFor\<close>: \<open>pred\<close> looks at the state, which it may change, and while the loop sleeps
  other goroutines change it (\<open>sleep\<close>, given the number of the round). \<open>None\<close> where the test fails.
\<close>

fun wait_rounds :: "('s \<Rightarrow> bool \<times> 's) \<Rightarrow> (nat \<Rightarrow> 's \<Rightarrow> 's) \<Rightarrow> nat \<Rightarrow> nat \<Rightarrow> 's \<Rightarrow> 's option" where
  "wait_rounds pred sleep k 0 s = None"
| "wait_rounds pred sleep k (Suc n) s =
     (case pred s of (r, s') \<Rightarrow> if r then Some s' else wait_rounds pred sleep (k + 1) n (sleep k s'))"

definition WaitFor :: "('s \<Rightarrow> bool \<times> 's) \<Rightarrow> (nat \<Rightarrow> 's \<Rightarrow> 's) \<Rightarrow> 's \<Rightarrow> 's option" where
  "WaitFor pred sleep s = wait_rounds pred sleep 0 WAIT_COUNT s"

section \<open>Test logs\<close>

definition LF :: char where "LF = char_of (10 :: nat)"

text \<open>\<open>tl_logged\<close> is what \<open>t.Log\<close> was given; \<open>acc\<close> the bytes of the line that is not complete.\<close>

record TestLog =
  acc :: string
  pristine :: bool
  tl_logged :: "string list"

definition NewTestLog :: TestLog where
  "NewTestLog = \<lparr>acc = [], pristine = True, tl_logged = []\<rparr>"

text \<open>The scan of \<open>Write\<close>: the bytes since the last line feed, and those still to be looked at.\<close>

fun scan_lines :: "string \<Rightarrow> string \<Rightarrow> string list \<times> string" where
  "scan_lines line [] = ([], line)"
| "scan_lines line (c # cs) =
     (if c = LF then (case scan_lines [] cs of (lines, rest) \<Rightarrow> (line # lines, rest))
      else scan_lines (line @ [c]) cs)"

definition Write :: "string \<Rightarrow> TestLog \<Rightarrow> TestLog \<times> nat" where
  "Write p tlog =
     (case scan_lines [] (acc tlog @ p) of
        (lines, rest) \<Rightarrow> (tlog\<lparr>acc := rest, pristine := False, tl_logged := tl_logged tlog @ lines\<rparr>, length p))"

text \<open>\<open>None\<close> where \<open>t.Fatal\<close> ends the test.\<close>

definition VerifyPristine :: "TestLog \<Rightarrow> TestLog option" where
  "VerifyPristine tlog = (if pristine tlog then Some tlog else None)"

definition VerifyUsed :: "TestLog \<Rightarrow> TestLog option" where
  "VerifyUsed tlog = (if pristine tlog then None else Some (tlog\<lparr>pristine := True\<rparr>))"

definition WaitForMessages :: "(nat \<Rightarrow> TestLog \<Rightarrow> TestLog) \<Rightarrow> TestLog \<Rightarrow> TestLog option" where
  "WaitForMessages = WaitFor (\<lambda>tlog. (\<not> pristine tlog, tlog\<lparr>pristine := True\<rparr>))"

section \<open>Lines\<close>

lemma scan_lines_split:
  "LF \<notin> set line \<Longrightarrow> scan_lines line s = (butlast (split_on LF (line @ s)), last (split_on LF (line @ s)))"
proof (induction line s rule: scan_lines.induct)
  case (1 line)
  then show ?case by (simp add: split_on_no_sep)
next
  case (2 line c cs)
  show ?case
  proof (cases "c = LF")
    case True
    with 2 show ?thesis by (simp add: split_on_append)
  next
    case False
    then have "LF \<notin> set (line @ [c])" using 2(3) by auto
    with 2(2) [OF False] False show ?thesis by simp
  qed
qed

lemma split_on_last: "split_on c (s @ t) = butlast (split_on c s) @ split_on c (last (split_on c s) @ t)"
proof (induction s)
  case (Cons x s)
  show ?case
  proof (cases "x = c")
    case True
    with Cons show ?thesis by simp
  next
    case False
    obtain p ps where p: "split_on c s = p # ps" by (cases "split_on c s") auto
    show ?thesis
    proof (cases ps)
      case Nil
      with p Cons False show ?thesis by simp
    next
      case (Cons q qs)
      with p Cons.IH False show ?thesis by simp
    qed
  qed
qed simp

definition written :: "string list \<Rightarrow> TestLog" where
  "written ps = fold (\<lambda>p tlog. fst (Write p tlog)) ps NewTestLog"

lemma written_snoc: "written (ps @ [p]) = fst (Write p (written ps))"
  by (simp add: written_def)

lemma written_lines:
  "tl_logged (written ps) = butlast (split_on LF (concat ps)) \<and> acc (written ps) = last (split_on LF (concat ps))"
proof (induction ps rule: rev_induct)
  case Nil
  show ?case by (simp add: written_def NewTestLog_def)
next
  case (snoc p ps)
  let ?s = "concat ps" and ?l = "last (split_on LF (concat ps))"
  have "scan_lines [] (?l @ p) = (butlast (split_on LF (?l @ p)), last (split_on LF (?l @ p)))"
    by (simp add: scan_lines_split)
  with snoc show ?case
    by (simp add: written_snoc Write_def split_on_last [of LF ?s p] butlast_append)
qed

text \<open>When a wait for messages ends: \<open>w k\<close> are the writes while it sleeps in round \<open>k\<close>.\<close>

definition writes :: "string list \<Rightarrow> TestLog \<Rightarrow> TestLog" where
  "writes ps tlog = fold (\<lambda>p tlog. fst (Write p tlog)) ps tlog"

lemma pristine_writes: "pristine (writes ps tlog) \<longleftrightarrow> pristine tlog \<and> ps = []"
  by (cases ps rule: rev_cases) (simp_all add: writes_def Write_def case_prod_beta)

lemma wait_for_writes:
  "wait_rounds (\<lambda>tlog. (\<not> pristine tlog, tlog\<lparr>pristine := True\<rparr>)) (\<lambda>k. writes (w k)) k (Suc n) tlog \<noteq> None \<longleftrightarrow>
     \<not> pristine tlog \<or> (\<exists>i<n. w (k + i) \<noteq> [])"
proof (induction n arbitrary: k tlog)
  case (Suc n)
  have "(\<exists>i<Suc n. w (k + i) \<noteq> []) \<longleftrightarrow> w k \<noteq> [] \<or> (\<exists>i<n. w (Suc k + i) \<noteq> [])"
    by (metis Suc_less_eq add.right_neutral add_Suc_shift not0_implies_Suc zero_less_Suc)
  with Suc [of "k + 1" "writes (w k) (tlog\<lparr>pristine := True\<rparr>)"] show ?case
    by (simp add: pristine_writes)
qed simp

lemma wait_for_messages:
  "WaitForMessages (\<lambda>k. writes (w k)) tlog \<noteq> None \<longleftrightarrow> \<not> pristine tlog \<or> (\<exists>k<299. w k \<noteq> [])"
  using wait_for_writes [of w 0 299 tlog] by (simp add: WaitForMessages_def WaitFor_def WAIT_COUNT_def)

text \<open>
  However the writes cut the text, the testing package gets exactly its complete lines, in order
  and without the line feeds, and the log keeps the part after the last one; every write reports all
  its bytes as written and takes the mark of an unused log, which a check of the log puts back.
\<close>

theorem test_log_keeps_lines:
  "tl_logged (written ps) = butlast (split_on LF (concat ps)) \<and>
   acc (written ps) = last (split_on LF (concat ps)) \<and>
   pristine (written ps) = (ps = []) \<and> snd (Write p tlog) = length p \<and>
   VerifyUsed (fst (Write p tlog)) = Some ((fst (Write p tlog))\<lparr>pristine := True\<rparr>) \<and>
   VerifyPristine (fst (Write p tlog)) = None \<and>
   (WaitForMessages (\<lambda>k. writes (w k)) tlog \<noteq> None) = (\<not> pristine tlog \<or> (\<exists>k<299. w k \<noteq> []))"
proof -
  have "pristine (written ps) = (ps = [])"
    by (cases ps rule: rev_cases) (simp_all add: written_def NewTestLog_def Write_def case_prod_beta)
  with written_lines [of ps] wait_for_messages [of w tlog] show ?thesis
    by (simp add: Write_def VerifyUsed_def VerifyPristine_def case_prod_beta)
qed

end
