(* ===== verification/Logging.thy ===== *)
theory Logging
  imports Prelude
begin

text \<open>
  log.go: the four loggers, and the debug logger that follows a flag. The flag is stored without a
  lock and the logger is updated under one, so calls from several goroutines interleave between the
  two. Whether the connection to the system's log can be made is an argument.
\<close>

section \<open>Loggers\<close>

text \<open>Where a logger writes to; \<open>Custom\<close> is one that a caller made.\<close>

datatype logger =
    Discard
  | Stderr string
  | Stdout string
  | Syslog string string
  | Custom nat

record logs =
  Error_log :: logger
  Warn_log :: logger
  Info_log :: logger
  Debug_log :: logger
  debuggingEnabled :: int
  useSyslog :: bool
  keepDebug :: bool

definition init_logs :: logs where
  "init_logs =
     \<lparr>Error_log = Stderr ''ERROR: '', Warn_log = Stderr ''WARNING: '', Info_log = Stderr ''INFO: '',
      Debug_log = Discard, debuggingEnabled = 0, useSyslog = False, keepDebug = False\<rparr>"

definition makeSyslogger :: "bool \<Rightarrow> string \<Rightarrow> string \<Rightarrow> logger res" where
  "makeSyslogger ok priority prefix =
     (if ok then Inr (Syslog priority prefix) else Inl (ExplicitPanic ''syslog init failed''))"

definition DebuggingEnabled :: "logs \<Rightarrow> bool" where
  "DebuggingEnabled s \<longleftrightarrow> debuggingEnabled s \<noteq> 0"

definition SetDebugLogger :: "logger \<Rightarrow> bool \<Rightarrow> logs \<Rightarrow> logs" where
  "SetDebugLogger l keep s = s\<lparr>Debug_log := l, keepDebug := keep\<rparr>"

definition updateDebugLogger :: "bool \<Rightarrow> logs \<Rightarrow> logs res" where
  "updateDebugLogger ok s =
     (if keepDebug s then Inr s
      else if \<not> DebuggingEnabled s then Inr (s\<lparr>Debug_log := Discard\<rparr>)
      else if useSyslog s then
        bind_res (makeSyslogger ok ''debug'' ''DEBUG: '') (\<lambda>l. Inr (s\<lparr>Debug_log := l\<rparr>))
      else Inr (s\<lparr>Debug_log := Stderr ''DEBUG: ''\<rparr>))"

text \<open>The first part of \<open>SetDebuggingEnabled\<close>, and the whole of it.\<close>

definition storeFlag :: "bool \<Rightarrow> logs \<Rightarrow> logs" where
  "storeFlag enable s = s\<lparr>debuggingEnabled := (if enable then 1 else 0)\<rparr>"

definition SetDebuggingEnabled :: "bool \<Rightarrow> bool \<Rightarrow> logs \<Rightarrow> logs res" where
  "SetDebuggingEnabled ok enable s = updateDebugLogger ok (storeFlag enable s)"

text \<open>\<open>UseSyslog\<close> up to its update, and the whole of it.\<close>

definition syslogLoggers :: "bool \<Rightarrow> logs \<Rightarrow> logs res" where
  "syslogLoggers ok s =
     (let s = s\<lparr>useSyslog := True\<rparr> in
      bind_res (makeSyslogger ok ''err'' ''ERROR: '') (\<lambda>e.
      bind_res (makeSyslogger ok ''warning'' ''WARNING: '') (\<lambda>w.
      bind_res (makeSyslogger ok ''info'' ''INFO: '') (\<lambda>i.
        Inr (s\<lparr>Error_log := e, Warn_log := w, Info_log := i\<rparr>)))))"

definition UseSyslog :: "bool \<Rightarrow> logs \<Rightarrow> logs res" where
  "UseSyslog ok s = bind_res (syslogLoggers ok s) (updateDebugLogger ok)"

text \<open>\<open>EnableMQTTDebugLog\<close> of mqtt.go: the loggers of the third-party client.\<close>

record mqtt_logs =
  MQTT_ERROR :: logger
  MQTT_CRITICAL :: logger
  MQTT_WARN :: logger
  MQTT_DEBUG :: logger

definition EnableMQTTDebugLog :: "bool \<Rightarrow> bool \<Rightarrow> mqtt_logs \<Rightarrow> mqtt_logs res" where
  "EnableMQTTDebugLog ok use_syslog s =
     (if use_syslog then
        bind_res (makeSyslogger ok ''err'' ''[MQTT] ERROR: '') (\<lambda>e.
        bind_res (makeSyslogger ok ''crit'' ''[MQTT] CRITICAL: '') (\<lambda>c.
        bind_res (makeSyslogger ok ''warning'' ''[MQTT] WARNING: '') (\<lambda>w.
        bind_res (makeSyslogger ok ''debug'' ''[MQTT] DEBUG: '') (\<lambda>d.
          Inr (s\<lparr>MQTT_ERROR := e, MQTT_CRITICAL := c, MQTT_WARN := w, MQTT_DEBUG := d\<rparr>)))))
      else Inr (s\<lparr>MQTT_ERROR := Stdout [], MQTT_CRITICAL := Stdout [], MQTT_WARN := Stdout [], MQTT_DEBUG := Stdout []\<rparr>))"

section \<open>Calls from several goroutines\<close>

text \<open>
  The loggers together with the number of calls that have yet to run their update, and the logger that
  the last \<open>SetDebugLogger\<close> put there, until an update that is not told to keep it has run.
\<close>

inductive log_step :: "logs \<times> nat \<times> logger option \<Rightarrow> logs \<times> nat \<times> logger option \<Rightarrow> bool" where
  log_store: "log_step (s, n, c) (storeFlag b s, n + 1, c)"
| log_syslog: "syslogLoggers ok s = Inr s' \<Longrightarrow> log_step (s, n, c) (s', n + 1, c)"
| log_update: "updateDebugLogger ok s = Inr s' \<Longrightarrow> log_step (s, n + 1, c) (s', n, if keepDebug s then c else None)"
| log_set: "log_step (s, n, c) (SetDebugLogger l keep s, n, Some l)"

inductive_simps log_step_simps: "log_step (s, n, c) (s', n', c')"

text \<open>The logger the flag asks for.\<close>

definition wanted_logger :: "logs \<Rightarrow> logger" where
  "wanted_logger s =
     (if debuggingEnabled s = 0 then Discard
      else if useSyslog s then Syslog ''debug'' ''DEBUG: '' else Stderr ''DEBUG: '')"

lemma update_wanted: "updateDebugLogger ok s = Inr s' \<Longrightarrow>
    s' = (if keepDebug s then s else s\<lparr>Debug_log := wanted_logger s\<rparr>)"
  by (auto simp: updateDebugLogger_def wanted_logger_def DebuggingEnabled_def makeSyslogger_def split: if_splits)

lemma syslogLoggers_fields:
  "syslogLoggers ok s = Inr s' \<Longrightarrow> Debug_log s' = Debug_log s \<and> keepDebug s' = keepDebug s"
  by (auto simp: syslogLoggers_def Let_def)

definition log_inv :: "logs \<times> nat \<times> logger option \<Rightarrow> bool" where
  "log_inv = (\<lambda>(s, n, c). (keepDebug s \<longrightarrow> c \<noteq> None) \<and>
     (case c of Some l \<Rightarrow> Debug_log s = l | None \<Rightarrow> n > 0 \<or> Debug_log s = wanted_logger s))"

lemma log_inv_step: "log_step x y \<Longrightarrow> log_inv x \<Longrightarrow> log_inv y"
proof (induction rule: log_step.induct)
  case (log_syslog ok s s' n c)
  then show ?case using syslogLoggers_fields [OF log_syslog(1)] by (auto simp: log_inv_def split: option.splits)
next
  case (log_update ok s s' n c)
  then show ?case
    using update_wanted [OF log_update(1)] by (auto simp: log_inv_def wanted_logger_def)
qed (auto simp: log_inv_def storeFlag_def SetDebugLogger_def split: option.splits)

text \<open>
  C40. Where debug messages go. However calls of \<open>SetDebuggingEnabled\<close>, \<open>UseSyslog\<close> and \<open>SetDebugLogger\<close>
  from different goroutines interleave: after a \<open>SetDebugLogger\<close>, and until an update that is not told
  to keep its logger has run, they go to the logger it was given, whatever the flag says; otherwise,
  when no call is between its two parts, they go where the flag and the use of the system's log ask
  for. A \<open>SetDebuggingEnabled\<close> that runs alone sets the flag, and the logger to match unless it is to be
  kept.
\<close>

theorem debug_logger_follows_flag:
  assumes "log_step\<^sup>*\<^sup>* (init_logs, 0, None) (s, n, custom)"
  shows "(case custom of Some l \<Rightarrow> Debug_log s = l | None \<Rightarrow> n = 0 \<longrightarrow> Debug_log s = wanted_logger s) \<and>
    (keepDebug s \<longrightarrow> custom \<noteq> None) \<and>
    (SetDebuggingEnabled ok b s = Inr s' \<longrightarrow>
      (DebuggingEnabled s' = b) \<and> Debug_log s' = (if keepDebug s then Debug_log s else wanted_logger s'))"
proof -
  have "log_inv (s, n, custom)"
    using assms
    by (induction rule: rtranclp_induct) (auto simp: log_inv_step, simp add: log_inv_def init_logs_def wanted_logger_def)
  moreover have "(DebuggingEnabled s' = b) \<and> Debug_log s' = (if keepDebug s then Debug_log s else wanted_logger s')"
    if "SetDebuggingEnabled ok b s = Inr s'"
    using update_wanted [OF that [unfolded SetDebuggingEnabled_def]]
    by (auto simp: storeFlag_def DebuggingEnabled_def wanted_logger_def)
  ultimately show ?thesis by (auto simp: log_inv_def split: option.splits)
qed

text \<open>Two calls that overlap: the flag is stored twice before the first update runs.\<close>

lemma debug_logger_follows_flag_witness:
  "\<exists>s. log_step\<^sup>*\<^sup>* (init_logs, 0, None) (s, 0, None) \<and> debuggingEnabled s = 1 \<and> Debug_log s = Stderr ''DEBUG: ''"
proof -
  let ?s1 = "storeFlag False init_logs" and ?s2 = "storeFlag True (storeFlag False init_logs)"
  have u: "updateDebugLogger True s = Inr (s\<lparr>Debug_log := Stderr ''DEBUG: ''\<rparr>)"
    if "debuggingEnabled s = 1" "\<not> useSyslog s" "\<not> keepDebug s" for s :: logs
    using that by (simp add: updateDebugLogger_def DebuggingEnabled_def)
  let ?s3 = "?s2\<lparr>Debug_log := Stderr ''DEBUG: ''\<rparr>"
  have "log_step (init_logs, 0, None) (?s1, 1, None)" "log_step (?s1, 1, None) (?s2, 2, None)"
    using log_store [of init_logs 0 None False] log_store [of ?s1 1 None True] by (simp_all add: numeral_2_eq_2)
  moreover have "log_step (?s2, 2, None) (?s3, 1, None)" "log_step (?s3, 1, None) (?s3, 0, None)"
    using log_update [of True ?s2 ?s3 1 None] log_update [of True ?s3 ?s3 0 None]
    by (simp_all add: u storeFlag_def init_logs_def numeral_2_eq_2)
  ultimately have r: "log_step\<^sup>*\<^sup>* (init_logs, 0, None) (?s3, 0, None)"
    by (meson converse_rtranclp_into_rtranclp rtranclp.rtrancl_refl)
  from debug_logger_follows_flag [OF r] have "Debug_log ?s3 = wanted_logger ?s3" by simp
  with r show ?thesis by (intro exI [of _ ?s3]) (simp add: storeFlag_def)
qed

end
