(* ===== verification/Test_Suite.thy ===== *)
theory Test_Suite
  imports Test_Log Logging
begin

text \<open>
  The loggers of the program under the test logs of testutils/testutils.go: \<open>SetupTestLogging\<close> and the
  checks of a suite. A test log is a place in a list; a logger that a caller made (\<open>Custom\<close>) is the
  place of the log it writes to, kept there with its prefix. A check that fails ends the test.
\<close>

section \<open>Loggers that write to test logs\<close>

record suite_world =
  loggers :: logs
  test_logs :: "(string \<times> TestLog) list"
  errorTestLog :: nat
  warnTestLog :: nat

text \<open>
  \<open>Printf\<close> of a logger made with \<open>log.Lshortfile\<close>: the prefix, the place in the source, the message,
  and a line feed unless it ends in one, in one write. Other loggers write elsewhere.
\<close>

definition log_text :: "string \<Rightarrow> string \<Rightarrow> string \<Rightarrow> string" where
  "log_text prefix place msg =
     (let s = prefix @ place @ '': '' @ msg in if msg = [] \<or> last msg \<noteq> LF then s @ [LF] else s)"

definition update_log :: "nat \<Rightarrow> (TestLog \<Rightarrow> TestLog) \<Rightarrow> suite_world \<Rightarrow> suite_world" where
  "update_log k f w = w\<lparr>test_logs := (test_logs w)[k := apsnd f (test_logs w ! k)]\<rparr>"

definition print_to :: "logger \<Rightarrow> string \<Rightarrow> string \<Rightarrow> suite_world \<Rightarrow> suite_world" where
  "print_to l place msg w =
     (case l of
        Custom k \<Rightarrow> update_log k (\<lambda>t. fst (Write (log_text (fst (test_logs w ! k)) place msg) t)) w
      | _ \<Rightarrow> w)"

datatype level = ErrorLevel | WarnLevel | InfoLevel | DebugLevel

fun logger_of :: "level \<Rightarrow> logs \<Rightarrow> logger" where
  "logger_of ErrorLevel = Error_log"
| "logger_of WarnLevel = Warn_log"
| "logger_of InfoLevel = Info_log"
| "logger_of DebugLevel = Debug_log"

definition log_message :: "level \<Rightarrow> string \<Rightarrow> string \<Rightarrow> suite_world \<Rightarrow> suite_world" where
  "log_message l place msg w = print_to (logger_of l (loggers w)) place msg w"

section \<open>The set-up and the checks\<close>

definition new_log :: "string \<Rightarrow> suite_world \<Rightarrow> suite_world \<times> nat" where
  "new_log prefix w = (w\<lparr>test_logs := test_logs w @ [(prefix, NewTestLog)]\<rparr>, length (test_logs w))"

definition SetupTestLogging :: "suite_world \<Rightarrow> suite_world" where
  "SetupTestLogging w =
     (let (w, e) = new_log ''ERROR: '' w;
          w = w\<lparr>errorTestLog := e, loggers := (loggers w)\<lparr>Error_log := Custom e\<rparr>\<rparr>;
          (w, k) = new_log ''WARNING: '' w;
          w = w\<lparr>warnTestLog := k, loggers := (loggers w)\<lparr>Warn_log := Custom k\<rparr>\<rparr>;
          (w, i) = new_log ''INFO: '' w;
          w = w\<lparr>loggers := (loggers w)\<lparr>Info_log := Custom i\<rparr>\<rparr>;
          (w, d) = new_log ''DEBUG: '' w
      in w\<lparr>loggers := SetDebugLogger (Custom d) True (loggers w)\<rparr>)"

definition test_log :: "suite_world \<Rightarrow> nat \<Rightarrow> TestLog" where
  "test_log w k = snd (test_logs w ! k)"

definition checked :: "nat \<Rightarrow> (TestLog \<Rightarrow> TestLog option) \<Rightarrow> suite_world \<Rightarrow> suite_world option" where
  "checked k f w = map_option (\<lambda>t. update_log k (\<lambda>_. t) w) (f (test_log w k))"

definition EnsureNoErrorsOrWarnings :: "suite_world \<Rightarrow> suite_world option" where
  "EnsureNoErrorsOrWarnings w =
     Option.bind (checked (errorTestLog w) VerifyPristine w) (\<lambda>w. checked (warnTestLog w) VerifyPristine w)"

definition EnsureGotErrors :: "suite_world \<Rightarrow> suite_world option" where
  "EnsureGotErrors w = checked (errorTestLog w) VerifyUsed w"

definition EnsureGotWarnings :: "suite_world \<Rightarrow> suite_world option" where
  "EnsureGotWarnings w = checked (warnTestLog w) VerifyUsed w"

text \<open>Waiting for messages, with what other goroutines do while it sleeps.\<close>

definition wait_for_log :: "nat \<Rightarrow> (nat \<Rightarrow> suite_world \<Rightarrow> suite_world) \<Rightarrow> suite_world \<Rightarrow> suite_world option" where
  "wait_for_log k sleep =
     WaitFor (\<lambda>w. (\<not> pristine (test_log w k), update_log k (pristine_update (\<lambda>_. True)) w)) sleep"

definition WaitForErrors :: "(nat \<Rightarrow> suite_world \<Rightarrow> suite_world) \<Rightarrow> suite_world \<Rightarrow> suite_world option" where
  "WaitForErrors sleep w = wait_for_log (errorTestLog w) sleep w"

definition WaitForWarnings :: "(nat \<Rightarrow> suite_world \<Rightarrow> suite_world) \<Rightarrow> suite_world \<Rightarrow> suite_world option" where
  "WaitForWarnings sleep w = wait_for_log (warnTestLog w) sleep w"

definition SetupTest :: "suite_world \<Rightarrow> suite_world" where
  "SetupTest = SetupTestLogging"

definition TearDownTest :: "suite_world \<Rightarrow> suite_world option" where
  "TearDownTest = EnsureNoErrorsOrWarnings"

definition Ck :: "string option \<Rightarrow> suite_world \<Rightarrow> suite_world option" where
  "Ck err w = (if err \<noteq> None then None else Some w)"

section \<open>A test case\<close>

text \<open>
  What a test does: messages are logged, checks and waits are called, the debugging flag is set. The
  messages that other goroutines log while a wait sleeps are given round by round.
\<close>

type_synonym message = "level \<times> string \<times> string"

datatype event =
    Logged message
  | DebugFlag bool
  | GotErrors
  | GotWarnings
  | AwaitErrors "nat \<Rightarrow> message list"
  | AwaitWarnings "nat \<Rightarrow> message list"
  | Checked "string option"

definition log_one :: "message \<Rightarrow> suite_world \<Rightarrow> suite_world" where
  "log_one m w = (case m of (l, place, msg) \<Rightarrow> log_message l place msg w)"

fun run_event :: "event \<Rightarrow> suite_world \<Rightarrow> suite_world option" where
  "run_event (Logged m) w = Some (log_one m w)"
| "run_event (DebugFlag b) w =
     (case SetDebuggingEnabled True b (loggers w) of Inl e \<Rightarrow> None | Inr l \<Rightarrow> Some (w\<lparr>loggers := l\<rparr>))"
| "run_event GotErrors w = EnsureGotErrors w"
| "run_event GotWarnings w = EnsureGotWarnings w"
| "run_event (AwaitErrors ms) w = WaitForErrors (\<lambda>k. fold log_one (ms k)) w"
| "run_event (AwaitWarnings ms) w = WaitForWarnings (\<lambda>k. fold log_one (ms k)) w"
| "run_event (Checked err) w = Ck err w"

fun run_events :: "event list \<Rightarrow> suite_world \<Rightarrow> suite_world option" where
  "run_events [] w = Some w"
| "run_events (e # es) w = Option.bind (run_event e w) (run_events es)"

definition run_case :: "event list \<Rightarrow> suite_world \<Rightarrow> suite_world option" where
  "run_case es w = Option.bind (run_events es (SetupTest w)) TearDownTest"

section \<open>What a test case promises\<close>

text \<open>
  Whether there are errors, and warnings, that no check has asked for: a message sets its mark, a check
  that asks for it takes it back and fails without it, and a wait looks 300 times.
\<close>

type_synonym marks = "bool \<times> bool"

fun mark :: "message \<Rightarrow> marks \<Rightarrow> marks" where
  "mark (ErrorLevel, _) (e, w) = (True, w)"
| "mark (WarnLevel, _) (e, w) = (e, True)"
| "mark _ p = p"

fun spec_event :: "event \<Rightarrow> marks \<Rightarrow> marks option" where
  "spec_event (Logged m) p = Some (mark m p)"
| "spec_event (DebugFlag b) p = Some p"
| "spec_event GotErrors (e, w) = (if e then Some (False, w) else None)"
| "spec_event GotWarnings (e, w) = (if w then Some (e, False) else None)"
| "spec_event (AwaitErrors ms) p = WaitFor (\<lambda>(e, w). (e, (False, w))) (\<lambda>k. fold mark (ms k)) p"
| "spec_event (AwaitWarnings ms) p = WaitFor (\<lambda>(e, w). (w, (e, False))) (\<lambda>k. fold mark (ms k)) p"
| "spec_event (Checked err) p = (if err = None then Some p else None)"

fun spec_events :: "event list \<Rightarrow> marks \<Rightarrow> marks option" where
  "spec_events [] p = Some p"
| "spec_events (e # es) p = Option.bind (spec_event e p) (spec_events es)"

section \<open>The refinement\<close>

definition marks_of :: "suite_world \<Rightarrow> marks" where
  "marks_of w = (\<not> pristine (test_log w (errorTestLog w)), \<not> pristine (test_log w (warnTestLog w)))"

text \<open>The loggers write to four logs of their own, and the debug logger is kept.\<close>

definition suite_ok :: "suite_world \<Rightarrow> bool" where
  "suite_ok w \<longleftrightarrow>
     (let e = errorTestLog w; k = warnTestLog w; l = loggers w; n = length (test_logs w) in
      e < n \<and> k < n \<and> e \<noteq> k \<and> Error_log l = Custom e \<and> Warn_log l = Custom k \<and> keepDebug l \<and>
      (\<exists>i d. Info_log l = Custom i \<and> Debug_log l = Custom d \<and> i \<notin> {e, k} \<and> d \<notin> {e, k}))"

lemma update_log_fields [simp]:
  "loggers (update_log k f w) = loggers w" "errorTestLog (update_log k f w) = errorTestLog w"
  "warnTestLog (update_log k f w) = warnTestLog w" "length (test_logs (update_log k f w)) = length (test_logs w)"
  by (simp_all add: update_log_def)

lemma test_log_update [simp]:
  "test_log (update_log k f w) j = (if j = k \<and> k < length (test_logs w) then f (test_log w j) else test_log w j)"
  by (auto simp: test_log_def update_log_def nth_list_update list_update_beyond)

lemma suite_ok_update [simp]: "suite_ok (update_log k f w) = suite_ok w"
  by (simp add: suite_ok_def)

lemma setup_ok: "suite_ok (SetupTest w)" "marks_of (SetupTest w) = (False, False)"
  by (simp_all add: SetupTest_def SetupTestLogging_def new_log_def Let_def suite_ok_def SetDebugLogger_def
      marks_of_def test_log_def NewTestLog_def nth_append)

lemma log_one_ok:
  assumes "suite_ok w"
  shows "suite_ok (log_one m w)" "marks_of (log_one m w) = mark m (marks_of w)"
    "errorTestLog (log_one m w) = errorTestLog w" "warnTestLog (log_one m w) = warnTestLog w"
proof -
  obtain l place msg where m: "m = (l, place, msg)" by (cases m)
  have p: "\<not> pristine (fst (Write s t))" for s t by (simp add: Write_def case_prod_beta)
  from assms show "suite_ok (log_one m w)" "marks_of (log_one m w) = mark m (marks_of w)"
    "errorTestLog (log_one m w) = errorTestLog w" "warnTestLog (log_one m w) = warnTestLog w"
    unfolding m by (cases l; auto simp: suite_ok_def Let_def log_one_def log_message_def print_to_def marks_of_def p)+
qed

lemma log_all_ok:
  assumes "suite_ok w"
  shows "suite_ok (fold log_one ms w) \<and> marks_of (fold log_one ms w) = fold mark ms (marks_of w) \<and>
    errorTestLog (fold log_one ms w) = errorTestLog w \<and> warnTestLog (fold log_one ms w) = warnTestLog w"
  using assms by (induction ms arbitrary: w) (simp_all add: log_one_ok)

text \<open>A wait on the detailed state is the wait on the abstract one.\<close>

lemma wait_rounds_refine:
  assumes "ok s"
    and "\<And>s. ok s \<Longrightarrow> ok (snd (pred s)) \<and> pred' (absf s) = (fst (pred s), absf (snd (pred s)))"
    and "\<And>k s. ok s \<Longrightarrow> ok (sleep k s) \<and> sleep' k (absf s) = absf (sleep k s)"
  shows "map_option absf (wait_rounds pred sleep k n s) = wait_rounds pred' sleep' k n (absf s) \<and>
    (\<forall>s'. wait_rounds pred sleep k n s = Some s' \<longrightarrow> ok s')"
  using assms(1)
proof (induction n arbitrary: k s)
  case (Suc n)
  obtain r t where p: "pred s = (r, t)" by (cases "pred s")
  with assms(2) [OF Suc.prems] have t: "ok t" "pred' (absf s) = (r, absf t)" by auto
  with assms(3) [OF t(1), of k] Suc.IH [of "sleep k t" "k + 1"] p show ?case by auto
qed simp

lemma wait_refines:
  assumes "suite_ok w" "k = errorTestLog w \<and> pick = (\<lambda>(e, w). (e, (False, w))) \<or>
    k = warnTestLog w \<and> pick = (\<lambda>(e, w). (w, (e, False)))"
  shows "map_option marks_of (wait_for_log k (\<lambda>r. fold log_one (ms r)) w) =
      WaitFor pick (\<lambda>r. fold mark (ms r)) (marks_of w) \<and>
    (\<forall>w'. wait_for_log k (\<lambda>r. fold log_one (ms r)) w = Some w' \<longrightarrow> suite_ok w')"
proof -
  let ?e = "errorTestLog w" and ?k = "warnTestLog w"
  let ?I = "\<lambda>v. suite_ok v \<and> errorTestLog v = ?e \<and> warnTestLog v = ?k"
  let ?look = "\<lambda>v. (\<not> pristine (test_log v k), update_log k (pristine_update (\<lambda>_. True)) v)"
  have "?I (snd (?look v)) \<and> pick (marks_of v) = (fst (?look v), marks_of (snd (?look v)))" if "?I v" for v
    using that assms(2) by (auto simp: marks_of_def suite_ok_def Let_def)
  moreover have "?I (fold log_one (ms r) v) \<and> fold mark (ms r) (marks_of v) = marks_of (fold log_one (ms r) v)"
    if "?I v" for r v
    using log_all_ok [of v "ms r"] that by simp
  ultimately show ?thesis
    unfolding wait_for_log_def WaitFor_def
    using wait_rounds_refine [where ok = ?I and s = w and pred = ?look and pred' = pick and absf = marks_of
        and sleep = "\<lambda>r. fold log_one (ms r)" and sleep' = "\<lambda>r. fold mark (ms r)" and k = 0 and n = WAIT_COUNT]
      assms(1) by blast
qed

lemma kept_debug: "keepDebug l \<Longrightarrow> SetDebuggingEnabled True b l = Inr (storeFlag b l)"
  by (simp add: SetDebuggingEnabled_def updateDebugLogger_def storeFlag_def)

lemma event_refines:
  assumes "suite_ok w"
  shows "map_option marks_of (run_event v w) = spec_event v (marks_of w) \<and>
    (\<forall>w'. run_event v w = Some w' \<longrightarrow> suite_ok w')"
proof (cases v)
  case (Logged m)
  with log_one_ok [OF assms] show ?thesis by simp
next
  case (DebugFlag b)
  have "keepDebug (loggers w)" using assms by (simp add: suite_ok_def Let_def)
  with DebugFlag assms show ?thesis
    by (simp add: kept_debug suite_ok_def Let_def storeFlag_def marks_of_def test_log_def)
next
  case GotErrors
  with assms show ?thesis
    by (auto simp: EnsureGotErrors_def checked_def VerifyUsed_def marks_of_def suite_ok_def Let_def)
next
  case GotWarnings
  with assms show ?thesis
    by (auto simp: EnsureGotWarnings_def checked_def VerifyUsed_def marks_of_def suite_ok_def Let_def)
next
  case (AwaitErrors ms)
  with wait_refines [OF assms, of "errorTestLog w" "\<lambda>(e, w). (e, (False, w))" ms] show ?thesis
    by (simp add: WaitForErrors_def)
next
  case (AwaitWarnings ms)
  with wait_refines [OF assms, of "warnTestLog w" "\<lambda>(e, w). (w, (e, False))" ms] show ?thesis
    by (simp add: WaitForWarnings_def)
next
  case (Checked err)
  with assms show ?thesis by (simp add: Ck_def)
qed

lemma events_refine:
  "suite_ok w \<Longrightarrow> map_option marks_of (run_events es w) = spec_events es (marks_of w) \<and>
    (\<forall>w'. run_events es w = Some w' \<longrightarrow> suite_ok w')"
proof (induction es arbitrary: w)
  case (Cons v es)
  note v = event_refines [OF Cons.prems, of v]
  show ?case
  proof (cases "run_event v w")
    case None
    with v have "spec_event v (marks_of w) = None" by simp
    with None show ?thesis by simp
  next
    case (Some w1)
    with v have "suite_ok w1" "spec_event v (marks_of w) = Some (marks_of w1)" by auto
    with Some Cons.IH [of w1] show ?thesis by simp
  qed
qed simp

lemma torn_down: "suite_ok w \<Longrightarrow> TearDownTest w \<noteq> None \<longleftrightarrow> marks_of w = (False, False)"
  by (auto simp: TearDownTest_def EnsureNoErrorsOrWarnings_def checked_def VerifyPristine_def marks_of_def)

text \<open>
  C20. A test of a suite passes exactly when its errors and warnings are the ones it asks for: run
  on the program's loggers and the test logs they write to, from the set-up to the check at its end, it
  takes the outcome of the abstract marks. Every check that asks for an error (a warning) finds one logged
  since the last, every wait one within its rounds, and at the end there is none
  nobody asked for. Other messages, and the debugging flag, make no difference.
\<close>

theorem suite_case_passes_iff:
  "run_case es w \<noteq> None \<longleftrightarrow> spec_events es (False, False) = Some (False, False)"
proof -
  note r = events_refine [OF setup_ok(1), of es w, unfolded setup_ok(2)]
  show ?thesis
  proof (cases "run_events es (SetupTest w)")
    case None
    with r have "spec_events es (False, False) = None" by simp
    with None show ?thesis by (simp add: run_case_def)
  next
    case (Some w1)
    with r have "suite_ok w1" "spec_events es (False, False) = Some (marks_of w1)" by auto
    with Some torn_down [OF this(1)] show ?thesis by (simp add: run_case_def)
  qed
qed

end
