(* ===== verification/File_Path.thy ===== *)
theory File_Path
  imports Prelude "HOL-Library.Sublist"
begin

text \<open>
  Paths as util.go and dirwatcher.go use them: \<open>filepath.Clean\<close>, \<open>Join\<close> and \<open>Rel\<close> on Unix, and
  \<open>IsSubpath\<close>. A path is a byte string; its elements are separated by slashes.
\<close>

section \<open>The path functions of the library\<close>

text \<open>
  \<open>Clean\<close> walks over the elements: empty elements and dots are dropped, two dots take back the
  element before them, or stay at the front of a path that does not start with a slash.
\<close>

definition DOT :: string where "DOT = ''.''"
definition DOTDOT :: string where "DOTDOT = ''..''"

fun clean_elements :: "bool \<Rightarrow> string list \<Rightarrow> string list \<Rightarrow> string list" where
  "clean_elements rooted out [] = rev out"
| "clean_elements rooted out (e # es) =
     (if e = [] \<or> e = DOT then clean_elements rooted out es
      else if e = DOTDOT then
        (if out \<noteq> [] \<and> hd out \<noteq> DOTDOT then clean_elements rooted (tl out) es
         else if rooted then clean_elements rooted out es
         else clean_elements rooted (e # out) es)
      else clean_elements rooted (e # out) es)"

definition is_rooted :: "string \<Rightarrow> bool" where
  "is_rooted p \<longleftrightarrow> p \<noteq> [] \<and> hd p = CHR ''/''"

text \<open>A cleaned path by its elements.\<close>

definition path_of :: "bool \<Rightarrow> string list \<Rightarrow> string" where
  "path_of rooted es =
     (if rooted then CHR ''/'' # join_with ''/'' es else if es = [] then DOT else join_with ''/'' es)"

definition Clean :: "string \<Rightarrow> string" where
  "Clean p = path_of (is_rooted p) (clean_elements (is_rooted p) [] (split_on CHR ''/'' p))"

text \<open>\<open>Join\<close> of two elements; empty ones are left out.\<close>

definition Join2 :: "string \<Rightarrow> string \<Rightarrow> string" where
  "Join2 a b =
     (if a = [] then (if b = [] then [] else Clean b)
      else if b = [] then Clean a
      else Clean (a @ ''/'' @ b))"

text \<open>
  \<open>Rel\<close> compares the cleaned paths element by element. The root is the path with one empty element,
  and the current directory, as a base, the one with none.
\<close>

definition elements :: "string \<Rightarrow> string list" where
  "elements p = (if p = [] then [] else if p = ''/'' then [[]] else split_on CHR ''/'' p)"

fun drop_common :: "string list \<Rightarrow> string list \<Rightarrow> string list \<times> string list" where
  "drop_common (b # bs) (t # ts) = (if b = t then drop_common bs ts else (b # bs, t # ts))"
| "drop_common bs ts = (bs, ts)"

definition Rel :: "string \<Rightarrow> string \<Rightarrow> string option" where
  "Rel basepath targpath =
     (let base = Clean basepath; targ = Clean targpath in
      if targ = base then Some DOT
      else
        (let base = (if base = DOT then [] else base) in
         if is_rooted base \<noteq> is_rooted targ then None
         else
           (case drop_common (elements base) (elements targ) of
              (bs, ts) \<Rightarrow>
                if bs \<noteq> [] \<and> ts \<noteq> [] \<and> hd bs = DOTDOT then None
                else Some (join_with ''/'' (replicate (length bs) DOTDOT @ ts)))))"

section \<open>\<open>IsSubpath\<close>\<close>

definition IsSubpath :: "string \<Rightarrow> string \<Rightarrow> bool" where
  "IsSubpath basepath maybeSubpath =
     (case Rel basepath maybeSubpath of
        None \<Rightarrow> False
      | Some rel \<Rightarrow> if take 3 rel = DOTDOT @ ''/'' then False else True)"

section \<open>Cleaned paths\<close>

text \<open>The elements of a cleaned path that starts with a slash: no empty ones, no dots.\<close>

definition plain :: "string \<Rightarrow> bool" where
  "plain e \<longleftrightarrow> e \<noteq> [] \<and> e \<noteq> DOT \<and> e \<noteq> DOTDOT \<and> CHR ''/'' \<notin> set e"

definition abs_path :: "string list \<Rightarrow> string" where
  "abs_path es = path_of True es"

lemma clean_elements_plain:
  "list_all plain es \<Longrightarrow> clean_elements rooted out es = rev out @ es"
  by (induction es arbitrary: out) (auto simp: plain_def)

lemma clean_elements_rooted:
  "list_all plain out \<Longrightarrow> \<forall>e\<in>set es. CHR ''/'' \<notin> set e \<Longrightarrow> list_all plain (clean_elements True out es)"
proof (induction es arbitrary: out)
  case (Cons e es)
  then show ?case
    by (cases out) (auto simp: plain_def DOT_def DOTDOT_def)
qed (simp add: list_all_iff)

lemma split_abs_path:
  "list_all plain es \<Longrightarrow> split_on CHR ''/'' (abs_path es) = [] # (if es = [] then [[]] else es)"
  by (auto simp: abs_path_def path_of_def split_join list_all_iff plain_def)

lemma Clean_abs_path: "list_all plain es \<Longrightarrow> Clean (abs_path es) = abs_path es"
proof -
  assume p: "list_all plain es"
  have r: "is_rooted (abs_path es)" by (simp add: is_rooted_def abs_path_def path_of_def)
  have "clean_elements True [] (split_on CHR ''/'' (abs_path es)) = es"
    using p by (auto simp: split_abs_path clean_elements_plain)
  with r show ?thesis by (simp add: Clean_def abs_path_def)
qed

text \<open>Every rooted path is cleaned to one of that form.\<close>

lemma Clean_rooted:
  assumes "is_rooted p"
  obtains es where "list_all plain es" "Clean p = abs_path es"
proof -
  have "list_all plain (clean_elements True [] (split_on CHR ''/'' p))"
    using split_on_parts [of _ "CHR ''/''" p] by (intro clean_elements_rooted) auto
  then show ?thesis
    using assms that by (simp add: Clean_def abs_path_def)
qed

lemma elements_abs_path: "list_all plain es \<Longrightarrow> elements (abs_path es) = [] # es"
  using split_abs_path [of es]
  by (cases "es = []") (auto simp: elements_def abs_path_def path_of_def plain_def split: if_splits)

lemma abs_path_inj: "list_all plain es \<Longrightarrow> list_all plain fs \<Longrightarrow> abs_path es = abs_path fs \<longleftrightarrow> es = fs"
  by (metis elements_abs_path list.inject)

lemma drop_common_prefix:
  "drop_common bs ts = (bs', ts') \<Longrightarrow>
     \<exists>ps. bs = ps @ bs' \<and> ts = ps @ ts' \<and> (bs' = [] \<or> ts' = [] \<or> hd bs' \<noteq> hd ts')"
proof (induction bs ts arbitrary: bs' ts' rule: drop_common.induct)
  case (1 b bs t ts)
  show ?case
  proof (cases "b = t")
    case True
    with 1 obtain ps where "bs = ps @ bs' \<and> ts = ps @ ts' \<and> (bs' = [] \<or> ts' = [] \<or> hd bs' \<noteq> hd ts')"
      by auto
    with True show ?thesis by (intro exI [of _ "b # ps"]) simp
  qed (use 1 in auto)
qed auto

section \<open>What \<open>IsSubpath\<close> decides\<close>

lemma Rel_abs_path:
  assumes "list_all plain bs" "list_all plain ts"
  shows "Rel (abs_path bs) (abs_path ts) =
    (if ts = bs then Some DOT
     else (case drop_common bs ts of (bs', ts') \<Rightarrow>
       Some (join_with ''/'' (replicate (length bs') DOTDOT @ ts'))))"
proof -
  have ne: "abs_path es \<noteq> DOT" "is_rooted (abs_path es)" for es
    by (simp_all add: abs_path_def path_of_def DOT_def is_rooted_def)
  obtain bs' ts' where d: "drop_common bs ts = (bs', ts')" by (cases "drop_common bs ts")
  from drop_common_prefix [OF d] assms have "list_all plain bs'" by auto
  then have "bs' \<noteq> [] \<Longrightarrow> hd bs' \<noteq> DOTDOT" by (cases bs') (auto simp: plain_def)
  with assms d ne show ?thesis
    by (auto simp: Rel_def Let_def Clean_abs_path elements_abs_path abs_path_inj)
qed

lemma up_prefix:
  "take 3 (join_with ''/'' (DOTDOT # es)) = DOTDOT @ ''/'' \<longleftrightarrow> es \<noteq> []"
  by (cases es) (auto simp: DOTDOT_def)

lemma down_prefix:
  assumes "list_all plain es" "es \<noteq> []"
  shows "take 3 (join_with ''/'' es) \<noteq> DOTDOT @ ''/''"
proof
  assume "take 3 (join_with ''/'' es) = DOTDOT @ ''/''"
  then obtain x where x: "join_with ''/'' es = DOTDOT @ CHR ''/'' # x"
    by (metis append_Cons append_Nil append_assoc append_take_drop_id)
  have "split_on CHR ''/'' (join_with ''/'' es) = es"
    using assms by (intro split_join) (auto simp: list_all_iff plain_def)
  moreover have "split_on CHR ''/'' (DOTDOT @ CHR ''/'' # x) = DOTDOT # split_on CHR ''/'' x"
    by (intro split_on_append) (simp add: DOTDOT_def)
  ultimately have "hd es = DOTDOT" unfolding x by (metis list.sel(1))
  with assms show False by (cases es) (auto simp: plain_def)
qed

lemma IsSubpath_abs_path:
  assumes "list_all plain bs" "list_all plain ts"
  shows "IsSubpath (abs_path bs) (abs_path ts) \<longleftrightarrow> Sublist.prefix bs ts \<or> (\<exists>e. bs = ts @ [e])"
proof (cases "ts = bs")
  case True
  then show ?thesis
    using Rel_abs_path [OF assms] by (simp add: IsSubpath_def DOT_def DOTDOT_def)
next
  case False
  obtain bs' ts' where d: "drop_common bs ts = (bs', ts')" by (cases "drop_common bs ts")
  from drop_common_prefix [OF d] obtain ps where
    ps: "bs = ps @ bs'" "ts = ps @ ts'" "bs' = [] \<or> ts' = [] \<or> hd bs' \<noteq> hd ts'" by blast
  have sub: "IsSubpath (abs_path bs) (abs_path ts) \<longleftrightarrow>
      take 3 (join_with ''/'' (replicate (length bs') DOTDOT @ ts')) \<noteq> DOTDOT @ ''/''"
    using Rel_abs_path [OF assms] False d by (simp add: IsSubpath_def)
  show ?thesis
  proof (cases bs')
    case Nil
    with False ps have "ts' \<noteq> []" "list_all plain ts'" using assms by auto
    with Nil sub ps down_prefix show ?thesis by simp
  next
    case (Cons b bs1)
    have "\<not> Sublist.prefix bs ts"
      using ps Cons by (cases ts') auto
    moreover have "(\<exists>e. bs = ts @ [e]) \<longleftrightarrow> bs1 = [] \<and> ts' = []"
      using ps Cons by (cases ts') (auto simp: append_eq_append_conv2 append_eq_Cons_conv)
    moreover have "IsSubpath (abs_path bs) (abs_path ts) \<longleftrightarrow> bs1 = [] \<and> ts' = []"
      using sub Cons up_prefix [of "replicate (length bs1) DOTDOT @ ts'"] by auto
    ultimately show ?thesis by blast
  qed
qed

section \<open>\<open>Truename\<close> and \<open>GetStack\<close>\<close>

text \<open>
  What the system answers is an argument: \<open>wd\<close> is the current directory or the error of asking for
  it, and \<open>eval_symlinks\<close> is \<open>filepath.EvalSymlinks\<close>, which walks the links of the file system. With
  an error \<open>Truename\<close> returns the path it was given.
\<close>

definition Abs :: "'e + string \<Rightarrow> string \<Rightarrow> 'e + string" where
  "Abs wd p =
     (if is_rooted p then Inr (Clean p)
      else (case wd of Inl e \<Rightarrow> Inl e | Inr dir \<Rightarrow> Inr (Join2 dir p)))"

definition Truename :: "(string \<Rightarrow> 'e + string) \<Rightarrow> 'e + string \<Rightarrow> string \<Rightarrow> string \<times> 'e option" where
  "Truename eval_symlinks wd filePath =
     (case eval_symlinks filePath of
        Inl err \<Rightarrow> (filePath, Some err)
      | Inr p \<Rightarrow>
          (case Abs wd p of
             Inl err \<Rightarrow> (filePath, Some err)
           | Inr p \<Rightarrow> (Clean p, None)))"

text \<open>The trace of all goroutines, as \<open>runtime.Stack\<close> writes it into a buffer of that size.\<close>

definition GetStack :: "string \<Rightarrow> string" where
  "GetStack trace = take 32768 trace"

text \<open>
  The name of a file is rooted and clean, so \<open>IsSubpath\<close> can be asked of two of them; and it is the
  path itself once the links are gone.
\<close>

lemma Truename_abs_path:
  assumes "Truename eval_symlinks (Inr wd) p = (q, None)" "is_rooted wd"
  shows "\<exists>es. list_all plain es \<and> q = abs_path es"
proof -
  obtain r where r: "eval_symlinks p = Inr r" "q = Clean (if is_rooted r then Clean r else Join2 wd r)"
    using assms(1) by (auto simp: Truename_def Abs_def split: sum.splits if_splits)
  have "is_rooted (wd @ x)" "wd \<noteq> []" for x using assms(2) by (auto simp: is_rooted_def)
  then have "\<exists>y. is_rooted y \<and> q = Clean (Clean y)"
    using r assms(2) by (cases "is_rooted r"; cases "r = []") (auto simp: Join2_def)
  then obtain y where y: "is_rooted y" "q = Clean (Clean y)" by blast
  obtain es where "list_all plain es" "Clean y = abs_path es"
    using y(1) by (rule Clean_rooted)
  with y(2) show ?thesis by (auto simp: Clean_abs_path)
qed

lemma Truename_same:
  assumes "list_all plain es" "eval_symlinks (abs_path es) = Inr (abs_path es)"
  shows "Truename eval_symlinks wd (abs_path es) = (abs_path es, None)"
  using assms
  by (simp add: Truename_def Abs_def Clean_abs_path) (simp add: abs_path_def path_of_def is_rooted_def)

end
