(* ===== verification/File_System.thy ===== *)
theory File_System
  imports File_Path "HOL-Library.Finite_Map"
begin

text \<open>
  The file system as the helpers of testutils/ see it through \<open>os\<close> and \<open>io/ioutil\<close>: directories and
  regular files under the paths by their elements, and the current directory. There are no links and
  no permissions, and nobody else changes it. An error carries no more than its kind.
\<close>

section \<open>Paths\<close>

text \<open>\<open>filepath.Dir\<close>: what is left of the last slash, cleaned.\<close>

definition Dir :: "string \<Rightarrow> string" where
  "Dir p = Clean (rev (dropWhile (\<lambda>c. c \<noteq> CHR ''/'') (rev p)))"

lemma rev_dropWhile_last: "x \<notin> set b \<Longrightarrow> rev (dropWhile (\<lambda>c. c \<noteq> x) (rev (a @ x # b))) = a @ [x]"
proof -
  assume "x \<notin> set b"
  then have "dropWhile (\<lambda>c. c \<noteq> x) (rev b @ y) = dropWhile (\<lambda>c. c \<noteq> x) y" for y
    by (intro dropWhile_append2) auto
  then show ?thesis by simp
qed

lemma split_on_slash_end: "split_on c (s @ [c]) = split_on c s @ [[]]"
proof (induction s)
  case (Cons x s)
  then show ?case by (cases "split_on c s") auto
qed simp

lemma clean_elements_empty_end: "clean_elements r out (es @ [[]]) = clean_elements r out es"
  by (induction r out es rule: clean_elements.induct) auto

lemma Clean_slash_end: "p \<noteq> [] \<Longrightarrow> Clean (p @ ''/'') = Clean p"
  using split_on_slash_end [of "CHR ''/''" p]
  by (simp add: Clean_def clean_elements_empty_end is_rooted_def)

lemma Dir_abs_path:
  assumes "list_all plain es" "plain e"
  shows "Dir (abs_path (es @ [e])) = abs_path es"
proof (cases "es = []")
  case True
  have "Dir (abs_path [e]) = Clean ''/''"
    using rev_dropWhile_last [of "CHR ''/''" e "[]"] assms(2) by (simp add: Dir_def abs_path_def path_of_def plain_def)
  also have "\<dots> = abs_path []" using Clean_abs_path [of "[]"] by (simp add: abs_path_def path_of_def)
  finally show ?thesis using True by simp
next
  case False
  have "abs_path (es @ [e]) = abs_path es @ CHR ''/'' # e"
    using False by (simp add: abs_path_def path_of_def join_with_append)
  moreover have "abs_path es \<noteq> []" by (simp add: abs_path_def path_of_def)
  ultimately show ?thesis
    using rev_dropWhile_last [of "CHR ''/''" e "abs_path es"] assms Clean_slash_end [of "abs_path es"]
    by (simp add: Dir_def Clean_abs_path plain_def)
qed

text \<open>Joining a name without two dots goes down from the first path.\<close>

definition down :: "string \<Rightarrow> string list" where
  "down name = filter (\<lambda>e. e \<noteq> [] \<and> e \<noteq> DOT) (split_on CHR ''/'' name)"

lemma down_plain: "DOTDOT \<notin> set (split_on CHR ''/'' name) \<Longrightarrow> list_all plain (down name)"
  using split_on_parts [of _ "CHR ''/''" name] by (auto simp: down_def list_all_iff plain_def)

lemma clean_elements_down:
  "DOTDOT \<notin> set es \<Longrightarrow> clean_elements r out es = rev out @ filter (\<lambda>e. e \<noteq> [] \<and> e \<noteq> DOT) es"
  by (induction r out es rule: clean_elements.induct) auto

lemma split_on_sep: "split_on c (a @ c # b) = split_on c a @ split_on c b"
proof (induction a)
  case (Cons x a)
  then show ?case by (cases "split_on c a") auto
qed simp

lemma Join2_down:
  assumes "list_all plain ds" "DOTDOT \<notin> set (split_on CHR ''/'' name)"
  shows "Join2 (abs_path ds) name = abs_path (ds @ down name)"
proof -
  have r: "is_rooted (abs_path ds @ x)" "abs_path ds \<noteq> []" for x
    by (simp_all add: is_rooted_def abs_path_def path_of_def)
  have "clean_elements True [] (split_on CHR ''/'' (abs_path ds @ CHR ''/'' # name)) = ds @ down name"
  proof -
    have "DOTDOT \<notin> set (split_on CHR ''/'' (abs_path ds) @ split_on CHR ''/'' name)"
      using assms by (auto simp: split_abs_path list_all_iff plain_def DOTDOT_def)
    moreover have "filter (\<lambda>e. e \<noteq> [] \<and> e \<noteq> DOT) (split_on CHR ''/'' (abs_path ds)) = ds"
      using assms(1) by (auto simp: split_abs_path list_all_iff plain_def DOT_def)
    ultimately show ?thesis
      by (simp add: split_on_sep clean_elements_down down_def)
  qed
  with r show ?thesis using Clean_abs_path [OF assms(1)]
    by (cases "name = []") (simp_all add: Join2_def Clean_def down_def abs_path_def)
qed

section \<open>The state and its operations\<close>

datatype fs_node = Directory | File string

datatype fs_error = NotExist | NotDirectory | IsDirectory | NotEmpty | Exists

record file_system =
  nodes :: "(string list, fs_node) fmap"
  cwd :: "string list"

abbreviation node_at :: "file_system \<Rightarrow> string list \<rightharpoonup> fs_node" where
  "node_at fs \<equiv> fmlookup (nodes fs)"

text \<open>The elements a path leads to; one that does not start with a slash is taken from the current directory.\<close>

definition resolve :: "file_system \<Rightarrow> string \<Rightarrow> string list" where
  "resolve fs p =
     clean_elements True []
       ((if is_rooted p then [] else cwd fs) @ split_on CHR ''/'' p)"

lemma resolve_abs_path: "list_all plain es \<Longrightarrow> resolve fs (abs_path es) = es"
proof -
  assume p: "list_all plain es"
  have "is_rooted (abs_path es)" by (simp add: is_rooted_def abs_path_def path_of_def)
  with p show ?thesis by (cases "es = []") (simp_all add: resolve_def split_abs_path clean_elements_plain)
qed

definition Getwd :: "file_system \<Rightarrow> fs_error + string" where
  "Getwd fs = (if node_at fs (cwd fs) = Some Directory then Inr (abs_path (cwd fs)) else Inl NotExist)"

definition Chdir :: "string \<Rightarrow> file_system \<Rightarrow> fs_error + file_system" where
  "Chdir p fs =
     (case node_at fs (resolve fs p) of
        None \<Rightarrow> Inl NotExist
      | Some (File c) \<Rightarrow> Inl NotDirectory
      | Some Directory \<Rightarrow> Inr (fs\<lparr>cwd := resolve fs p\<rparr>))"

definition ReadFile :: "string \<Rightarrow> file_system \<Rightarrow> fs_error + string" where
  "ReadFile p fs =
     (case node_at fs (resolve fs p) of
        None \<Rightarrow> Inl NotExist
      | Some Directory \<Rightarrow> Inl IsDirectory
      | Some (File c) \<Rightarrow> Inr c)"

definition put :: "string list \<Rightarrow> fs_node \<Rightarrow> file_system \<Rightarrow> file_system" where
  "put es n fs = fs\<lparr>nodes := fmupd es n (nodes fs)\<rparr>"

text \<open>An existing file is overwritten; a new one, or a new directory, needs the directory it is made in.\<close>

definition create :: "string list \<Rightarrow> fs_node \<Rightarrow> file_system \<Rightarrow> fs_error + file_system" where
  "create es n fs =
     (case node_at fs (butlast es) of
        None \<Rightarrow> Inl NotExist
      | Some (File c) \<Rightarrow> Inl NotDirectory
      | Some Directory \<Rightarrow> Inr (put es n fs))"

definition WriteFile :: "string \<Rightarrow> string \<Rightarrow> file_system \<Rightarrow> fs_error + file_system" where
  "WriteFile p content fs =
     (let es = resolve fs p in
      case node_at fs es of
        Some Directory \<Rightarrow> Inl IsDirectory
      | Some (File c) \<Rightarrow> Inr (put es (File content) fs)
      | None \<Rightarrow> create es (File content) fs)"

definition MkdirAll :: "string \<Rightarrow> file_system \<Rightarrow> fs_error + file_system" where
  "MkdirAll p fs =
     (let es = resolve fs p in
      if list_all (\<lambda>q. node_at fs q \<in> {None, Some Directory}) (prefixes es)
      then Inr (fold (\<lambda>q. put q Directory) (prefixes es) fs)
      else Inl NotDirectory)"

definition Remove :: "string \<Rightarrow> file_system \<Rightarrow> fs_error + file_system" where
  "Remove p fs =
     (let es = resolve fs p in
      case node_at fs es of
        None \<Rightarrow> Inl NotExist
      | Some n \<Rightarrow>
          if fBex (fmdom (nodes fs)) (strict_prefix es) then Inl NotEmpty
          else Inr (fs\<lparr>nodes := fmdrop es (nodes fs)\<rparr>))"

definition RemoveAll :: "string \<Rightarrow> file_system \<Rightarrow> file_system" where
  "RemoveAll p fs = fs\<lparr>nodes := fmfilter (\<lambda>q. \<not> Sublist.prefix (resolve fs p) q) (nodes fs)\<rparr>"

text \<open>
  \<open>ioutil.TempDir\<close> tries names that end in random digits until one is free; \<open>rnd\<close> is where it ends,
  and a name that exists is the end of its patience.
\<close>

definition TempDir :: "string \<Rightarrow> string \<Rightarrow> string \<Rightarrow> file_system \<Rightarrow> fs_error + string \<times> file_system" where
  "TempDir dir pre rnd fs =
     (let p = Join2 dir (pre @ rnd); es = resolve fs p in
      case node_at fs es of
        Some n \<Rightarrow> Inl Exists
      | None \<Rightarrow>
          (case create es Directory fs of
             Inl e \<Rightarrow> Inl e
           | Inr fs' \<Rightarrow> Inr (p, fs')))"

lemma node_at_put [simp]: "node_at (put es n fs) q = (if q = es then Some n else node_at fs q)"
  "cwd (put es n fs) = cwd fs"
  by (simp_all add: put_def)

lemma node_at_puts: "node_at (fold (\<lambda>q. put q n) qs fs) q = (if q \<in> set qs then Some n else node_at fs q)"
  "cwd (fold (\<lambda>q. put q n) qs fs) = cwd fs"
  by (induction qs arbitrary: fs) auto

section \<open>Well-formed file systems\<close>

text \<open>Everything is in a directory, under proper names; the current directory exists.\<close>

definition fs_ok :: "file_system \<Rightarrow> bool" where
  "fs_ok fs \<longleftrightarrow> node_at fs [] = Some Directory \<and> node_at fs (cwd fs) = Some Directory \<and>
     (\<forall>es n. node_at fs es = Some n \<longrightarrow> list_all plain es) \<and>
     (\<forall>es e n. node_at fs (es @ [e]) = Some n \<longrightarrow> node_at fs es = Some Directory)"

lemma fs_ok_ancestor:
  assumes "fs_ok fs" "node_at fs (es @ fs') = Some n" "fs' \<noteq> []"
  shows "node_at fs es = Some Directory"
  using assms(2,3)
proof (induction fs' arbitrary: n rule: rev_induct)
  case (snoc e fs')
  then have "node_at fs (es @ fs') = Some Directory"
    using assms(1) unfolding fs_ok_def by (metis append.assoc)
  with snoc.IH show ?case by (cases "fs' = []") auto
qed simp

lemma fs_ok_below: "fs_ok fs \<Longrightarrow> node_at fs es = None \<Longrightarrow> Sublist.prefix es q \<Longrightarrow> node_at fs q = None"
  by (cases "node_at fs q") (auto simp: prefix_def dest: fs_ok_ancestor)

end
