(* ===== verification/Data_Files.thy ===== *)
theory Data_Files
  imports File_System
begin

text \<open>
  The fixture of testutils/datafilefixture.go and \<open>SetupTempDir\<close> of testutils/testutils.go: a test
  gets a temporary directory of its own, which is removed when it is torn down, or by the set-up of
  the next one if it never is. A step of a test may fail it: \<open>FailNow\<close> leaves the test where it
  is, with the state it has then.
\<close>

section \<open>Tests that can fail\<close>

record df_world =
  disk :: file_system
  oldRmDataDir :: "(string \<times> string) option"

type_synonym 'a test = "df_world \<Rightarrow> (string + 'a) \<times> df_world"

definition bind_test :: "'a test \<Rightarrow> ('a \<Rightarrow> 'b test) \<Rightarrow> 'b test" where
  "bind_test m f w = (case m w of (Inl e, w') \<Rightarrow> (Inl e, w') | (Inr x, w') \<Rightarrow> f x w')"

definition return_test :: "'a \<Rightarrow> 'a test" where
  "return_test x w = (Inr x, w)"

text \<open>\<open>Ckf\<close> on the error of an operation that changes the file system, and of one that reads it.\<close>

definition Ckf :: "string \<Rightarrow> (file_system \<Rightarrow> fs_error + file_system) \<Rightarrow> unit test" where
  "Ckf msg act w =
     (case act (disk w) of Inl e \<Rightarrow> (Inl msg, w) | Inr fs \<Rightarrow> (Inr (), w\<lparr>disk := fs\<rparr>))"

definition Ckf_value :: "string \<Rightarrow> (file_system \<Rightarrow> fs_error + 'a) \<Rightarrow> 'a test" where
  "Ckf_value msg act w = (case act (disk w) of Inl e \<Rightarrow> (Inl msg, w) | Inr x \<Rightarrow> (Inr x, w))"

section \<open>The temporary directory\<close>

text \<open>
  The clean-up function that \<open>SetupTempDir\<close> returns is the pair of paths it closes over; its errors are
  not looked at. The place for temporary files and the digits of a name are arguments.
\<close>

definition rm_dir :: "string \<times> string \<Rightarrow> df_world \<Rightarrow> df_world" where
  "rm_dir c w =
     (let fs = RemoveAll (fst c) (disk w)
      in w\<lparr>disk := (case Chdir (snd c) fs of Inl e \<Rightarrow> fs | Inr fs' \<Rightarrow> fs')\<rparr>)"

definition SetupTempDir :: "string \<Rightarrow> string \<Rightarrow> (string \<times> (string \<times> string)) test" where
  "SetupTempDir tmp rnd =
     bind_test (Ckf_value ''couldn't get the current directory'' Getwd) (\<lambda>wd w.
       (case TempDir tmp ''wbgotest'' rnd (disk w) of
          Inl e \<Rightarrow> (Inl ''couldn't create temporary directory'', w)
        | Inr (dir, fs) \<Rightarrow>
            (Inr (dir, (dir, wd)), w\<lparr>disk := (case Chdir dir fs of Inl e \<Rightarrow> fs | Inr fs' \<Rightarrow> fs')\<rparr>)))"

section \<open>The fixture\<close>

record DataFileFixture =
  df_wd :: string
  dataFileTempDir :: string
  rmDataFileDir :: "string \<times> string"

definition NewDataFileFixture :: "string \<Rightarrow> string \<Rightarrow> DataFileFixture test" where
  "NewDataFileFixture tmp rnd w =
     bind_test (Ckf_value ''Getwd'' Getwd) (\<lambda>wd.
       bind_test (SetupTempDir tmp rnd) (\<lambda>(dir, rm) w.
         (Inr \<lparr>df_wd = wd, dataFileTempDir = dir, rmDataFileDir = rm\<rparr>, w\<lparr>oldRmDataDir := Some rm\<rparr>)))
     (case oldRmDataDir w of None \<Rightarrow> w | Some c \<Rightarrow> rm_dir c w)"

definition TearDownDataFiles :: "DataFileFixture \<Rightarrow> unit test" where
  "TearDownDataFiles f w = Ckf ''Chdir'' (Chdir (df_wd f)) (rm_dir (rmDataFileDir f) (w\<lparr>oldRmDataDir := None\<rparr>))"

definition SourceDir :: "DataFileFixture \<Rightarrow> string" where
  "SourceDir f = df_wd f"

definition DataFilePath :: "DataFileFixture \<Rightarrow> string \<Rightarrow> string" where
  "DataFilePath f dataFile = Join2 (dataFileTempDir f) dataFile"

definition ensureTargetDirs :: "DataFileFixture \<Rightarrow> string \<Rightarrow> string test" where
  "ensureTargetDirs f targetName =
     (let targetPath = DataFilePath f targetName in
      if CHR ''/'' \<in> set targetName
      then bind_test (Ckf ''MkdirAll'' (MkdirAll (Dir targetPath))) (\<lambda>_. return_test targetPath)
      else return_test targetPath)"

definition readSourceDataFile :: "DataFileFixture \<Rightarrow> string \<Rightarrow> string test" where
  "readSourceDataFile f sourceName = Ckf_value ''ReadFile()'' (ReadFile (Join2 (df_wd f) sourceName))"

definition ReadSourceDataFile :: "DataFileFixture \<Rightarrow> string \<Rightarrow> string test" where
  "ReadSourceDataFile f sourceName = readSourceDataFile f sourceName"

definition write_target :: "DataFileFixture \<Rightarrow> string \<Rightarrow> string \<Rightarrow> string \<Rightarrow> string test" where
  "write_target f msg targetName content =
     bind_test (ensureTargetDirs f targetName) (\<lambda>targetPath.
       bind_test (Ckf msg (WriteFile targetPath content)) (\<lambda>_. return_test targetPath))"

definition CopyModifiedDataFileToTempDir ::
  "DataFileFixture \<Rightarrow> string \<Rightarrow> string \<Rightarrow> (string \<Rightarrow> string) \<Rightarrow> string test" where
  "CopyModifiedDataFileToTempDir f sourceName targetName edit =
     bind_test (readSourceDataFile f sourceName) (\<lambda>data. write_target f ''WriteFile'' targetName (edit data))"

definition CopyDataFileToTempDir :: "DataFileFixture \<Rightarrow> string \<Rightarrow> string \<Rightarrow> string test" where
  "CopyDataFileToTempDir f sourceName targetName =
     bind_test (readSourceDataFile f sourceName) (\<lambda>data. write_target f ''WriteFile'' targetName data)"

text \<open>A name may be two, with a colon between the source and the target.\<close>

definition source_target :: "string \<Rightarrow> string \<times> string" where
  "source_target name =
     (if CHR '':'' \<in> set name
      then (takeWhile (\<lambda>c. c \<noteq> CHR '':'') name, tl (dropWhile (\<lambda>c. c \<noteq> CHR '':'') name))
      else (name, name))"

fun CopyDataFilesToTempDir :: "DataFileFixture \<Rightarrow> string list \<Rightarrow> unit test" where
  "CopyDataFilesToTempDir f [] = return_test ()"
| "CopyDataFilesToTempDir f (name # names) =
     (case source_target name of (srcName, dstName) \<Rightarrow>
        bind_test (CopyDataFileToTempDir f srcName dstName) (\<lambda>_. CopyDataFilesToTempDir f names))"

definition WriteDataFile :: "DataFileFixture \<Rightarrow> string \<Rightarrow> string \<Rightarrow> string test" where
  "WriteDataFile f filename content = write_target f ''WriteFile()'' filename content"

definition RmFile :: "DataFileFixture \<Rightarrow> string \<Rightarrow> unit test" where
  "RmFile f filename = Ckf ''Remove()'' (Remove (DataFilePath f filename))"

section \<open>Whole tests\<close>

text \<open>
  What a test does with its fixture, the change of its current directory included; and a sequence of
  tests, of which some are never torn down. A test whose set-up fails has no fixture to tear down.
\<close>

datatype df_op =
    Copy string string
  | CopyModified string string "string \<Rightarrow> string"
  | CopyFiles "string list"
  | WriteData string string
  | RmData string
  | ReadSource string
  | ChangeDir string

fun run_op :: "DataFileFixture \<Rightarrow> df_op \<Rightarrow> unit test" where
  "run_op f (Copy src target) = bind_test (CopyDataFileToTempDir f src target) (\<lambda>_. return_test ())"
| "run_op f (CopyModified src target edit) =
     bind_test (CopyModifiedDataFileToTempDir f src target edit) (\<lambda>_. return_test ())"
| "run_op f (CopyFiles names) = CopyDataFilesToTempDir f names"
| "run_op f (WriteData name content) = bind_test (WriteDataFile f name content) (\<lambda>_. return_test ())"
| "run_op f (RmData name) = RmFile f name"
| "run_op f (ReadSource src) = bind_test (ReadSourceDataFile f src) (\<lambda>_. return_test ())"
| "run_op f (ChangeDir p) = Ckf ''Chdir'' (Chdir p)"

fun run_ops :: "DataFileFixture \<Rightarrow> df_op list \<Rightarrow> unit test" where
  "run_ops f [] = return_test ()"
| "run_ops f (k # ks) = bind_test (run_op f k) (\<lambda>_. run_ops f ks)"

definition run_test :: "string \<Rightarrow> string \<times> df_op list \<times> bool \<Rightarrow> df_world \<Rightarrow> df_world" where
  "run_test tmp t w =
     (case t of (rnd, ks, torn_down) \<Rightarrow>
        (case NewDataFileFixture tmp rnd w of
           (Inl e, w1) \<Rightarrow> w1
         | (Inr f, w1) \<Rightarrow>
             (let w2 = snd (run_ops f ks w1)
              in if torn_down then snd (TearDownDataFiles f w2) else w2)))"

definition inside :: "string \<Rightarrow> bool" where
  "inside name \<longleftrightarrow> DOTDOT \<notin> set (split_on CHR ''/'' name)"

fun op_inside :: "df_op \<Rightarrow> bool" where
  "op_inside (Copy src target) \<longleftrightarrow> inside target"
| "op_inside (CopyModified src target edit) \<longleftrightarrow> inside target"
| "op_inside (CopyFiles names) \<longleftrightarrow> list_all (\<lambda>n. inside (snd (source_target n))) names"
| "op_inside (WriteData name content) \<longleftrightarrow> inside name"
| "op_inside (RmData name) \<longleftrightarrow> inside name"
| "op_inside k \<longleftrightarrow> True"

section \<open>What the operations leave alone\<close>

definition same_outside :: "string list \<Rightarrow> file_system \<Rightarrow> file_system \<Rightarrow> bool" where
  "same_outside ds fs0 fs \<longleftrightarrow> (\<forall>q. \<not> Sublist.prefix ds q \<longrightarrow> node_at fs q = node_at fs0 q)"

definition fresh_dir :: "string list \<Rightarrow> file_system \<Rightarrow> bool" where
  "fresh_dir ds fs0 \<longleftrightarrow> fs_ok fs0 \<and> list_all plain ds \<and> ds \<noteq> [] \<and> node_at fs0 ds = None \<and>
     node_at fs0 (butlast ds) = Some Directory"

text \<open>A step that changes nothing outside of the directory, whether the test goes on or fails.\<close>

definition keeps_outside :: "string list \<Rightarrow> file_system \<Rightarrow> 'a test \<Rightarrow> bool" where
  "keeps_outside ds fs0 m \<longleftrightarrow> (\<forall>w. same_outside ds fs0 (disk w) \<longrightarrow>
     same_outside ds fs0 (disk (snd (m w))) \<and> oldRmDataDir (snd (m w)) = oldRmDataDir w)"

lemma keeps_bind:
  assumes "keeps_outside ds fs0 m" "\<And>x. keeps_outside ds fs0 (f x)"
  shows "keeps_outside ds fs0 (bind_test m f)"
  using assms unfolding keeps_outside_def bind_test_def
  by (fastforce split: prod.split sum.split dest: spec)

lemma keeps_simple [simp]:
  "keeps_outside ds fs0 (return_test x)" "keeps_outside ds fs0 (Ckf_value msg g)"
  by (auto simp: keeps_outside_def return_test_def Ckf_value_def split: sum.split)

lemma keeps_Ckf:
  "(\<And>fs fs'. same_outside ds fs0 fs \<Longrightarrow> act fs = Inr fs' \<Longrightarrow> same_outside ds fs0 fs') \<Longrightarrow>
     keeps_outside ds fs0 (Ckf msg act)"
  by (auto simp: keeps_outside_def Ckf_def split: sum.split)

lemma same_outside_put: "Sublist.prefix ds es \<Longrightarrow> same_outside ds fs0 fs \<Longrightarrow> same_outside ds fs0 (put es n fs)"
  by (auto simp: same_outside_def)

lemma WriteFile_puts: "WriteFile p c fs = Inr fs' \<Longrightarrow> fs' = put (resolve fs p) (File c) fs"
  by (auto simp: WriteFile_def create_def Let_def split: option.splits fs_node.splits)

lemma MkdirAll_puts: "MkdirAll p fs = Inr fs' \<Longrightarrow> fs' = fold (\<lambda>q. put q Directory) (prefixes (resolve fs p)) fs"
  by (auto simp: MkdirAll_def Let_def split: if_splits)

lemma Remove_drops: "Remove p fs = Inr fs' \<Longrightarrow> nodes fs' = fmdrop (resolve fs p) (nodes fs)"
  by (auto simp: Remove_def Let_def split: option.splits if_splits)

lemma fresh_ancestor:
  assumes "fresh_dir ds fs0" "Sublist.strict_prefix q ds"
  shows "node_at fs0 q = Some Directory"
proof -
  from assms(2) obtain e es where ds: "ds = q @ e # es" by (auto elim: strict_prefixE')
  then have b: "butlast ds = q @ butlast (e # es)" by (simp add: butlast_append)
  show ?thesis
  proof (cases "es = []")
    case True
    with assms(1) b show ?thesis by (simp add: fresh_dir_def)
  next
    case False
    have "fs_ok fs0" "node_at fs0 (q @ butlast (e # es)) = Some Directory" "butlast (e # es) \<noteq> []"
      using assms(1) b False by (simp_all add: fresh_dir_def)
    then show ?thesis by (rule fs_ok_ancestor)
  qed
qed

lemma same_outside_mkdir:
  assumes "fresh_dir ds fs0" "same_outside ds fs0 fs" "Sublist.prefix es (ds @ x)"
  shows "same_outside ds fs0 (fold (\<lambda>q. put q Directory) (prefixes es) fs)"
  unfolding same_outside_def
proof (intro allI impI)
  fix q assume q: "\<not> Sublist.prefix ds q"
  show "node_at (fold (\<lambda>q. put q Directory) (prefixes es) fs) q = node_at fs0 q"
  proof (cases "Sublist.prefix q es")
    case True
    then have "Sublist.prefix q (ds @ x)" using assms(3) by (rule prefix_order.trans)
    then have "Sublist.prefix q ds" using q by (metis prefix_same_cases prefixI)
    then have "Sublist.strict_prefix q ds" using q by (auto simp: strict_prefix_def)
    with fresh_ancestor [OF assms(1) this] True show ?thesis by (simp add: node_at_puts)
  qed (use assms(2) q in \<open>simp add: node_at_puts same_outside_def\<close>)
qed

lemma DataFilePath_inside:
  assumes "list_all plain ds" "dataFileTempDir f = abs_path ds" "inside name"
  shows "DataFilePath f name = abs_path (ds @ down name)" "list_all plain (ds @ down name)"
    "resolve fs (DataFilePath f name) = ds @ down name"
  using assms Join2_down [of ds name] down_plain [of name] resolve_abs_path [of "ds @ down name" fs]
  by (simp_all add: DataFilePath_def inside_def)

lemma resolve_Dir:
  "list_all plain es \<Longrightarrow> es \<noteq> [] \<Longrightarrow> resolve fs (Dir (abs_path es)) = butlast es"
  by (cases es rule: rev_cases) (auto simp: Dir_abs_path resolve_abs_path)

lemma keeps_ensureTargetDirs:
  assumes "fresh_dir ds fs0" "dataFileTempDir f = abs_path ds" "inside name"
  shows "keeps_outside ds fs0 (ensureTargetDirs f name)"
proof -
  have p: "list_all plain ds" "ds \<noteq> []" using assms(1) by (simp_all add: fresh_dir_def)
  note path = DataFilePath_inside [OF p(1) assms(2,3)]
  have "keeps_outside ds fs0 (Ckf ''MkdirAll'' (MkdirAll (Dir (DataFilePath f name))))"
  proof (rule keeps_Ckf)
    fix fs fs' assume s: "same_outside ds fs0 fs" and m: "MkdirAll (Dir (DataFilePath f name)) fs = Inr fs'"
    have "Sublist.prefix (butlast (ds @ down name)) (ds @ down name)" by (rule prefixeq_butlast)
    with s MkdirAll_puts [OF m] path resolve_Dir [OF path(2), of fs] p(2) show "same_outside ds fs0 fs'"
      by (simp add: same_outside_mkdir [OF assms(1) s])
  qed
  then show ?thesis by (auto simp: ensureTargetDirs_def Let_def intro: keeps_bind)
qed

lemma ensureTargetDirs_path:
  "ensureTargetDirs f name w = (Inr p, w') \<Longrightarrow> p = DataFilePath f name"
  by (auto simp: ensureTargetDirs_def Let_def bind_test_def return_test_def split: if_splits prod.splits sum.splits)

lemma keeps_write_target:
  assumes "fresh_dir ds fs0" "dataFileTempDir f = abs_path ds" "inside name"
  shows "keeps_outside ds fs0 (write_target f msg name content)"
proof -
  have p: "list_all plain ds" using assms(1) by (simp add: fresh_dir_def)
  note path = DataFilePath_inside [OF p assms(2,3)]
  have w: "keeps_outside ds fs0 (Ckf msg (WriteFile (DataFilePath f name) content))"
    by (rule keeps_Ckf) (auto simp: path(3) dest!: WriteFile_puts intro: same_outside_put)
  have "write_target f msg name content = bind_test (ensureTargetDirs f name) (\<lambda>_.
      bind_test (Ckf msg (WriteFile (DataFilePath f name) content)) (\<lambda>_. return_test (DataFilePath f name)))"
    by (auto simp: write_target_def bind_test_def fun_eq_iff dest: ensureTargetDirs_path split: prod.split sum.split)
  with keeps_ensureTargetDirs [OF assms] w show ?thesis by (simp add: keeps_bind)
qed

lemma keeps_RmFile:
  assumes "fresh_dir ds fs0" "dataFileTempDir f = abs_path ds" "inside name"
  shows "keeps_outside ds fs0 (RmFile f name)"
proof -
  have p: "list_all plain ds" using assms(1) by (simp add: fresh_dir_def)
  note path = DataFilePath_inside [OF p assms(2,3)]
  show ?thesis unfolding RmFile_def
    by (rule keeps_Ckf) (auto simp: path(3) same_outside_def dest!: Remove_drops)
qed

lemma keeps_Copy:
  assumes "fresh_dir ds fs0" "dataFileTempDir f = abs_path ds" "inside target"
  shows "keeps_outside ds fs0 (CopyDataFileToTempDir f src target)"
    "keeps_outside ds fs0 (CopyModifiedDataFileToTempDir f src target edit)"
  using keeps_write_target [OF assms]
  by (auto simp: CopyDataFileToTempDir_def CopyModifiedDataFileToTempDir_def readSourceDataFile_def intro: keeps_bind)

lemma keeps_CopyFiles:
  assumes "fresh_dir ds fs0" "dataFileTempDir f = abs_path ds"
  shows "list_all (\<lambda>n. inside (snd (source_target n))) names \<Longrightarrow>
    keeps_outside ds fs0 (CopyDataFilesToTempDir f names)"
  by (induction names) (auto split: prod.split intro!: keeps_bind keeps_Copy [OF assms])

lemma keeps_op:
  assumes "fresh_dir ds fs0" "dataFileTempDir f = abs_path ds"
  shows "op_inside k \<Longrightarrow> keeps_outside ds fs0 (run_op f k)"
  by (cases k)
     (auto simp: WriteDataFile_def ReadSourceDataFile_def readSourceDataFile_def
       intro!: keeps_bind keeps_Copy [OF assms] keeps_CopyFiles [OF assms] keeps_write_target [OF assms]
         keeps_RmFile [OF assms] keeps_Ckf
       simp: Chdir_def same_outside_def split: option.splits fs_node.splits)

lemma keeps_ops:
  assumes "fresh_dir ds fs0" "dataFileTempDir f = abs_path ds"
  shows "list_all op_inside ks \<Longrightarrow> keeps_outside ds fs0 (run_ops f ks)"
  by (induction ks) (auto intro!: keeps_bind keeps_op [OF assms])

section \<open>Setting up and tearing down\<close>

lemma oldRm_rm_dir [simp]: "oldRmDataDir (rm_dir c w) = oldRmDataDir w"
  by (simp add: rm_dir_def Let_def)

lemma rm_dir_restores:
  assumes "fresh_dir ds fs0" "same_outside ds fs0 (disk w)"
  shows "disk (rm_dir (abs_path ds, abs_path (cwd fs0)) w) = fs0"
proof -
  have p: "list_all plain ds" "fs_ok fs0" "node_at fs0 ds = None" using assms(1) by (simp_all add: fresh_dir_def)
  let ?fs = "RemoveAll (abs_path ds) (disk w)"
  have n: "nodes ?fs = nodes fs0"
  proof (rule fmap_ext)
    fix q show "node_at ?fs q = node_at fs0 q"
      using assms(2) fs_ok_below [OF p(2,3), of q] p(1) by (simp add: RemoveAll_def resolve_abs_path same_outside_def)
  qed
  have "list_all plain (cwd fs0)" "node_at fs0 (cwd fs0) = Some Directory"
    using p(2) by (auto simp: fs_ok_def)
  then have "Chdir (abs_path (cwd fs0)) ?fs = Inr (?fs\<lparr>cwd := cwd fs0\<rparr>)"
    using n by (simp add: Chdir_def resolve_abs_path)
  then show ?thesis using n by (simp add: rm_dir_def Let_def)
qed

text \<open>Between two tests: nothing is left, or the directory of an unfinished test, which the next set-up knows of.\<close>

definition between_tests :: "file_system \<Rightarrow> df_world \<Rightarrow> bool" where
  "between_tests fs0 w \<longleftrightarrow> fs_ok fs0 \<and>
     (case oldRmDataDir w of
        None \<Rightarrow> disk w = fs0
      | Some c \<Rightarrow> \<exists>ds. c = (abs_path ds, abs_path (cwd fs0)) \<and> fresh_dir ds fs0 \<and> same_outside ds fs0 (disk w))"

lemma TempDir_fresh:
  assumes "TempDir tmp pre rnd fs = Inr (dir, fs')" "fs_ok fs" "is_rooted tmp" "pre @ rnd \<noteq> []"
  obtains ds where "dir = abs_path ds" "fresh_dir ds fs" "same_outside ds fs fs'" "cwd fs' = cwd fs"
    "node_at fs' ds = Some Directory"
proof -
  let ?p = "Join2 tmp (pre @ rnd)"
  have "tmp \<noteq> []" using assms(3) by (auto simp: is_rooted_def)
  then have "?p = Clean (tmp @ ''/'' @ (pre @ rnd))" using assms(4) by (auto simp: Join2_def)
  moreover have "is_rooted (tmp @ ''/'' @ (pre @ rnd))" using assms(3) by (auto simp: is_rooted_def)
  ultimately obtain ds where ds: "list_all plain ds" "?p = abs_path ds" by (metis Clean_rooted)
  then have r: "resolve fs ?p = ds" by (simp add: resolve_abs_path)
  with assms(1) ds(2) have n: "node_at fs ds = None" "create ds Directory fs = Inr fs'" "dir = abs_path ds"
    by (auto simp: TempDir_def Let_def split: option.splits sum.splits)
  moreover have "ds \<noteq> []" using n(1) assms(2) by (auto simp: fs_ok_def)
  moreover have "node_at fs (butlast ds) = Some Directory" "fs' = put ds Directory fs"
    using n(2) by (auto simp: create_def split: option.splits fs_node.splits)
  ultimately show thesis using ds(1) assms(2) by (intro that [of ds]) (auto simp: fresh_dir_def same_outside_def)
qed

lemma fresh_setup:
  assumes "between_tests fs0 w" "is_rooted tmp"
  shows "case NewDataFileFixture tmp rnd w of
    (Inl e, w1) \<Rightarrow> disk w1 = fs0 \<and> between_tests fs0 w1
  | (Inr f, w1) \<Rightarrow> \<exists>ds. fresh_dir ds fs0 \<and> same_outside ds fs0 (disk w1) \<and> dataFileTempDir f = abs_path ds \<and>
      df_wd f = abs_path (cwd fs0) \<and> rmDataFileDir f = (abs_path ds, abs_path (cwd fs0)) \<and>
      oldRmDataDir w1 = Some (rmDataFileDir f)"
proof -
  let ?w = "case oldRmDataDir w of None \<Rightarrow> w | Some c \<Rightarrow> rm_dir c w"
  have ok: "fs_ok fs0" using assms(1) by (simp add: between_tests_def)
  have d: "disk ?w = fs0" "oldRmDataDir ?w = oldRmDataDir w"
    using assms(1) by (auto simp: between_tests_def rm_dir_restores split: option.splits)
  have b: "between_tests fs0 ?w"
    using assms(1) d by (auto simp: between_tests_def same_outside_def split: option.splits)
  have g: "Getwd fs0 = Inr (abs_path (cwd fs0))" using ok by (simp add: Getwd_def fs_ok_def)
  show ?thesis
  proof (cases "TempDir tmp ''wbgotest'' rnd fs0")
    case (Inl e)
    with d g b show ?thesis
      by (simp add: NewDataFileFixture_def bind_test_def Ckf_value_def SetupTempDir_def)
  next
    case (Inr r)
    then obtain dir fs1 where r: "TempDir tmp ''wbgotest'' rnd fs0 = Inr (dir, fs1)" by (cases r) auto
    from TempDir_fresh [OF r ok assms(2)] obtain ds where
      ds: "dir = abs_path ds" "fresh_dir ds fs0" "same_outside ds fs0 fs1" by auto
    have "same_outside ds fs0 (case Chdir dir fs1 of Inl e \<Rightarrow> fs1 | Inr fs' \<Rightarrow> fs')"
      using ds(3) by (auto simp: Chdir_def same_outside_def split: option.split fs_node.split)
    with d g r ds show ?thesis
      by (auto simp: NewDataFileFixture_def bind_test_def Ckf_value_def SetupTempDir_def)
  qed
qed

lemma torn_down_restores:
  assumes "fresh_dir ds fs0" "same_outside ds fs0 (disk w)" "df_wd f = abs_path (cwd fs0)"
    "rmDataFileDir f = (abs_path ds, abs_path (cwd fs0))"
  shows "TearDownDataFiles f w = (Inr (), w\<lparr>disk := fs0, oldRmDataDir := None\<rparr>)"
proof -
  let ?w = "rm_dir (rmDataFileDir f) (w\<lparr>oldRmDataDir := None\<rparr>)"
  have "disk ?w = fs0" using rm_dir_restores [OF assms(1), of "w\<lparr>oldRmDataDir := None\<rparr>"] assms(2,4) by simp
  then have w: "?w = w\<lparr>disk := fs0, oldRmDataDir := None\<rparr>" by (simp add: rm_dir_def Let_def)
  have "list_all plain (cwd fs0)" "node_at fs0 (cwd fs0) = Some Directory"
    using assms(1) by (auto simp: fresh_dir_def fs_ok_def)
  then have "Chdir (abs_path (cwd fs0)) fs0 = Inr fs0" by (simp add: Chdir_def resolve_abs_path)
  with w assms(3) show ?thesis by (simp add: TearDownDataFiles_def Ckf_def)
qed

lemma run_test_between:
  assumes "between_tests fs0 w" "is_rooted tmp" "list_all op_inside ks"
  shows "between_tests fs0 (run_test tmp (rnd, ks, b) w)" "b \<Longrightarrow> disk (run_test tmp (rnd, ks, b) w) = fs0"
proof -
  have "between_tests fs0 (run_test tmp (rnd, ks, b) w) \<and> (b \<longrightarrow> disk (run_test tmp (rnd, ks, b) w) = fs0)"
  proof (cases "NewDataFileFixture tmp rnd w")
    case (Pair r w1)
    show ?thesis
    proof (cases r)
      case (Inl e)
      with Pair fresh_setup [OF assms(1,2), of rnd] show ?thesis by (simp add: run_test_def)
    next
      case (Inr f)
      with Pair fresh_setup [OF assms(1,2), of rnd] obtain ds where
        f: "fresh_dir ds fs0" "same_outside ds fs0 (disk w1)" "dataFileTempDir f = abs_path ds"
          "df_wd f = abs_path (cwd fs0)" "rmDataFileDir f = (abs_path ds, abs_path (cwd fs0))"
          "oldRmDataDir w1 = Some (rmDataFileDir f)" by auto
      let ?w2 = "snd (run_ops f ks w1)"
      have w2: "same_outside ds fs0 (disk ?w2)" "oldRmDataDir ?w2 = oldRmDataDir w1"
        using keeps_ops [OF f(1,3) assms(3)] f(2) by (simp_all add: keeps_outside_def)
      have ok: "fs_ok fs0" using assms(1) by (simp add: between_tests_def)
      from w2 f ok torn_down_restores [OF f(1) w2(1) f(4,5)] Pair Inr show ?thesis
        by (auto simp: run_test_def between_tests_def Let_def)
    qed
  qed
  then show "between_tests fs0 (run_test tmp (rnd, ks, b) w)" "b \<Longrightarrow> disk (run_test tmp (rnd, ks, b) w) = fs0"
    by blast+
qed

text \<open>
  C19. Tests with data files leave no trace: after any sequence of tests, some of which fail half-way
  and some of which are never torn down, the file system and the current directory are what they were
  before the first test, once the last test is torn down; whatever the tests copy, write and
  remove under names without two dots, and wherever they change to.
\<close>

theorem data_files_leave_no_trace:
  assumes "fs_ok fs0" "is_rooted tmp" "\<forall>(rnd, ks, b)\<in>set (ts @ [t]). list_all op_inside ks" "snd (snd t)"
  shows "disk (fold (run_test tmp) (ts @ [t]) \<lparr>disk = fs0, oldRmDataDir = None\<rparr>) = fs0"
proof -
  have "between_tests fs0 \<lparr>disk = fs0, oldRmDataDir = None\<rparr>" using assms(1) by (simp add: between_tests_def)
  then have b: "between_tests fs0 (fold (run_test tmp) ts \<lparr>disk = fs0, oldRmDataDir = None\<rparr>)"
    by (rule fold_preserves) (use assms(2,3) in \<open>auto intro: run_test_between(1)\<close>)
  obtain rnd ks where t: "t = (rnd, ks, True)" using assms(4) by (cases t) auto
  with run_test_between(2) [OF b assms(2), of ks True rnd] assms(3) show ?thesis by simp
qed

text \<open>A disk with one source file, and a test that copies it, edits the copy and changes the directory.\<close>

definition demo_disk :: file_system where
  "demo_disk =
     \<lparr>nodes = fmap_of_list [([], Directory), ([''tmp''], Directory), ([''src''], Directory),
        ([''src'', ''a.js''], File ''x'')],
      cwd = [''src'']\<rparr>"

lemma demo_disk_ok: "fs_ok demo_disk"
  by (auto simp: fs_ok_def demo_disk_def fmlookup_of_list plain_def DOT_def DOTDOT_def append_eq_Cons_conv
      split: if_splits)

definition demo_ops :: "df_op list" where
  "demo_ops = [CopyFiles [''a.js:sub/b.js''], ChangeDir ''/'', RmData ''sub/b.js'', WriteData ''c'' ''y'']"

lemma demo_ops_inside: "list_all op_inside demo_ops"
  by (simp add: demo_ops_def inside_def source_target_def DOTDOT_def)

theorem data_files_leave_no_trace_witness:
  "disk (fold (run_test ''/tmp'') [(''1'', demo_ops, False), (''2'', demo_ops, True)]
     \<lparr>disk = demo_disk, oldRmDataDir = None\<rparr>) = demo_disk"
  using data_files_leave_no_trace [OF demo_disk_ok, of "''/tmp''" "[(''1'', demo_ops, False)]" "(''2'', demo_ops, True)"]
  by (simp add: demo_ops_inside is_rooted_def)

section \<open>Copies\<close>

text \<open>What making the directories of a target does.\<close>

lemma ensureTargetDirs_result:
  assumes "list_all plain ds" "ds \<noteq> []" "dataFileTempDir f = abs_path ds" "inside name"
  defines "es \<equiv> ds @ down name"
  shows "ensureTargetDirs f name w =
    (if CHR ''/'' \<notin> set name then (Inr (abs_path es), w)
     else if list_all (\<lambda>q. node_at (disk w) q \<in> {None, Some Directory}) (prefixes (butlast es))
     then (Inr (abs_path es), w\<lparr>disk := fold (\<lambda>q. put q Directory) (prefixes (butlast es)) (disk w)\<rparr>)
     else (Inl ''MkdirAll'', w))"
  using DataFilePath_inside [OF assms(1,3,4)] resolve_Dir [of es "disk w"] assms(2)
  by (simp add: ensureTargetDirs_def Let_def bind_test_def Ckf_def MkdirAll_def return_test_def es_def
      del: prefixes_snoc)

lemma prefix_butlast: "es \<noteq> [] \<Longrightarrow> Sublist.prefix q (butlast es) \<longleftrightarrow> Sublist.strict_prefix q es"
  by (cases es rule: rev_cases) (auto simp: strict_prefix_def)

lemma copy_unfold:
  "CopyDataFileToTempDir f source target w =
     (case ReadFile (Join2 (df_wd f) source) (disk w) of
        Inl e \<Rightarrow> (Inl ''ReadFile()'', w)
      | Inr data \<Rightarrow>
          (case ensureTargetDirs f target w of
             (Inl e, w1) \<Rightarrow> (Inl e, w1)
           | (Inr p, w1) \<Rightarrow>
               (case WriteFile p data (disk w1) of
                  Inl e \<Rightarrow> (Inl ''WriteFile'', w1)
                | Inr fs \<Rightarrow> (Inr p, w1\<lparr>disk := fs\<rparr>))))"
  by (simp add: CopyDataFileToTempDir_def readSourceDataFile_def write_target_def bind_test_def Ckf_value_def
      Ckf_def return_test_def split: sum.split prod.split)

text \<open>
  A copy of a data file has the content of its source, and nothing that was there is changed. It
  succeeds exactly when the source can be read, no directory is in the place of the target, and the
  target's directory is there, or, for a target with a slash, can be made because no file is in the way.
\<close>

theorem copy_round_trip:
  assumes "list_all plain ds" "ds \<noteq> []" "dataFileTempDir f = abs_path ds" "inside target"
    and "CopyDataFileToTempDir f source target w = (r, w')"
  shows "((\<exists>p. r = Inr p) \<longleftrightarrow>
      (\<exists>data. ReadFile (Join2 (df_wd f) source) (disk w) = Inr data) \<and>
      node_at (disk w) (ds @ down target) \<noteq> Some Directory \<and>
      (if CHR ''/'' \<in> set target
       then \<forall>q. Sublist.strict_prefix q (ds @ down target) \<longrightarrow> node_at (disk w) q \<in> {None, Some Directory}
       else node_at (disk w) (ds @ down target) \<noteq> None \<or> node_at (disk w) (butlast (ds @ down target)) = Some Directory)) \<and>
    (\<forall>p. r = Inr p \<longrightarrow> p = abs_path (ds @ down target) \<and>
      ReadFile p (disk w') = ReadFile (Join2 (df_wd f) source) (disk w) \<and>
      (\<forall>q n. node_at (disk w) q = Some n \<longrightarrow> q \<noteq> ds @ down target \<longrightarrow> node_at (disk w') q = Some n))"
proof -
  let ?es = "ds @ down target"
  have es: "?es \<noteq> []" "list_all plain ?es" using assms(1,2) DataFilePath_inside [OF assms(1,3,4)] by simp_all
  note dirs = ensureTargetDirs_result [OF assms(1-4), of w]
  note pre = prefix_butlast [OF es(1)]
  have all: "list_all P (prefixes (butlast ?es)) \<longleftrightarrow> (\<forall>q. Sublist.strict_prefix q ?es \<longrightarrow> P q)" for P
    using pre by (auto simp: list_all_iff)
  note simps = copy_unfold dirs resolve_abs_path [OF es(2)] WriteFile_def ReadFile_def create_def Let_def node_at_puts all pre
  show ?thesis
  proof (cases "CHR ''/'' \<in> set target")
    case True
    with assms(5) show ?thesis
      by (auto simp: simps split: sum.splits if_splits option.splits fs_node.splits)
  next
    case False
    with assms(5) show ?thesis
      by (auto simp: simps split: sum.splits if_splits option.splits fs_node.splits)
  qed
qed

lemma copy_round_trip_witness:
  "\<exists>p w'. CopyDataFileToTempDir \<lparr>df_wd = ''/src'', dataFileTempDir = abs_path [''tmp''], rmDataFileDir = ([], [])\<rparr>
     ''a.js'' ''sub/b.js'' \<lparr>disk = demo_disk, oldRmDataDir = None\<rparr> = (Inr p, w') \<and>
     ReadFile p (disk w') = Inr ''x''"
proof -
  let ?f = "\<lparr>df_wd = ''/src'', dataFileTempDir = abs_path [''tmp''], rmDataFileDir = ([], [])\<rparr>"
  let ?w = "\<lparr>disk = demo_disk, oldRmDataDir = None\<rparr>"
  obtain r w' where c: "CopyDataFileToTempDir ?f ''a.js'' ''sub/b.js'' ?w = (r, w')"
    by (cases "CopyDataFileToTempDir ?f ''a.js'' ''sub/b.js'' ?w")
  have h: "list_all plain [''tmp'']" "inside ''sub/b.js''" "down ''sub/b.js'' = [''sub'', ''b.js'']"
    by (simp_all add: plain_def DOT_def DOTDOT_def inside_def down_def)
  have "Join2 ''/src'' ''a.js'' = abs_path [''src'', ''a.js'']"
    by (simp add: Join2_def Clean_def is_rooted_def DOT_def DOTDOT_def abs_path_def)
  then have src: "ReadFile (Join2 ''/src'' ''a.js'') demo_disk = Inr ''x''"
    using resolve_abs_path [of "[''src'', ''a.js'']" demo_disk]
    by (simp add: ReadFile_def demo_disk_def plain_def DOT_def DOTDOT_def)
  have t: "node_at demo_disk [''tmp'', ''sub'', ''b.js''] = None"
    "Sublist.strict_prefix q [''tmp'', ''sub'', ''b.js''] \<Longrightarrow> node_at demo_disk q \<in> {None, Some Directory}" for q
    by (auto simp: demo_disk_def strict_prefix_def prefix_Cons)
  from copy_round_trip [OF h(1) _ _ h(2) c] h(3) src t c show ?thesis by auto
qed

end
