(* ===== verification/Utf8.thy ===== *)
theory Utf8
  imports Prelude
begin

text \<open>
  UTF-8 as the sources use it through \<open>unicode/utf8\<close>, \<open>encoding/json\<close> and \<open>unicode\<close>: the first rune
  of a byte string with the number of bytes it takes, and the bytes of a rune. Bytes that do not
  start a valid encoding decode to \<open>RuneError\<close> (U+FFFD) and take one byte.
\<close>

definition RuneError :: nat where "RuneError = 65533"

abbreviation byte :: "char \<Rightarrow> nat" where "byte c \<equiv> of_char c"

definition within :: "nat \<Rightarrow> nat \<Rightarrow> nat \<Rightarrow> bool" where
  "within lo hi b \<longleftrightarrow> lo \<le> b \<and> b \<le> hi"

abbreviation cont :: "nat \<Rightarrow> bool" where "cont \<equiv> within 128 191"

definition decode2 :: "nat \<Rightarrow> nat list \<Rightarrow> (nat \<times> nat) option" where
  "decode2 b0 bs =
     (case bs of
        b1 # _ \<Rightarrow> if cont b1 then Some ((b0 - 192) * 64 + (b1 - 128), 2) else None
      | _ \<Rightarrow> None)"

definition decode3 :: "nat \<Rightarrow> nat list \<Rightarrow> (nat \<times> nat) option" where
  "decode3 b0 bs =
     (let lo = (if b0 = 224 then 160 else 128); hi = (if b0 = 237 then 159 else 191) in
      case bs of
        b1 # b2 # _ \<Rightarrow>
          if within lo hi b1 \<and> cont b2
          then Some ((b0 - 224) * 4096 + (b1 - 128) * 64 + (b2 - 128), 3) else None
      | _ \<Rightarrow> None)"

definition decode4 :: "nat \<Rightarrow> nat list \<Rightarrow> (nat \<times> nat) option" where
  "decode4 b0 bs =
     (let lo = (if b0 = 240 then 144 else 128); hi = (if b0 = 244 then 143 else 191) in
      case bs of
        b1 # b2 # b3 # _ \<Rightarrow>
          if within lo hi b1 \<and> cont b2 \<and> cont b3
          then Some ((b0 - 240) * 262144 + (b1 - 128) * 4096 + (b2 - 128) * 64 + (b3 - 128), 4)
          else None
      | _ \<Rightarrow> None)"

definition decode_bytes :: "nat \<Rightarrow> nat list \<Rightarrow> (nat \<times> nat) option" where
  "decode_bytes b0 bs =
     (if b0 < 128 then Some (b0, 1)
      else if b0 < 194 then None
      else if b0 < 224 then decode2 b0 bs
      else if b0 < 240 then decode3 b0 bs
      else if b0 < 245 then decode4 b0 bs
      else None)"

definition DecodeRune :: "string \<Rightarrow> nat \<times> nat" where
  "DecodeRune s =
     (case map byte s of
        [] \<Rightarrow> (RuneError, 0)
      | b0 # bs \<Rightarrow> (case decode_bytes b0 bs of None \<Rightarrow> (RuneError, 1) | Some r \<Rightarrow> r))"

text \<open>The bytes of a rune; a surrogate or a number past U+10FFFF is written as \<open>RuneError\<close>.\<close>

definition surrogate :: "nat \<Rightarrow> bool" where
  "surrogate r \<longleftrightarrow> 55296 \<le> r \<and> r \<le> 57343"

definition EncodeRune :: "nat \<Rightarrow> string" where
  "EncodeRune r =
     (let r = (if surrogate r \<or> 1114111 < r then RuneError else r) in
      map char_of
        (if r < 128 then [r]
         else if r < 2048 then [192 + r div 64, 128 + r mod 64]
         else if r < 65536 then [224 + r div 4096, 128 + r div 64 mod 64, 128 + r mod 64]
         else [240 + r div 262144, 128 + r div 4096 mod 64, 128 + r div 64 mod 64, 128 + r mod 64]))"

section \<open>ASCII\<close>

lemma DecodeRune_ascii: "byte c < 128 \<Longrightarrow> DecodeRune (c # s) = (byte c, 1)"
  by (simp add: DecodeRune_def decode_bytes_def)

lemma EncodeRune_ascii: "n < 128 \<Longrightarrow> EncodeRune n = [char_of n]"
  by (simp add: EncodeRune_def surrogate_def)

end
