(* ===== verification/Rpc_Types.thy ===== *)
theory Rpc_Types
  imports Utf8
begin

text \<open>
  The part of rpc.go that works on types: which methods of a receiver are suitable, and the
  registration of a receiver as a service. A Go type is what the code asks \<open>reflect\<close> about one: its
  name, its package path and, for a pointer, its element.
\<close>

datatype gotype =
    Plain string string
  | Pointer string string gotype

fun type_name :: "gotype \<Rightarrow> string" where
  "type_name (Plain n p) = n"
| "type_name (Pointer n p t) = n"

fun pkg_path :: "gotype \<Rightarrow> string" where
  "pkg_path (Plain n p) = p"
| "pkg_path (Pointer n p t) = p"

fun is_pointer :: "gotype \<Rightarrow> bool" where
  "is_pointer (Plain n p) = False"
| "is_pointer (Pointer n p t) = True"

text \<open>\<open>PtrTo\<close>, and \<open>Indirect\<close> followed by \<open>Type\<close>: one pointer is removed.\<close>

definition PtrTo :: "gotype \<Rightarrow> gotype" where
  "PtrTo t = Pointer [] [] t"

fun indirect_type :: "gotype \<Rightarrow> gotype" where
  "indirect_type (Pointer n p t) = t"
| "indirect_type t = t"

definition typeOfError :: gotype where
  "typeOfError = Plain ''error'' []"

record go_method =
  method_name :: string
  method_pkg :: string
  method_ins :: "gotype list"
  method_outs :: "gotype list"

text \<open>
  \<open>unicode.IsUpper\<close>: ASCII and Latin-1 letters are spelt out, the table of the other upper case
  letters is a parameter.
\<close>

definition IsUpper :: "(nat \<Rightarrow> bool) \<Rightarrow> nat \<Rightarrow> bool" where
  "IsUpper table r \<longleftrightarrow>
     (if r \<le> 255 then 65 \<le> r \<and> r \<le> 90 \<or> 192 \<le> r \<and> r \<le> 222 \<and> r \<noteq> 215 else table r)"

definition isExported :: "(nat \<Rightarrow> bool) \<Rightarrow> string \<Rightarrow> bool" where
  "isExported table name \<longleftrightarrow> IsUpper table (fst (DecodeRune name))"

fun isExportedOrBuiltinType :: "(nat \<Rightarrow> bool) \<Rightarrow> gotype \<Rightarrow> bool" where
  "isExportedOrBuiltinType table (Pointer n p t) = isExportedOrBuiltinType table t"
| "isExportedOrBuiltinType table (Plain n p) \<longleftrightarrow> isExported table n \<or> p = []"

record methodType =
  mtype_name :: string
  ArgType :: gotype
  ReplyType :: gotype
  numCalls :: nat

text \<open>One round of the loop of \<open>suitableMethods\<close>: the entry of a method, or \<open>continue\<close>.\<close>

definition suitableMethod :: "(nat \<Rightarrow> bool) \<Rightarrow> go_method \<Rightarrow> methodType option" where
  "suitableMethod table m =
     (if method_pkg m \<noteq> [] then None
      else if length (method_ins m) \<noteq> 3 then None
      else if \<not> isExportedOrBuiltinType table (method_ins m ! 1) then None
      else if \<not> is_pointer (method_ins m ! 2) then None
      else if \<not> isExportedOrBuiltinType table (method_ins m ! 2) then None
      else if length (method_outs m) \<noteq> 1 then None
      else if method_outs m ! 0 \<noteq> typeOfError then None
      else Some \<lparr>mtype_name = method_name m, ArgType = method_ins m ! 1, ReplyType = method_ins m ! 2, numCalls = 0\<rparr>)"

definition suitableMethods :: "(nat \<Rightarrow> bool) \<Rightarrow> go_method list \<Rightarrow> (string \<rightharpoonup> methodType)" where
  "suitableMethods table ms =
     fold (\<lambda>m methods. case suitableMethod table m of
             None \<Rightarrow> methods
           | Some mt \<Rightarrow> methods(method_name m \<mapsto> mt)) ms Map.empty"

text \<open>
  A receiver: its type, its methods and those of the pointer type, in the order \<open>reflect\<close> lists
  them, and whether it is nil (an empty interface or a nil pointer).
\<close>

record receiver =
  rcvr_type :: gotype
  rcvr_methods :: "go_method list"
  ptr_methods :: "go_method list"
  rcvr_nil :: bool

record service =
  service_name :: string
  service_method :: "string \<rightharpoonup> methodType"

datatype register_error =
    NoServiceName gotype
  | NotExported string
  | AlreadyDefined string
  | NoMethods string bool

text \<open>
  \<open>register\<close>: the new map of services, or the error. The flag of \<open>NoMethods\<close> is the hint to pass a
  pointer. A nil receiver has no value to take the type of, which panics.
\<close>

definition register ::
  "(nat \<Rightarrow> bool) \<Rightarrow> receiver \<Rightarrow> string \<Rightarrow> bool \<Rightarrow> (string \<rightharpoonup> service)
     \<Rightarrow> (register_error + (string \<rightharpoonup> service)) res" where
  "register table rcvr name useName services =
     (if rcvr_nil rcvr then Inl NilDereference
      else
        (let sname = type_name (indirect_type (rcvr_type rcvr));
             sname = (if useName then name else sname) in
         if sname = [] then Inr (Inl (NoServiceName (rcvr_type rcvr)))
         else if \<not> isExported table sname \<and> \<not> useName then Inr (Inl (NotExported sname))
         else if services sname \<noteq> None then Inr (Inl (AlreadyDefined sname))
         else
           (let ms = suitableMethods table (rcvr_methods rcvr) in
            if ms = Map.empty
            then Inr (Inl (NoMethods sname (suitableMethods table (ptr_methods rcvr) \<noteq> Map.empty)))
            else Inr (Inr (services(sname \<mapsto> \<lparr>service_name = sname, service_method = ms\<rparr>))))))"

definition Register ::
  "(nat \<Rightarrow> bool) \<Rightarrow> receiver \<Rightarrow> (string \<rightharpoonup> service) \<Rightarrow> (register_error + (string \<rightharpoonup> service)) res" where
  "Register table rcvr = register table rcvr [] False"

definition RegisterName ::
  "(nat \<Rightarrow> bool) \<Rightarrow> string \<Rightarrow> receiver \<Rightarrow> (string \<rightharpoonup> service)
     \<Rightarrow> (register_error + (string \<rightharpoonup> service)) res" where
  "RegisterName table name rcvr = register table rcvr name True"

section \<open>What is registered\<close>

text \<open>The documented conditions on a method, as one predicate.\<close>

definition rpc_method :: "(nat \<Rightarrow> bool) \<Rightarrow> go_method \<Rightarrow> bool" where
  "rpc_method table m \<longleftrightarrow>
     method_pkg m = [] \<and>
     (\<exists>rcvr arg n p reply. method_ins m = [rcvr, arg, Pointer n p reply] \<and>
        isExportedOrBuiltinType table arg \<and> isExportedOrBuiltinType table reply) \<and>
     method_outs m = [typeOfError]"

lemma length_3: "length xs = 3 \<longleftrightarrow> (\<exists>a b c. xs = [a, b, c])"
  by (auto simp: numeral_3_eq_3 length_Suc_conv)

lemma length_1: "length xs = 1 \<longleftrightarrow> (\<exists>a. xs = [a])"
  by (auto simp: length_Suc_conv)

lemma is_pointer_iff: "is_pointer t \<longleftrightarrow> (\<exists>n p u. t = Pointer n p u)"
  by (cases t) auto

lemma suitableMethod_iff: "suitableMethod table m \<noteq> None \<longleftrightarrow> rpc_method table m"
proof
  assume "suitableMethod table m \<noteq> None"
  then show "rpc_method table m"
    unfolding suitableMethod_def rpc_method_def
    by (auto simp: length_3 length_1 [unfolded One_nat_def] is_pointer_iff split: if_splits)
next
  assume "rpc_method table m"
  then show "suitableMethod table m \<noteq> None"
    by (auto simp: suitableMethod_def rpc_method_def)
qed

lemma suitableMethod_Some:
  "suitableMethod table m = Some mt \<Longrightarrow>
     mtype_name mt = method_name m \<and> ArgType mt = method_ins m ! 1 \<and> ReplyType mt = method_ins m ! 2 \<and> is_pointer (ReplyType mt) \<and>
     numCalls mt = 0"
  by (auto simp: suitableMethod_def split: if_splits)

text \<open>Methods of a type have different names.\<close>

lemma suitableMethods_eq:
  assumes "distinct (map method_name ms)"
  shows "suitableMethods table ms n =
    (case find (\<lambda>m. method_name m = n) ms of None \<Rightarrow> None | Some m \<Rightarrow> suitableMethod table m)"
proof -
  let ?f = "\<lambda>m methods. case suitableMethod table m of
             None \<Rightarrow> methods | Some mt \<Rightarrow> methods(method_name m \<mapsto> mt)"
  have "fold ?f ms r n = (case find (\<lambda>m. method_name m = n) ms of
      None \<Rightarrow> r n | Some m \<Rightarrow> (case suitableMethod table m of None \<Rightarrow> r n | Some mt \<Rightarrow> Some mt))" for r
    using assms
  proof (induction ms arbitrary: r)
    case (Cons m ms)
    from Cons.prems have "method_name m \<notin> method_name ` set ms" by simp
    then have other: "find (\<lambda>m'. method_name m' = n) ms = None" if "method_name m = n"
      using that by (force simp: find_None_iff image_iff)
    show ?case
      using Cons other by (cases "method_name m = n") (auto split: option.splits)
  qed simp
  then show ?thesis
    by (simp add: suitableMethods_def option.case_eq_if)
qed

lemma register_cases:
  assumes "register table rcvr name useName services = Inr r"
  defines "sname \<equiv> if useName then name else type_name (indirect_type (rcvr_type rcvr))"
  shows "(\<exists>e. r = Inl e) \<or>
    sname \<noteq> [] \<and> (useName \<or> isExported table sname) \<and> services sname = None \<and>
    suitableMethods table (rcvr_methods rcvr) \<noteq> Map.empty \<and>
    r = Inr (services(sname \<mapsto>
      \<lparr>service_name = sname, service_method = suitableMethods table (rcvr_methods rcvr)\<rparr>))"
  using assms by (auto simp: register_def Let_def split: if_splits)

end
