(* ===== verification/Json_Text.thy ===== *)
theory Json_Text
  imports Utf8
begin

text \<open>
  JSON texts as \<open>encoding/json\<close> reads and writes them. Reading is a lexer and the state machine of
  the package's scanner (what may come next, and a stack of the open objects and arrays), so it
  needs no recursion on nesting. A number is kept as its literal; the members of an object are kept
  in order, duplicates included. A \<open>json.RawMessage\<close> is the value its text denotes.
\<close>

datatype json =
    JNull
  | JBool bool
  | JNumber string
  | JString string
  | JArray "json list"
  | JObject "(string \<times> json) list"

section \<open>String literals\<close>

text \<open>A piece of a string literal: a byte that stands for itself, or an escaped UTF-16 unit.\<close>

datatype piece = Raw char | Unit nat

definition hex_value :: "char \<Rightarrow> nat option" where
  "hex_value c =
     (let b = byte c in
      if 48 \<le> b \<and> b \<le> 57 then Some (b - 48)
      else if 97 \<le> b \<and> b \<le> 102 then Some (b - 87)
      else if 65 \<le> b \<and> b \<le> 70 then Some (b - 55)
      else None)"

definition getu4 :: "char \<Rightarrow> char \<Rightarrow> char \<Rightarrow> char \<Rightarrow> nat option" where
  "getu4 a b c d =
     (case (hex_value a, hex_value b, hex_value c, hex_value d) of
        (Some w, Some x, Some y, Some z) \<Rightarrow> Some (((w * 16 + x) * 16 + y) * 16 + z)
      | _ \<Rightarrow> None)"

definition simple_escape :: "char \<Rightarrow> char option" where
  "simple_escape c =
     (if c = CHR 0x22 \<or> c = CHR 0x5C \<or> c = CHR 0x2F then Some c
      else if c = CHR ''b'' then Some (CHR 0x08)
      else if c = CHR ''f'' then Some (CHR 0x0C)
      else if c = CHR ''n'' then Some (CHR 0x0A)
      else if c = CHR ''r'' then Some (CHR 0x0D)
      else if c = CHR ''t'' then Some (CHR 0x09)
      else None)"

text \<open>The pieces up to the closing quote, and what follows it.\<close>

fun scan_string :: "string \<Rightarrow> (piece list \<times> string) option" where
  "scan_string [] = None"
| "scan_string (c # cs) =
     (if c = CHR 0x22 then Some ([], cs)
      else if c = CHR 0x5C then
        (case cs of
           [] \<Rightarrow> None
         | e # cs1 \<Rightarrow>
             if e = CHR ''u'' then
               (case cs1 of
                  h1 # h2 # h3 # h4 # cs2 \<Rightarrow>
                    (case getu4 h1 h2 h3 h4 of
                       None \<Rightarrow> None
                     | Some u \<Rightarrow> map_option (apfst ((#) (Unit u))) (scan_string cs2))
                | _ \<Rightarrow> None)
             else
               (case simple_escape e of
                  None \<Rightarrow> None
                | Some d \<Rightarrow> map_option (apfst ((#) (Raw d))) (scan_string cs1)))
      else if byte c < 32 then None
      else map_option (apfst ((#) (Raw c))) (scan_string cs))"

fun raw_prefix :: "piece list \<Rightarrow> string" where
  "raw_prefix (Raw c # ps) = c # raw_prefix ps"
| "raw_prefix _ = []"

text \<open>
  The bytes of the pieces: a pair of surrogates is one rune, a lone surrogate and a byte that is
  not UTF-8 become \<open>RuneError\<close>.
\<close>

function (sequential) unquote :: "piece list \<Rightarrow> string" where
  "unquote [] = []"
| "unquote (Unit u # ps) =
     (if surrogate u then
        (case ps of
           Unit v # ps' \<Rightarrow>
             (if u < 56320 \<and> 56320 \<le> v \<and> v \<le> 57343
              then EncodeRune ((u - 55296) * 1024 + (v - 56320) + 65536) @ unquote ps'
              else EncodeRune RuneError @ unquote ps)
         | _ \<Rightarrow> EncodeRune RuneError @ unquote ps)
      else EncodeRune u @ unquote ps)"
| "unquote (Raw c # ps) =
     (let (r, n) = DecodeRune (c # raw_prefix ps) in
      EncodeRune r @ unquote (drop (n - 1) ps))"
  by pat_completeness auto
termination by (relation "measure length") auto

section \<open>Lexing\<close>

datatype jtoken =
    TOpenObj | TCloseObj | TOpenArr | TCloseArr | TComma | TColon | TValue json

definition is_space :: "char \<Rightarrow> bool" where
  "is_space c \<longleftrightarrow> c = CHR 0x20 \<or> c = CHR 0x09 \<or> c = CHR 0x0A \<or> c = CHR 0x0D"

definition is_digit :: "char \<Rightarrow> bool" where
  "is_digit c \<longleftrightarrow> 48 \<le> byte c \<and> byte c \<le> 57"

definition digit_run :: "string \<Rightarrow> (string \<times> string) option" where
  "digit_run s = (if takeWhile is_digit s = [] then None else Some (takeWhile is_digit s, dropWhile is_digit s))"

definition scan_sign :: "string \<Rightarrow> string \<times> string" where
  "scan_sign s = (case s of c # cs \<Rightarrow> if c = CHR ''-'' then ([c], cs) else ([], s) | [] \<Rightarrow> ([], s))"

text \<open>Zero is not followed by more digits of the integer part.\<close>

definition scan_int :: "string \<Rightarrow> (string \<times> string) option" where
  "scan_int s = (case s of c # cs \<Rightarrow> if c = CHR ''0'' then Some ([c], cs) else digit_run s | [] \<Rightarrow> None)"

definition scan_frac :: "string \<Rightarrow> (string \<times> string) option" where
  "scan_frac s =
     (case s of
        c # cs \<Rightarrow> if c = CHR ''.'' then map_option (apfst ((#) c)) (digit_run cs) else Some ([], s)
      | [] \<Rightarrow> Some ([], s))"

definition scan_exp :: "string \<Rightarrow> (string \<times> string) option" where
  "scan_exp s =
     (case s of
        c # cs \<Rightarrow>
          if c = CHR ''e'' \<or> c = CHR ''E'' then
            (case cs of
               d # ds \<Rightarrow>
                 if d = CHR ''+'' \<or> d = CHR ''-'' then map_option (apfst (\<lambda>r. c # d # r)) (digit_run ds)
                 else map_option (apfst ((#) c)) (digit_run cs)
             | [] \<Rightarrow> None)
          else Some ([], s)
      | [] \<Rightarrow> Some ([], s))"

definition scan_number :: "string \<Rightarrow> (string \<times> string) option" where
  "scan_number s =
     (let (sg, s1) = scan_sign s in
      case scan_int s1 of None \<Rightarrow> None | Some (i, s2) \<Rightarrow>
      case scan_frac s2 of None \<Rightarrow> None | Some (f, s3) \<Rightarrow>
      case scan_exp s3 of None \<Rightarrow> None | Some (e, s4) \<Rightarrow> Some (sg @ i @ f @ e, s4))"

definition literal :: "string \<Rightarrow> 'a \<Rightarrow> string \<Rightarrow> ('a \<times> string) option" where
  "literal w x s = (if take (length w) s = w then Some (x, drop (length w) s) else None)"

text \<open>The first token of a text that starts with no space.\<close>

definition lex_one :: "char \<Rightarrow> string \<Rightarrow> (jtoken \<times> string) option" where
  "lex_one c cs =
     (if c = CHR ''{'' then Some (TOpenObj, cs)
      else if c = CHR ''}'' then Some (TCloseObj, cs)
      else if c = CHR ''['' then Some (TOpenArr, cs)
      else if c = CHR '']'' then Some (TCloseArr, cs)
      else if c = CHR '','' then Some (TComma, cs)
      else if c = CHR '':'' then Some (TColon, cs)
      else if c = CHR 0x22 then map_option (apfst (\<lambda>ps. TValue (JString (unquote ps)))) (scan_string cs)
      else if c = CHR ''t'' then literal ''rue'' (TValue (JBool True)) cs
      else if c = CHR ''f'' then literal ''alse'' (TValue (JBool False)) cs
      else if c = CHR ''n'' then literal ''ull'' (TValue JNull) cs
      else map_option (apfst (\<lambda>n. TValue (JNumber n))) (scan_number (c # cs)))"

text \<open>Every token takes at least one byte, so the lexer stops.\<close>

lemma scan_string_length: "scan_string s = Some (ps, r) \<Longrightarrow> length r < length s"
  by (induction s arbitrary: ps rule: scan_string.induct)
     (fastforce split: if_splits list.splits option.splits)+

lemma digit_run_length: "digit_run s = Some (d, r) \<Longrightarrow> length r < length s"
  by (cases s) (auto simp: digit_run_def le_imp_less_Suc length_dropWhile_le split: if_splits)

lemma scan_sign_length: "scan_sign s = (d, r) \<Longrightarrow> length r \<le> length s"
  by (auto simp: scan_sign_def split: list.splits if_splits)

lemma scan_int_length: "scan_int s = Some (d, r) \<Longrightarrow> length r < length s"
  by (auto simp: scan_int_def dest!: digit_run_length split: list.splits if_splits)

lemma scan_frac_length: "scan_frac s = Some (d, r) \<Longrightarrow> length r \<le> length s"
  by (auto simp: scan_frac_def dest!: digit_run_length split: list.splits if_splits)

lemma scan_exp_length: "scan_exp s = Some (d, r) \<Longrightarrow> length r \<le> length s"
  by (auto simp: scan_exp_def dest!: digit_run_length split: list.splits if_splits)

lemma scan_number_length: "scan_number s = Some (d, r) \<Longrightarrow> length r < length s"
  by (auto simp: scan_number_def Let_def split: prod.splits option.splits
      dest!: scan_sign_length scan_int_length scan_frac_length scan_exp_length)

lemma literal_length: "literal w x s = Some (y, r) \<Longrightarrow> length r \<le> length s"
  by (auto simp: literal_def split: if_splits)

lemma lex_one_length: "lex_one c cs = Some (t, r) \<Longrightarrow> length r \<le> length cs"
  by (auto simp: lex_one_def split: if_splits
      dest!: scan_string_length literal_length scan_number_length)

function (sequential) lex :: "string \<Rightarrow> jtoken list option" where
  "lex [] = Some []"
| "lex (c # cs) =
     (if is_space c then lex cs
      else (case lex_one c cs of
              None \<Rightarrow> None
            | Some (t, r) \<Rightarrow> map_option ((#) t) (lex r)))"
  by pat_completeness auto
termination
  by (relation "measure length") (auto dest!: lex_one_length)

declare lex.simps(2) [simp del]

section \<open>Parsing\<close>

datatype frame =
    InArr "json list"
  | InObj "(string \<times> json) list"
  | InField "(string \<times> json) list" string

datatype expect =
    BeginValue
  | BeginValueOrEmpty
  | BeginString
  | BeginStringOrEmpty
  | AfterKey
  | EndValue json

fun begin_value :: "jtoken \<Rightarrow> frame list \<Rightarrow> (expect \<times> frame list) option" where
  "begin_value (TValue j) stk = Some (EndValue j, stk)"
| "begin_value TOpenArr stk = Some (BeginValueOrEmpty, InArr [] # stk)"
| "begin_value TOpenObj stk = Some (BeginStringOrEmpty, InObj [] # stk)"
| "begin_value _ stk = None"

fun parse_step :: "jtoken \<Rightarrow> expect \<Rightarrow> frame list \<Rightarrow> (expect \<times> frame list) option" where
  "parse_step t BeginValue stk = begin_value t stk"
| "parse_step TCloseArr BeginValueOrEmpty (InArr vs # stk) = Some (EndValue (JArray vs), stk)"
| "parse_step t BeginValueOrEmpty stk = begin_value t stk"
| "parse_step (TValue (JString k)) BeginString (InObj ps # stk) = Some (AfterKey, InField ps k # stk)"
| "parse_step (TValue (JString k)) BeginStringOrEmpty (InObj ps # stk) = Some (AfterKey, InField ps k # stk)"
| "parse_step TCloseObj BeginStringOrEmpty (InObj ps # stk) = Some (EndValue (JObject ps), stk)"
| "parse_step TColon AfterKey stk = Some (BeginValue, stk)"
| "parse_step TComma (EndValue j) (InArr vs # stk) = Some (BeginValue, InArr (vs @ [j]) # stk)"
| "parse_step TCloseArr (EndValue j) (InArr vs # stk) = Some (EndValue (JArray (vs @ [j])), stk)"
| "parse_step TComma (EndValue j) (InField ps k # stk) = Some (BeginString, InObj (ps @ [(k, j)]) # stk)"
| "parse_step TCloseObj (EndValue j) (InField ps k # stk) = Some (EndValue (JObject (ps @ [(k, j)])), stk)"
| "parse_step _ _ _ = None"

fun parse_run :: "jtoken list \<Rightarrow> expect \<Rightarrow> frame list \<Rightarrow> json option" where
  "parse_run [] (EndValue j) [] = Some j"
| "parse_run [] _ _ = None"
| "parse_run (t # ts) e stk =
     (case parse_step t e stk of None \<Rightarrow> None | Some (e', stk') \<Rightarrow> parse_run ts e' stk')"

definition parse_json :: "string \<Rightarrow> json option" where
  "parse_json s = (case lex s of None \<Rightarrow> None | Some ts \<Rightarrow> parse_run ts BeginValue [])"

section \<open>Printing\<close>

definition hex_digit :: "nat \<Rightarrow> char" where
  "hex_digit n = (if n < 10 then char_of (48 + n) else char_of (87 + n))"

definition u00 :: "nat \<Rightarrow> string" where
  "u00 b = [CHR 0x5C, CHR ''u'', CHR ''0'', CHR ''0'', hex_digit (b div 16), hex_digit (b mod 16)]"

text \<open>
  An ASCII byte of a string, with the escapes that keep a text safe inside HTML. Other runes stand
  for themselves, but for the two line separators and bytes that are not UTF-8.
\<close>

definition quote_ascii :: "char \<Rightarrow> string" where
  "quote_ascii c =
     (if c = CHR 0x22 \<or> c = CHR 0x5C then [CHR 0x5C, c]
      else if c = CHR 0x0A then [CHR 0x5C, CHR ''n'']
      else if c = CHR 0x0D then [CHR 0x5C, CHR ''r'']
      else if c = CHR 0x09 then [CHR 0x5C, CHR ''t'']
      else if byte c < 32 \<or> c = CHR ''<'' \<or> c = CHR ''>'' \<or> c = CHR ''&'' then u00 (byte c)
      else [c])"

definition quote_rune :: "nat \<Rightarrow> string \<Rightarrow> string" where
  "quote_rune r bs =
     (if r = RuneError \<and> length bs \<le> 1 then [CHR 0x5C] @ ''ufffd''
      else if r = 8232 then [CHR 0x5C] @ ''u2028''
      else if r = 8233 then [CHR 0x5C] @ ''u2029''
      else bs)"

function (sequential) quote_body :: "string \<Rightarrow> string" where
  "quote_body [] = []"
| "quote_body (c # cs) =
     (if byte c < 128 then quote_ascii c @ quote_body cs
      else (let (r, n) = DecodeRune (c # cs) in
            quote_rune r (take n (c # cs)) @ quote_body (drop (n - 1) cs)))"
  by pat_completeness auto
termination by (relation "measure length") auto

declare quote_body.simps(2) [simp del]

definition quote :: "string \<Rightarrow> string" where
  "quote s = CHR 0x22 # quote_body s @ [CHR 0x22]"

fun render :: "json \<Rightarrow> string" where
  "render JNull = ''null''"
| "render (JBool b) = (if b then ''true'' else ''false'')"
| "render (JNumber n) = n"
| "render (JString s) = quote s"
| "render (JArray js) = ''['' @ join_with '','' (map render js) @ '']''"
| "render (JObject ps) =
     ''{'' @ join_with '','' (map (\<lambda>p. quote (fst p) @ '':'' @ render (snd p)) ps) @ ''}''"

section \<open>What is printed is read back\<close>

definition ascii :: "string \<Rightarrow> bool" where
  "ascii s \<longleftrightarrow> (\<forall>c\<in>set s. byte c < 128)"

lemma ascii_simps [simp]: "ascii []" "ascii (c # s) \<longleftrightarrow> byte c < 128 \<and> ascii s"
  by (auto simp: ascii_def)

definition ascii_piece :: "char \<Rightarrow> piece" where
  "ascii_piece c =
     (if (byte c < 32 \<and> c \<noteq> CHR 0x0A \<and> c \<noteq> CHR 0x0D \<and> c \<noteq> CHR 0x09)
        \<or> c = CHR ''<'' \<or> c = CHR ''>'' \<or> c = CHR ''&''
      then Unit (byte c) else Raw c)"

lemma hex_value_digit: "n < 16 \<Longrightarrow> hex_value (hex_digit n) = Some n"
  by (auto simp: hex_value_def hex_digit_def)

lemma scan_u00: "n < 128 \<Longrightarrow>
    scan_string (u00 n @ y) = map_option (apfst ((#) (Unit n))) (scan_string y)"
proof -
  assume "n < 128"
  then have "hex_value (hex_digit (n div 16)) = Some (n div 16)" "hex_value (hex_digit (n mod 16)) = Some (n mod 16)"
    by (auto intro: hex_value_digit)
  moreover have "hex_value (CHR ''0'') = Some 0" by (simp add: hex_value_def)
  ultimately show ?thesis by (simp add: u00_def getu4_def)
qed

lemma scan_plain:
  "32 \<le> byte c \<Longrightarrow> c \<noteq> CHR 0x22 \<Longrightarrow> c \<noteq> CHR 0x5C \<Longrightarrow>
     scan_string (c # y) = map_option (apfst ((#) (Raw c))) (scan_string y)"
  by simp

lemma scan_quote_ascii:
  assumes "byte c < 128"
  shows "scan_string (quote_ascii c @ y) = map_option (apfst ((#) (ascii_piece c))) (scan_string y)"
proof -
  consider "c = CHR 0x22 \<or> c = CHR 0x5C \<or> c = CHR 0x0A \<or> c = CHR 0x0D \<or> c = CHR 0x09"
    | "ascii_piece c = Unit (byte c)" "quote_ascii c = u00 (byte c)"
    | "ascii_piece c = Raw c" "quote_ascii c = [c]" "32 \<le> byte c" "c \<noteq> CHR 0x22" "c \<noteq> CHR 0x5C"
  proof (cases "c = CHR 0x22 \<or> c = CHR 0x5C \<or> c = CHR 0x0A \<or> c = CHR 0x0D \<or> c = CHR 0x09")
    case True
    then show ?thesis by (rule that(1))
  next
    case False
    then have "ascii_piece c = Unit (byte c) \<and> quote_ascii c = u00 (byte c) \<or>
        ascii_piece c = Raw c \<and> quote_ascii c = [c] \<and> 32 \<le> byte c"
      by (auto simp: ascii_piece_def quote_ascii_def not_less)
    with False that(2,3) show ?thesis by blast
  qed
  then show ?thesis
  proof cases
    case 1
    then show ?thesis
      by (elim disjE) (simp_all add: quote_ascii_def ascii_piece_def simple_escape_def)
  next
    case 2
    with assms scan_u00 show ?thesis by simp
  next
    case 3
    then show ?thesis using scan_plain by simp
  qed
qed

lemma scan_quote_body:
  "ascii s \<Longrightarrow> scan_string (quote_body s @ CHR 0x22 # y) = Some (map ascii_piece s, y)"
  by (induction s) (simp_all add: quote_body.simps(2) scan_quote_ascii del: scan_string.simps(2),
    simp)

lemma unquote_ascii: "ascii s \<Longrightarrow> unquote (map ascii_piece s) = s"
proof (induction s)
  case (Cons c s)
  then have b: "byte c < 128" by simp
  have "unquote (ascii_piece c # ps) = c # unquote ps" for ps
    using b DecodeRune_ascii [OF b] by (auto simp: ascii_piece_def EncodeRune_ascii surrogate_def)
  with Cons show ?case by simp
qed simp

text \<open>A number is printed as it is read when what follows it is no part of a number.\<close>

definition stop :: "string \<Rightarrow> bool" where
  "stop x \<longleftrightarrow> (case x of [] \<Rightarrow> True | c # _ \<Rightarrow> c = CHR '','' \<or> c = CHR ''}'' \<or> c = CHR '']'')"

lemma stop_simps [simp]:
  "stop []" "stop (CHR '','' # x)" "stop (CHR ''}'' # x)" "stop (CHR '']'' # x)"
  by (simp_all add: stop_def)

lemma digit_run_append:
  assumes "digit_run s = Some (d, r)" "stop x"
  shows "digit_run (s @ x) = Some (d, r @ x)"
proof -
  from assms(2) have x: "takeWhile is_digit x = []" "dropWhile is_digit x = x"
    by (auto simp: stop_def is_digit_def split: list.splits)
  have "takeWhile is_digit (s @ x) = takeWhile is_digit s \<and>
      dropWhile is_digit (s @ x) = dropWhile is_digit s @ x"
    by (induction s) (auto simp: x)
  with assms(1) show ?thesis by (auto simp: digit_run_def split: if_splits)
qed

lemmas digit_run_append_Cons = digit_run_append [of "c # cs" for c cs, unfolded append_Cons]

lemma scan_int_append: "scan_int s = Some (i, r) \<Longrightarrow> stop x \<Longrightarrow> scan_int (s @ x) = Some (i, r @ x)"
  using digit_run_append [of s i r x] by (auto simp: scan_int_def split: list.splits if_splits)

lemma scan_frac_append: "scan_frac s = Some (i, r) \<Longrightarrow> stop x \<Longrightarrow> scan_frac (s @ x) = Some (i, r @ x)"
  by (auto simp: scan_frac_def stop_def digit_run_append digit_run_append_Cons split: list.splits if_splits)

lemma scan_exp_append: "scan_exp s = Some (i, r) \<Longrightarrow> stop x \<Longrightarrow> scan_exp (s @ x) = Some (i, r @ x)"
  by (auto simp: scan_exp_def stop_def digit_run_append digit_run_append_Cons split: list.splits if_splits)

lemma scan_number_append:
  assumes "scan_number s = Some (n, r)" "stop x"
  shows "scan_number (s @ x) = Some (n, r @ x)"
proof -
  obtain sg s1 where sg: "scan_sign s = (sg, s1)" by (cases "scan_sign s")
  from assms(1) obtain i s2 f s3 e where
    p: "scan_int s1 = Some (i, s2)" "scan_frac s2 = Some (f, s3)" "scan_exp s3 = Some (e, r)"
      "n = sg @ i @ f @ e"
    by (auto simp: scan_number_def sg split: option.splits)
  have "s \<noteq> []" using p(1) sg by (auto simp: scan_sign_def scan_int_def)
  then have "scan_sign (s @ x) = (sg, s1 @ x)"
    using sg by (cases s) (auto simp: scan_sign_def split: if_splits)
  with scan_int_append [OF p(1) assms(2)] scan_frac_append [OF p(2) assms(2)]
    scan_exp_append [OF p(3) assms(2)] p(4)
  show ?thesis by (simp add: scan_number_def)
qed

text \<open>Texts with ASCII strings and proper numbers, and their tokens.\<close>

fun printable :: "json \<Rightarrow> bool" where
  "printable (JNumber n) \<longleftrightarrow> scan_number n = Some (n, [])"
| "printable (JString s) \<longleftrightarrow> ascii s"
| "printable (JArray js) \<longleftrightarrow> list_all printable js"
| "printable (JObject ps) \<longleftrightarrow> list_all (\<lambda>p. ascii (fst p) \<and> printable (snd p)) ps"
| "printable j \<longleftrightarrow> True"

fun commas :: "jtoken list list \<Rightarrow> jtoken list" where
  "commas [] = []"
| "commas [ts] = ts"
| "commas (ts # us # uss) = ts @ TComma # commas (us # uss)"

fun tokens :: "json \<Rightarrow> jtoken list" where
  "tokens (JArray js) = TOpenArr # commas (map tokens js) @ [TCloseArr]"
| "tokens (JObject ps) =
     TOpenObj # commas (map (\<lambda>p. TValue (JString (fst p)) # TColon # tokens (snd p)) ps) @ [TCloseObj]"
| "tokens j = [TValue j]"

lemma lex_punct [simp]:
  "lex (CHR ''{'' # s) = map_option ((#) TOpenObj) (lex s)"
  "lex (CHR ''}'' # s) = map_option ((#) TCloseObj) (lex s)"
  "lex (CHR ''['' # s) = map_option ((#) TOpenArr) (lex s)"
  "lex (CHR '']'' # s) = map_option ((#) TCloseArr) (lex s)"
  "lex (CHR '','' # s) = map_option ((#) TComma) (lex s)"
  "lex (CHR '':'' # s) = map_option ((#) TColon) (lex s)"
  by (simp_all add: lex.simps(2) is_space_def lex_one_def)

lemma lex_words [simp]:
  "lex (''true'' @ s) = map_option ((#) (TValue (JBool True))) (lex s)"
  "lex (''false'' @ s) = map_option ((#) (TValue (JBool False))) (lex s)"
  "lex (''null'' @ s) = map_option ((#) (TValue JNull)) (lex s)"
  by (simp_all add: lex.simps(2) is_space_def lex_one_def literal_def)

lemma lex_quote [simp]:
  "ascii s \<Longrightarrow> lex (quote s @ x) = map_option ((#) (TValue (JString s))) (lex x)"
  by (simp add: quote_def lex.simps(2) is_space_def lex_one_def scan_quote_body unquote_ascii)

lemma scan_number_head:
  "scan_number (c # cs) = Some (n, r) \<Longrightarrow> c = CHR ''-'' \<or> is_digit c"
  by (auto simp: scan_number_def scan_sign_def scan_int_def digit_run_def is_digit_def
      split: if_splits option.splits)

lemma lex_one_number:
  assumes "c = CHR ''-'' \<or> is_digit c"
  shows "\<not> is_space c"
    "lex_one c cs = map_option (apfst (\<lambda>n. TValue (JNumber n))) (scan_number (c # cs))"
proof -
  have ne: "c \<noteq> d" if "byte d \<noteq> 45" "byte d < 48 \<or> 57 < byte d" for d
    using assms that by (auto simp: is_digit_def)
  show "\<not> is_space c" by (simp add: is_space_def ne)
  show "lex_one c cs = map_option (apfst (\<lambda>n. TValue (JNumber n))) (scan_number (c # cs))"
    by (simp add: lex_one_def ne)
qed

lemma lex_number:
  assumes "scan_number n = Some (n, [])" "stop x"
  shows "lex (n @ x) = map_option ((#) (TValue (JNumber n))) (lex x)"
proof -
  obtain c cs where n: "n = c # cs"
    using assms(1) by (cases n) (auto simp: scan_number_def scan_sign_def scan_int_def)
  have "scan_number (c # cs @ x) = Some (n, x)"
    using scan_number_append [OF assms] n by simp
  moreover have "c = CHR ''-'' \<or> is_digit c"
    using assms(1) scan_number_head n by blast
  note lex_one_number [OF this]
  ultimately show ?thesis by (simp add: n lex.simps(2))
qed

lemma lex_join:
  assumes "\<And>a y. a \<in> set as \<Longrightarrow> stop y \<Longrightarrow> lex (pr a @ y) = map_option ((@) (tk a)) (lex y)" "stop x"
  shows "lex (join_with '','' (map pr as) @ x) = map_option ((@) (commas (map tk as))) (lex x)"
  using assms
proof (induction as)
  case Nil
  then show ?case by (cases "lex x") auto
next
  case (Cons a as)
  show ?case
  proof (cases as)
    case Nil
    with Cons.prems show ?thesis by simp
  next
    case (Cons b bs)
    have "lex (join_with '','' (map pr as) @ x) = map_option ((@) (commas (map tk as))) (lex x)"
      using Cons.prems by (intro Cons.IH) auto
    with Cons Cons.prems show ?thesis
      by (simp add: option.map_comp comp_def)
  qed
qed

lemma append_single: "(@) [t] = (#) t"
  by (rule ext) simp

lemma lex_render:
  "printable j \<Longrightarrow> stop x \<Longrightarrow> lex (render j @ x) = map_option ((@) (tokens j)) (lex x)"
proof (induction j arbitrary: x rule: render.induct)
  case (5 js)
  have "lex (join_with '','' (map render js) @ CHR '']'' # x) =
      map_option ((@) (commas (map tokens js))) (lex (CHR '']'' # x))"
    using 5 by (intro lex_join) (auto simp: list_all_iff)
  then show ?case by (simp add: option.map_comp comp_def)
next
  case (6 ps)
  have "lex ((quote (fst p) @ '':'' @ render (snd p)) @ y) =
      map_option ((@) (TValue (JString (fst p)) # TColon # tokens (snd p))) (lex y)"
    if "p \<in> set ps" "stop y" for p y
    using 6 that by (cases p; cases "lex y") (auto simp: list_all_iff)
  note member = this
  have "lex (join_with '','' (map (\<lambda>p. quote (fst p) @ '':'' @ render (snd p)) ps) @ CHR ''}'' # x) =
      map_option ((@) (commas (map (\<lambda>p. TValue (JString (fst p)) # TColon # tokens (snd p)) ps)))
        (lex (CHR ''}'' # x))"
    using member by (rule lex_join) simp_all
  then show ?case by (simp add: option.map_comp comp_def)
qed (use lex_words in \<open>auto simp: lex_number append_single\<close>)

section \<open>The parser on the tokens of a value\<close>

lemma begin_value_empty:
  "t \<noteq> TCloseArr \<Longrightarrow> parse_step t BeginValueOrEmpty stk = begin_value t stk"
  by (cases "(t, BeginValueOrEmpty, stk)" rule: parse_step.cases) auto

lemma tokens_hd: "\<exists>t ts. tokens j = t # ts \<and> t \<noteq> TCloseArr \<and> t \<noteq> TCloseObj"
  by (cases j) auto

text \<open>
  Inside an array and inside an object, the tokens of the elements, once each element is known to
  be read as itself.
\<close>

lemma run_elements:
  assumes "\<And>j e stk ts. j \<in> set js \<Longrightarrow> e = BeginValue \<or> e = BeginValueOrEmpty \<Longrightarrow>
      parse_run (tokens j @ ts) e stk = parse_run ts (EndValue j) stk"
    and "js \<noteq> []" "e = BeginValue \<or> e = BeginValueOrEmpty"
  shows "parse_run (commas (map tokens js) @ TCloseArr # ts) e (InArr vs # stk) =
    parse_run ts (EndValue (JArray (vs @ js))) stk"
  using assms
proof (induction js arbitrary: e vs)
  case (Cons j js)
  then show ?case by (cases js) auto
qed simp

lemma run_members:
  assumes "\<And>j stk ts. j \<in> snd ` set ps \<Longrightarrow>
      parse_run (tokens j @ ts) BeginValue stk = parse_run ts (EndValue j) stk"
    and "ps \<noteq> []" "e = BeginString \<or> e = BeginStringOrEmpty"
  shows "parse_run (commas (map (\<lambda>p. TValue (JString (fst p)) # TColon # tokens (snd p)) ps) @
      TCloseObj # ts) e (InObj qs # stk) = parse_run ts (EndValue (JObject (qs @ ps))) stk"
  using assms
proof (induction ps arbitrary: e qs)
  case (Cons p ps)
  then show ?case by (cases ps; cases p) auto
qed simp

lemma run_tokens:
  "e = BeginValue \<or> e = BeginValueOrEmpty \<Longrightarrow>
     parse_run (tokens j @ ts) e stk = parse_run ts (EndValue j) stk"
proof (induction j arbitrary: e stk ts rule: tokens.induct)
  case (1 js)
  show ?case
  proof (cases "js = []")
    case False
    with 1 have "parse_run (commas (map tokens js) @ TCloseArr # ts) BeginValueOrEmpty (InArr [] # stk) =
        parse_run ts (EndValue (JArray ([] @ js))) stk"
      by (intro run_elements) auto
    with 1 show ?thesis by auto
  qed (use 1 in auto)
next
  case (2 ps)
  show ?case
  proof (cases "ps = []")
    case False
    have "parse_run (tokens j @ ts) BeginValue stk = parse_run ts (EndValue j) stk"
      if "j \<in> snd ` set ps" for j stk ts
      using 2(1) that by force
    with False have "parse_run (commas (map (\<lambda>p. TValue (JString (fst p)) # TColon # tokens (snd p)) ps) @
        TCloseObj # ts) BeginStringOrEmpty (InObj [] # stk) = parse_run ts (EndValue (JObject ([] @ ps))) stk"
      by (intro run_members) auto
    with 2 show ?thesis by auto
  qed (use 2 in auto)
qed auto

text \<open>A printable value is read back from its text.\<close>

lemma parse_render: "printable j \<Longrightarrow> parse_json (render j) = Some j"
  using lex_render [of j "[]"] run_tokens [of BeginValue j "[]" "[]"]
  by (simp add: parse_json_def)

section \<open>Printed integers\<close>

lemma digits_not_Nil [simp]: "digits n \<noteq> []"
  by (simp add: digits.simps [of n])

lemma hd_digits: "hd (digits n) = CHR ''0'' \<longleftrightarrow> n = 0"
proof (induction n rule: digits.induct)
  case (1 n)
  show ?case
  proof (cases "n < 10")
    case True
    have "(char_of (48 + n) :: char) = CHR ''0'' \<longleftrightarrow> byte (char_of (48 + n)) = byte (CHR ''0'')"
      by (simp only: of_char_eq_iff)
    also have "\<dots> \<longleftrightarrow> n = 0"
      using of_char_digit [OF True] by simp
    finally show ?thesis using True by (simp add: digits.simps [of n])
  next
    case False
    with 1 show ?thesis by (simp add: digits.simps [of n])
  qed
qed

lemma digits_are_digits: "c \<in> set (digits n) \<Longrightarrow> is_digit c"
  using digits_chars [of c n] by (simp add: is_digit_def)

lemma scan_int_digits: "scan_int (digits n) = Some (digits n, [])"
proof -
  have all: "takeWhile is_digit (digits n) = digits n" "dropWhile is_digit (digits n) = []"
    using digits_are_digits [of _ n] by (simp_all add: takeWhile_eq_all_conv dropWhile_eq_Nil_conv)
  obtain c cs where c: "digits n = c # cs" by (cases "digits n") auto
  show ?thesis
  proof (cases "n = 0")
    case True
    with c hd_digits [of n] have "c = CHR ''0''" "cs = []" by (simp_all add: digits.simps [of 0])
    with c show ?thesis by (simp add: scan_int_def)
  next
    case False
    with c hd_digits [of n] have "c \<noteq> CHR ''0''" by simp
    with c all show ?thesis by (simp add: scan_int_def digit_run_def)
  qed
qed

lemma scan_number_itoa: "scan_number (itoa i) = Some (itoa i, [])"
proof (cases "i < 0")
  case True
  then show ?thesis
    by (simp add: itoa_def scan_number_def scan_sign_def scan_int_digits scan_frac_def scan_exp_def)
next
  case False
  obtain c cs where c: "digits (nat i) = c # cs" by (cases "digits (nat i)") auto
  then have "c \<noteq> CHR ''-''" using minus_not_digit [of "nat i"] by auto
  then have "scan_sign (digits (nat i)) = ([], digits (nat i))" by (simp add: c scan_sign_def)
  with False show ?thesis
    by (simp add: itoa_def scan_number_def scan_int_digits scan_frac_def scan_exp_def)
qed

section \<open>A printed text has no control characters\<close>

lemma join_with_set: "c \<in> set (join_with s ps) \<Longrightarrow> c \<in> set s \<or> (\<exists>p\<in>set ps. c \<in> set p)"
  by (induction s ps rule: join_with.induct) auto

lemma hex_digit_visible: "n < 16 \<Longrightarrow> 32 \<le> byte (hex_digit n)"
  by (simp add: hex_digit_def of_char_of take_bit_eq_mod)

lemma u00_visible: "b < 128 \<Longrightarrow> c \<in> set (u00 b) \<Longrightarrow> 32 \<le> byte c"
  using hex_digit_visible [of "b div 16"] hex_digit_visible [of "b mod 16"] by (auto simp: u00_def)

lemma quote_ascii_visible:
  assumes "byte b < 128" "c \<in> set (quote_ascii b)"
  shows "32 \<le> byte c"
proof (cases "c \<in> set (u00 (byte b))")
  case True
  then show ?thesis using u00_visible assms(1) by blast
next
  case False
  with assms(2) show ?thesis by (simp add: quote_ascii_def split: if_split_asm) auto
qed

lemma quote_visible: "ascii s \<Longrightarrow> c \<in> set (quote s) \<Longrightarrow> 32 \<le> byte c"
proof -
  have "ascii s \<Longrightarrow> c \<in> set (quote_body s) \<Longrightarrow> 32 \<le> byte c"
    by (induction s) (auto simp: quote_body.simps(2) dest: quote_ascii_visible)
  then show "ascii s \<Longrightarrow> c \<in> set (quote s) \<Longrightarrow> 32 \<le> byte c" by (auto simp: quote_def)
qed

lemma digit_run_visible: "digit_run s = Some (d, r) \<Longrightarrow> c \<in> set d \<Longrightarrow> 32 \<le> byte c"
  by (auto simp: digit_run_def is_digit_def split: if_splits dest: set_takeWhileD)

lemma scan_number_visible:
  assumes "scan_number s = Some (n, r)" "c \<in> set n"
  shows "32 \<le> byte c"
proof -
  obtain sg s1 where sg: "scan_sign s = (sg, s1)" by (cases "scan_sign s")
  from assms(1) obtain i s2 f s3 e where
    p: "scan_int s1 = Some (i, s2)" "scan_frac s2 = Some (f, s3)" "scan_exp s3 = Some (e, r)"
      "n = sg @ i @ f @ e"
    by (auto simp: scan_number_def sg split: option.splits)
  from p(4) assms(2) consider "c \<in> set sg" | "c \<in> set i" | "c \<in> set f" | "c \<in> set e" by auto
  then show ?thesis
  proof cases
    case 1
    with sg show ?thesis by (auto simp: scan_sign_def split: list.splits if_splits)
  next
    case 2
    with p(1) show ?thesis by (auto simp: scan_int_def digit_run_visible split: list.splits if_splits)
  next
    case 3
    with p(2) show ?thesis by (auto simp: scan_frac_def digit_run_visible split: list.splits if_splits)
  next
    case 4
    with p(3) show ?thesis by (auto simp: scan_exp_def digit_run_visible split: list.splits if_splits)
  qed
qed

lemma render_visible: "printable j \<Longrightarrow> c \<in> set (render j) \<Longrightarrow> 32 \<le> byte c"
proof (induction j)
  case (JNumber n)
  then show ?case using scan_number_visible by auto
next
  case (JString s)
  then show ?case using quote_visible by auto
next
  case (JArray js)
  then show ?case by (auto simp: list_all_iff dest!: join_with_set)
next
  case (JObject ps)
  then show ?case by (auto 0 4 simp: list_all_iff snds.simps dest!: join_with_set dest: quote_visible)
qed (auto split: if_splits)

lemma render_one_line: "printable j \<Longrightarrow> CHR 0x0A \<notin> set (render j)"
  using render_visible [of j "CHR 0x0A"] by (auto simp del: render.simps)
end
