(* ===== verification/Go_Float.thy ===== *)
theory Go_Float
  imports Prelude "HOL-Library.Word" Complex_Main
begin

unbundle bit_operations_syntax

text \<open>
  A \<open>float64\<close> as its IEEE 754 bit pattern, with the two operations rpc.go applies to one:
  \<open>math.Trunc\<close> and \<open>!=\<close>. The value of a finite pattern is a rational number (as a real), against
  which they are proved.
\<close>

type_synonym float64_bits = "64 word"

definition exponent_bits :: "float64_bits \<Rightarrow> nat" where
  "exponent_bits w = unat (take_bit 11 (drop_bit 52 w))"

definition fraction_bits :: "float64_bits \<Rightarrow> nat" where
  "fraction_bits w = unat (take_bit 52 w)"

definition sign_bit :: "float64_bits \<Rightarrow> bool" where
  "sign_bit w \<longleftrightarrow> bit w 63"

definition is_finite64 :: "float64_bits \<Rightarrow> bool" where
  "is_finite64 w \<longleftrightarrow> exponent_bits w < 2047"

definition is_nan64 :: "float64_bits \<Rightarrow> bool" where
  "is_nan64 w \<longleftrightarrow> exponent_bits w = 2047 \<and> fraction_bits w \<noteq> 0"

definition is_zero64 :: "float64_bits \<Rightarrow> bool" where
  "is_zero64 w \<longleftrightarrow> exponent_bits w = 0 \<and> fraction_bits w = 0"

text \<open>
  \<open>math.Trunc\<close>: below one the result is a zero of the same sign; above, the bits of the fraction
  below the point are cleared.
\<close>

definition Trunc :: "float64_bits \<Rightarrow> float64_bits" where
  "Trunc w =
     (let e = exponent_bits w in
      if e < 1023 then w AND push_bit 63 1
      else if e < 1075 then w AND NOT (mask (1075 - e))
      else w)"

definition float_ne :: "float64_bits \<Rightarrow> float64_bits \<Rightarrow> bool" where
  "float_ne a b \<longleftrightarrow> is_nan64 a \<or> is_nan64 b \<or> a \<noteq> b \<and> \<not> (is_zero64 a \<and> is_zero64 b)"

text \<open>The value of a finite pattern.\<close>

definition significand :: "float64_bits \<Rightarrow> nat" where
  "significand w = (if exponent_bits w = 0 then fraction_bits w else 2 ^ 52 + fraction_bits w)"

definition float_value :: "float64_bits \<Rightarrow> real" where
  "float_value w =
     (if sign_bit w then -1 else 1) * real (significand w) *
     2 powr (real (max 1 (exponent_bits w)) - 1075)"

lemma fraction_bits_mod: "fraction_bits w = unat w mod 2 ^ 52"
  unfolding fraction_bits_def unsigned_take_bit_eq by (simp only: take_bit_eq_mod)

lemma fraction_bits_less: "fraction_bits w < 2 ^ 52"
  unfolding fraction_bits_mod by simp

lemma significand_less: "significand w < 2 ^ 53"
  using fraction_bits_less [of w] by (simp add: significand_def)

text \<open>Being an integer is a divisibility of the significand.\<close>

lemma int_iff_dvd:
  assumes "x = real m / 2 ^ k"
  shows "x \<in> \<int> \<longleftrightarrow> 2 ^ k dvd m"
proof
  assume "2 ^ k dvd m"
  then obtain q where "m = 2 ^ k * q" by blast
  then have "x = of_int (int q)" using assms by simp
  then show "x \<in> \<int>" by (metis Ints_of_int)
next
  assume "x \<in> \<int>"
  then obtain i where i: "x = of_int i" by (auto elim: Ints_cases)
  have "real m = x * 2 ^ k" using assms by simp
  then have "real_of_int (int m) = real_of_int (i * 2 ^ k)" by (simp add: i)
  then have "int m = i * 2 ^ k" by (simp only: of_int_eq_iff)
  then have "int (2 ^ k) dvd int m" by simp
  then show "2 ^ k dvd m" by (simp only: int_dvd_int_iff)
qed

lemma sign_int: "(if b then -1 else 1) * x \<in> \<int> \<longleftrightarrow> x \<in> \<int>" for x :: real
  by (auto simp: minus_in_Ints_iff)

lemma float_value_int:
  assumes "exponent_bits w < 1075"
  shows "float_value w \<in> \<int> \<longleftrightarrow> 2 ^ (1075 - max 1 (exponent_bits w)) dvd significand w"
proof -
  let ?k = "1075 - max 1 (exponent_bits w)"
  have e: "real (max 1 (exponent_bits w)) - 1075 = - real ?k"
    using assms by (simp add: of_nat_diff max_def)
  have "2 powr (- real k) = 1 / 2 ^ k" for k
    by (simp add: powr_minus_divide powr_realpow)
  then have "real (significand w) * 2 powr (real (max 1 (exponent_bits w)) - 1075)
      = real (significand w) / 2 ^ ?k"
    unfolding e by (simp only: times_divide_eq_right mult_1_right)
  note int_iff_dvd [OF this]
  moreover have "float_value w = (if sign_bit w then -1 else 1) *
      (real (significand w) * 2 powr (real (max 1 (exponent_bits w)) - 1075))"
    unfolding float_value_def mult.assoc by (rule refl)
  ultimately show ?thesis by (simp only: sign_int)
qed

lemma float_value_big:
  assumes "1075 \<le> exponent_bits w"
  shows "float_value w \<in> \<int>"
proof -
  have "real (max 1 (exponent_bits w)) - 1075 = real (exponent_bits w - 1075)"
    using assms by simp
  then have p: "2 powr (real (max 1 (exponent_bits w)) - 1075) = 2 ^ (exponent_bits w - 1075)"
    using powr_realpow [of 2 "exponent_bits w - 1075"] by (simp only: zero_less_numeral)
  have "float_value w = (if sign_bit w then -1 else 1) *
      (real (significand w) * 2 ^ (exponent_bits w - 1075))"
    unfolding float_value_def p mult.assoc by (rule refl)
  moreover have "real (significand w) * 2 ^ (exponent_bits w - 1075) \<in> \<int>"
    by (intro Ints_mult Ints_of_nat Ints_power Ints_numeral)
  ultimately show ?thesis by (simp only: sign_int)
qed

text \<open>Clearing the low bits changes nothing exactly when they are zero.\<close>

lemma and_not_mask_same: "w AND NOT (mask k) = w \<longleftrightarrow> take_bit k w = 0" for w :: "'a::len word"
proof
  assume "w AND NOT (mask k) = w"
  then have "take_bit k w = take_bit k (w AND NOT (mask k))" by simp
  also have "\<dots> = 0" by (rule bit_eqI) (simp add: bit_simps)
  finally show "take_bit k w = 0" .
next
  assume z: "take_bit k w = 0"
  show "w AND NOT (mask k) = w"
  proof (rule bit_word_eqI)
    fix n
    assume n: "n < LENGTH('a)"
    have "bit (take_bit k w) n = False" by (simp add: z)
    with n show "bit (w AND NOT (mask k)) n = bit w n"
      by (auto simp: bit_simps)
  qed
qed

lemma take_bit_zero_dvd: "take_bit k w = 0 \<longleftrightarrow> 2 ^ k dvd unat w" for w :: "'a::len word"
proof -
  have "take_bit k w = 0 \<longleftrightarrow> unat (take_bit k w) = 0" by (simp add: unsigned_eq_0_iff)
  also have "\<dots> \<longleftrightarrow> 2 ^ k dvd unat w"
    unfolding unsigned_take_bit_eq by (simp only: take_bit_eq_mod dvd_eq_mod_eq_0)
  finally show ?thesis .
qed

lemma dvd_mod_power: "k \<le> n \<Longrightarrow> 2 ^ k dvd x \<longleftrightarrow> 2 ^ k dvd x mod 2 ^ n" for x :: nat
  by (metis dvd_mod_iff le_imp_power_dvd)

lemma dvd_significand:
  assumes "k \<le> 52"
  shows "2 ^ k dvd significand w \<longleftrightarrow> 2 ^ k dvd unat w"
proof -
  have "2 ^ k dvd (2::nat) ^ 52" using assms by (rule le_imp_power_dvd)
  then have "2 ^ k dvd significand w \<longleftrightarrow> 2 ^ k dvd fraction_bits w"
    by (simp add: significand_def dvd_add_right_iff)
  also have "\<dots> \<longleftrightarrow> 2 ^ k dvd unat w"
    unfolding fraction_bits_mod using dvd_mod_power [OF assms] by simp
  finally show ?thesis .
qed

lemma Trunc_middle:
  assumes "1023 \<le> exponent_bits w" "exponent_bits w < 1075"
  shows "Trunc w = w \<longleftrightarrow> float_value w \<in> \<int>"
proof -
  let ?k = "1075 - exponent_bits w"
  have "Trunc w = w \<longleftrightarrow> 2 ^ ?k dvd unat w"
    using assms by (simp add: Trunc_def and_not_mask_same take_bit_zero_dvd)
  also have "\<dots> \<longleftrightarrow> 2 ^ ?k dvd significand w"
    using assms by (intro dvd_significand [symmetric]) simp
  also have "\<dots> \<longleftrightarrow> float_value w \<in> \<int>"
    using float_value_int [OF assms(2)] assms(1) by (simp add: max_def)
  finally show ?thesis .
qed

lemma dvd_small: "(2::nat) ^ k dvd m \<Longrightarrow> m < 2 ^ k \<Longrightarrow> m = 0"
  by (auto dest: dvd_imp_le)

text \<open>Below one, only the zeros are integers.\<close>

lemma float_value_small:
  assumes "exponent_bits w < 1023"
  shows "float_value w \<in> \<int> \<longleftrightarrow> is_zero64 w"
proof -
  let ?k = "1075 - max 1 (exponent_bits w)"
  have "(2::nat) ^ 53 \<le> 2 ^ ?k"
    using assms by (intro power_increasing) auto
  with significand_less [of w] have "significand w < 2 ^ ?k" by linarith
  then have "2 ^ ?k dvd significand w \<longleftrightarrow> significand w = 0"
    using dvd_small by fastforce
  moreover have "significand w = 0 \<longleftrightarrow> is_zero64 w"
    by (auto simp: significand_def is_zero64_def)
  ultimately show ?thesis
    using float_value_int [of w] assms by simp
qed

lemma Trunc_small_zero:
  assumes "exponent_bits w < 1023"
  shows "is_zero64 (Trunc w)"
proof -
  have t: "Trunc w = w AND push_bit 63 1" using assms by (simp add: Trunc_def)
  have "take_bit 11 (drop_bit 52 (w AND push_bit 63 1)) = 0"
    by (rule bit_word_eqI) (auto simp: bit_simps)
  moreover have "take_bit 52 (w AND push_bit 63 1) = 0"
    by (rule bit_word_eqI) (auto simp: bit_simps)
  ultimately show ?thesis
    by (simp only: t is_zero64_def exponent_bits_def fraction_bits_def unsigned_0)
qed

text \<open>\<open>x != math.Trunc(x)\<close> holds of a finite number exactly when it is not an integer.\<close>

lemma float_ne_Trunc:
  assumes "is_finite64 w"
  shows "float_ne w (Trunc w) \<longleftrightarrow> float_value w \<notin> \<int>"
proof -
  have no_nan: "\<not> is_nan64 w" using assms by (simp add: is_nan64_def is_finite64_def)
  consider "exponent_bits w < 1023" | "1023 \<le> exponent_bits w" "exponent_bits w < 1075"
    | "1075 \<le> exponent_bits w" by linarith
  then show ?thesis
  proof cases
    case 1
    then have z: "is_zero64 (Trunc w)" by (rule Trunc_small_zero)
    then have "\<not> is_nan64 (Trunc w)" by (simp add: is_nan64_def is_zero64_def)
    with z no_nan have "float_ne w (Trunc w) \<longleftrightarrow> \<not> is_zero64 w"
      by (auto simp: float_ne_def)
    with float_value_small [OF 1] show ?thesis by simp
  next
    case 2
    have "exponent_bits (Trunc w) = exponent_bits w"
    proof -
      have "take_bit 11 (drop_bit 52 (w AND NOT (mask (1075 - exponent_bits w)))) = take_bit 11 (drop_bit 52 w)"
        by (rule bit_word_eqI) (use 2 in \<open>auto simp: bit_simps\<close>)
      moreover have "Trunc w = w AND NOT (mask (1075 - exponent_bits w))"
        using 2 by (simp add: Trunc_def)
      ultimately show ?thesis by (simp only: exponent_bits_def)
    qed
    with 2 have "\<not> is_nan64 (Trunc w)" "\<not> is_zero64 w" by (auto simp: is_nan64_def is_zero64_def)
    with no_nan have "float_ne w (Trunc w) \<longleftrightarrow> w \<noteq> Trunc w"
      by (auto simp: float_ne_def)
    with Trunc_middle [OF 2] show ?thesis by auto
  next
    case 3
    then have "Trunc w = w" by (simp add: Trunc_def)
    with no_nan float_value_big [OF 3] show ?thesis by (simp add: float_ne_def)
  qed
qed

end
