(* ===== verification/Rpc_Request.thy ===== *)
theory Rpc_Request
  imports Rpc_Types Json_Text Go_Float "HOL-Library.AList"
begin

text \<open>
  The request half of rpc.go: error values, the request structure, the check of its id and
  \<open>parseRequest\<close>. What the code obtains from elsewhere is the record \<open>rpc_env\<close>: how the Go library
  reads and prints floating point literals, how a request's parameters are decoded into a value of a
  user's type, the methods a user registered, and how their results are marshalled.
\<close>

section \<open>Errors\<close>

definition RPC_MESSAGE_QUEUE_LEN :: nat where "RPC_MESSAGE_QUEUE_LEN = 32"
definition RPC_APP_PREFIX :: string where "RPC_APP_PREFIX = ''/rpc/v1/''"
definition RPC_RESERVED_CODE_MIN :: "32 word" where "RPC_RESERVED_CODE_MIN = -32700"
definition RPC_RESERVED_CODE_MAX :: "32 word" where "RPC_RESERVED_CODE_MAX = -32000"

definition isReservedErrorCode :: "32 word \<Rightarrow> bool" where
  "isReservedErrorCode code \<longleftrightarrow> RPC_RESERVED_CODE_MIN \<le>s code \<and> code \<le>s RPC_RESERVED_CODE_MAX"

text \<open>
  An \<open>error\<close> by the interfaces it implements: one with \<open>InternalErrorCode\<close>, else one with
  \<open>ErrorCode\<close> (and the name of its type, which a nil pointer does not have), else any other.
\<close>

datatype go_error =
    InternalError "32 word" string
  | ExtendedError "32 word" "string option" string
  | SimpleError string

definition parseError :: go_error where "parseError = InternalError (-32700) ''Parse error''"
definition invalidRequestError :: go_error where "invalidRequestError = InternalError (-32600) ''Invalid request''"
definition methodNotFoundError :: go_error where "methodNotFoundError = InternalError (-32601) ''Method not found''"
definition invalidParamsError :: go_error where "invalidParamsError = InternalError (-32602) ''Invalid params''"

lemmas rpc_errors =
  parseError_def invalidRequestError_def methodNotFoundError_def invalidParamsError_def

lemma isReservedErrorCode_iff: "isReservedErrorCode code \<longleftrightarrow> -32700 \<le> sint code \<and> sint code \<le> -32000"
  by (simp add: isReservedErrorCode_def RPC_RESERVED_CODE_MIN_def RPC_RESERVED_CODE_MAX_def word_sle_eq)

section \<open>Values\<close>

text \<open>What \<open>json.Unmarshal\<close> stores in an \<open>interface{}\<close>.\<close>

datatype gval =
    GNil
  | GBool bool
  | GFloat float64_bits
  | GString string
  | GSlice "gval list"
  | GMap "(string \<times> gval) list"

text \<open>
  A number out of the range of \<open>float64\<close> leaves nil in its place, and the error is returned at
  the end: the second component is whether there was none.
\<close>

fun decode_value :: "(string \<Rightarrow> float64_bits option) \<Rightarrow> json \<Rightarrow> gval \<times> bool" where
  "decode_value pf JNull = (GNil, True)"
| "decode_value pf (JBool b) = (GBool b, True)"
| "decode_value pf (JNumber n) = (case pf n of None \<Rightarrow> (GNil, False) | Some w \<Rightarrow> (GFloat w, True))"
| "decode_value pf (JString s) = (GString s, True)"
| "decode_value pf (JArray js) =
     (let rs = map (decode_value pf) js in (GSlice (map fst rs), list_all snd rs))"
| "decode_value pf (JObject ps) =
     (let rs = map (\<lambda>p. (fst p, decode_value pf (snd p))) ps in
      (GMap (fold (\<lambda>r m. AList.update (fst r) (fst (snd r)) m) rs []), list_all (\<lambda>r. snd (snd r)) rs))"

text \<open>Marshalling such a value; the keys of a map are sorted.\<close>

fun encode_value :: "(float64_bits \<Rightarrow> string) \<Rightarrow> gval \<Rightarrow> json" where
  "encode_value ff GNil = JNull"
| "encode_value ff (GBool b) = JBool b"
| "encode_value ff (GFloat w) = JNumber (ff w)"
| "encode_value ff (GString s) = JString s"
| "encode_value ff (GSlice vs) = JArray (map (encode_value ff) vs)"
| "encode_value ff (GMap ps) = JObject (sort_key fst (map (\<lambda>p. (fst p, encode_value ff (snd p))) ps))"

section \<open>Requests\<close>

record rpcRequest =
  req_Id :: "json option"
  req_Params :: "json option"

text \<open>
  A key of the object is for a field when it is the field's name, or the name in another case. The
  case folding of \<open>encoding/json\<close> also takes U+017F (bytes C5 BF) for an s.
\<close>

definition lower :: "char \<Rightarrow> char" where
  "lower c = (if 65 \<le> byte c \<and> byte c \<le> 90 then char_of (byte c + 32) else c)"

fun equal_fold :: "string \<Rightarrow> string \<Rightarrow> bool" where
  "equal_fold [] t \<longleftrightarrow> t = []"
| "equal_fold (c # cs) [] \<longleftrightarrow> False"
| "equal_fold (c # cs) (t # ts) \<longleftrightarrow>
     (if lower t = c then equal_fold cs ts
      else c = CHR ''s'' \<and> t = CHR 0xC5 \<and> ts \<noteq> [] \<and> hd ts = CHR 0xBF \<and> equal_fold cs (tl ts))"

definition raw_message :: "json \<Rightarrow> json option" where
  "raw_message j = (if j = JNull then None else Some j)"

definition set_field :: "string \<times> json \<Rightarrow> rpcRequest \<Rightarrow> rpcRequest" where
  "set_field kv r =
     (if equal_fold ''id'' (fst kv) then r\<lparr>req_Id := raw_message (snd kv)\<rparr>
      else if equal_fold ''params'' (fst kv) then r\<lparr>req_Params := raw_message (snd kv)\<rparr>
      else r)"

definition unmarshalRequest :: "string \<Rightarrow> rpcRequest option" where
  "unmarshalRequest payload =
     (case parse_json payload of
        Some (JObject ps) \<Rightarrow> Some (fold set_field ps \<lparr>req_Id = None, req_Params = None\<rparr>)
      | Some JNull \<Rightarrow> Some \<lparr>req_Id = None, req_Params = None\<rparr>
      | _ \<Rightarrow> None)"

fun validateId :: "gval \<Rightarrow> go_error option" where
  "validateId GNil = None"
| "validateId (GString s) = None"
| "validateId (GFloat w) = (if float_ne w (Trunc w) then Some invalidRequestError else None)"
| "validateId v = Some invalidRequestError"

text \<open>How the decoding of parameters ends: with a value, a syntax error or another error.\<close>

datatype 'a decoded = Decoded 'a | SyntaxErr | TypeErr

datatype 'a argv = ByPointer 'a | ByValue 'a

record ('a, 'u, 'r) rpc_env =
  parse_float :: "string \<Rightarrow> float64_bits option"
  format_float :: "float64_bits \<Rightarrow> string"
  decode_params :: "gotype \<Rightarrow> json \<Rightarrow> 'a decoded"
  invoke :: "string \<Rightarrow> string \<Rightarrow> 'a argv \<Rightarrow> 'u \<Rightarrow> ('u \<times> 'r \<times> go_error option) res"
  marshal_result :: "'r \<Rightarrow> json option"

text \<open>
  The parameters, decoded into a new value of the argument type; with no target (a nil
  interface) they are not looked at. Both give the id of the reply and the error or the value.
\<close>

definition parseParams ::
  "('a, 'u, 'r) rpc_env \<Rightarrow> gotype \<Rightarrow> rpcRequest \<Rightarrow> gval \<Rightarrow> gval \<times> (go_error + 'a)" where
  "parseParams env ty req i =
     (case req_Params req of
        None \<Rightarrow> (i, Inl invalidParamsError)
      | Some p \<Rightarrow>
          (case decode_params env ty p of
             Decoded a \<Rightarrow> (i, Inr a)
           | SyntaxErr \<Rightarrow> (GNil, Inl parseError)
           | TypeErr \<Rightarrow> (i, Inl invalidParamsError)))"

definition noTarget :: "rpcRequest \<Rightarrow> gval \<Rightarrow> gval \<times> (go_error + unit)" where
  "noTarget req i = (i, Inr ())"

definition parseRequest ::
  "('a, 'u, 'r) rpc_env \<Rightarrow> string \<Rightarrow> (rpcRequest \<Rightarrow> gval \<Rightarrow> gval \<times> (go_error + 'b))
     \<Rightarrow> gval \<times> (go_error + 'b)" where
  "parseRequest env payload target =
     (case unmarshalRequest payload of
        None \<Rightarrow> (GNil, Inl parseError)
      | Some req \<Rightarrow>
          (case req_Id req of
             None \<Rightarrow> (GNil, Inl invalidRequestError)
           | Some j \<Rightarrow>
               (let (i, fine) = decode_value (parse_float env) j in
                if \<not> fine then (i, Inl parseError)
                else (case validateId i of
                        Some e \<Rightarrow> (GNil, Inl e)
                      | None \<Rightarrow> target req i))))"

end
