(* ===== verification/Mqtt_Interface.thy ===== *)
theory Mqtt_Interface
  imports Prelude
begin

text \<open>
  The boundary between the program and its MQTT client: \<open>MQTTMessage\<close> and the \<open>MQTTClient\<close>
  interface of driver.go. No method of the interface but \<open>WaitForReady\<close> returns anything, so a
  user of a client is modelled by the list of the calls it makes, and a client by the operations
  that perform them. The locale \<open>mqtt_client\<close> states what every client promises of its table of
  callbacks; it is interpreted on the clients of mqtt.go and testutils/fake_mqtt.go.
\<close>

record MQTTMessage =
  Topic :: string
  Payload :: string
  QoS :: nat
  Retained :: bool

datatype 'h mqtt_call =
    MStart
  | MStop
  | MPublish MQTTMessage
  | MPublishSync MQTTMessage
  | MSubscribe 'h "string list"
  | MUnsubscribe "string list"

record ('c, 'h) mqtt_ops =
  op_Start :: "'c \<Rightarrow> 'c res"
  op_Stop :: "'c \<Rightarrow> 'c res"
  op_Publish :: "MQTTMessage \<Rightarrow> 'c \<Rightarrow> 'c res"
  op_PublishSync :: "MQTTMessage \<Rightarrow> 'c \<Rightarrow> 'c res"
  op_Subscribe :: "'h \<Rightarrow> string list \<Rightarrow> 'c \<Rightarrow> 'c res"
  op_Unsubscribe :: "string list \<Rightarrow> 'c \<Rightarrow> 'c res"

fun perform :: "('c, 'h) mqtt_ops \<Rightarrow> 'h mqtt_call \<Rightarrow> 'c \<Rightarrow> 'c res" where
  "perform ops MStart c = op_Start ops c"
| "perform ops MStop c = op_Stop ops c"
| "perform ops (MPublish m) c = op_Publish ops m c"
| "perform ops (MPublishSync m) c = op_PublishSync ops m c"
| "perform ops (MSubscribe h ts) c = op_Subscribe ops h ts c"
| "perform ops (MUnsubscribe ts) c = op_Unsubscribe ops ts c"

fun perform_all :: "('c, 'h) mqtt_ops \<Rightarrow> 'h mqtt_call list \<Rightarrow> 'c \<Rightarrow> 'c res" where
  "perform_all ops [] c = Inr c"
| "perform_all ops (k # ks) c = bind_res (perform ops k c) (perform_all ops ks)"

lemma perform_all_append:
  "perform_all ops (ks @ ls) c = bind_res (perform_all ops ks c) (perform_all ops ls)"
proof (induction ks arbitrary: c)
  case (Cons k ks)
  then have "perform_all ops (ks @ ls) = (\<lambda>c. bind_res (perform_all ops ks c) (perform_all ops ls))"
    by (intro ext)
  then show ?case by (simp add: bind_res_assoc)
qed simp

section \<open>What a list of calls asks for\<close>

text \<open>
  The callbacks registered for each topic filter: \<open>Subscribe\<close> adds one callback per filter of
  its list, \<open>Unsubscribe\<close> drops all the callbacks of its filters.
\<close>

fun table_step :: "'h mqtt_call \<Rightarrow> (string \<Rightarrow> 'h list) \<Rightarrow> (string \<Rightarrow> 'h list)" where
  "table_step (MSubscribe h ts) tab = (\<lambda>t. tab t @ replicate (count_list ts t) h)"
| "table_step (MUnsubscribe ts) tab = (\<lambda>t. if t \<in> set ts then [] else tab t)"
| "table_step _ tab = tab"

definition call_table :: "'h mqtt_call list \<Rightarrow> (string \<Rightarrow> 'h list) \<Rightarrow> (string \<Rightarrow> 'h list)" where
  "call_table ks tab = fold table_step ks tab"

lemma call_table_simps [simp]:
  "call_table [] tab = tab"
  "call_table (ks @ ls) tab = call_table ls (call_table ks tab)"
  "call_table (k # ks) tab = call_table ks (table_step k tab)"
  by (simp_all add: call_table_def)

text \<open>The messages a list of calls publishes, in order.\<close>

fun call_messages :: "'h mqtt_call \<Rightarrow> MQTTMessage list" where
  "call_messages (MPublish m) = [m]"
| "call_messages (MPublishSync m) = [m]"
| "call_messages _ = []"

definition messages :: "'h mqtt_call list \<Rightarrow> MQTTMessage list" where
  "messages ks = concat (map call_messages ks)"

lemma messages_simps [simp]:
  "messages [] = []"
  "messages (k # ks) = call_messages k @ messages ks"
  "messages (ks @ ls) = messages ks @ messages ls"
  by (simp_all add: messages_def)

text \<open>
  What a broker keeps of them: a retained message replaces the one kept for its topic, and a
  retained message with an empty payload removes it.
\<close>

definition retain_step :: "MQTTMessage \<Rightarrow> (string \<rightharpoonup> MQTTMessage) \<Rightarrow> (string \<rightharpoonup> MQTTMessage)" where
  "retain_step m r =
     (if Retained m then (if Payload m = [] then r(Topic m := None) else r(Topic m \<mapsto> m)) else r)"

definition retained_store :: "MQTTMessage list \<Rightarrow> (string \<rightharpoonup> MQTTMessage) \<Rightarrow> (string \<rightharpoonup> MQTTMessage)" where
  "retained_store ms r = fold retain_step ms r"

lemma retained_store_simps [simp]:
  "retained_store [] r = r"
  "retained_store (m # ms) r = retained_store ms (retain_step m r)"
  "retained_store (ms @ ns) r = retained_store ns (retained_store ms r)"
  by (simp_all add: retained_store_def)

lemma retained_store_dom:
  "dom (retained_store ms r) \<subseteq> dom r \<union> Topic ` {m \<in> set ms. Retained m}"
  by (induction ms arbitrary: r) (fastforce simp: retain_step_def split: if_splits)+

text \<open>Publishing an empty retained message to each topic of a list empties those topics.\<close>

lemma retained_store_clear:
  "retained_store (map (\<lambda>t. \<lparr>Topic = t, Payload = [], QoS = q, Retained = True\<rparr>) ts) r =
     r |` (- set ts)"
  by (induction ts arbitrary: r)
     (auto simp: retain_step_def restrict_map_def fun_eq_iff)

text \<open>
  The protocol of a client: it is used only between \<open>Start\<close> and \<open>Stop\<close>. \<open>client_phase b ks\<close> is
  whether the client runs after the calls \<open>ks\<close>, when it did (\<open>b\<close>) before; \<open>None\<close> when a call of \<open>ks\<close>
  finds it stopped.
\<close>

fun client_phase :: "bool \<Rightarrow> 'h mqtt_call list \<Rightarrow> bool option" where
  "client_phase b [] = Some b"
| "client_phase b (MStart # ks) = client_phase True ks"
| "client_phase b (MStop # ks) = (if b then client_phase False ks else None)"
| "client_phase b (k # ks) = (if b then client_phase b ks else None)"

lemma client_phase_append:
  "client_phase b (ks @ ls) = (case client_phase b ks of None \<Rightarrow> None | Some b' \<Rightarrow> client_phase b' ls)"
  by (induction b ks rule: client_phase.induct) auto

text \<open>What was unsubscribed, and not subscribed again, has no callbacks left.\<close>

lemma call_table_silent:
  "tab t = [] \<Longrightarrow> \<forall>h us. MSubscribe h us \<in> set ks \<longrightarrow> t \<notin> set us \<Longrightarrow> call_table ks tab t = []"
proof (induction ks arbitrary: tab)
  case (Cons k ks)
  from Cons.prems have "table_step k tab t = []" by (cases k) auto
  with Cons show ?case by simp
qed simp

section \<open>The contract of a client\<close>

locale mqtt_client =
  fixes ops :: "('c, 'h) mqtt_ops"
    and handlers :: "'c \<Rightarrow> string \<Rightarrow> 'h list"
  assumes start_handlers: "op_Start ops c = Inr c' \<Longrightarrow> handlers c' = handlers c"
    and stop_handlers: "op_Stop ops c = Inr c' \<Longrightarrow> handlers c' = handlers c"
    and publish_handlers: "op_Publish ops m c = Inr c' \<Longrightarrow> handlers c' = handlers c"
    and publish_sync_handlers: "op_PublishSync ops m c = Inr c' \<Longrightarrow> handlers c' = handlers c"
    and subscribe_handlers: "op_Subscribe ops h ts c = Inr c' \<Longrightarrow>
      handlers c' t = handlers c t @ replicate (count_list ts t) h"
    and unsubscribe_handlers: "op_Unsubscribe ops ts c = Inr c' \<Longrightarrow>
      handlers c' t = (if t \<in> set ts then [] else handlers c t)"
begin

lemma perform_handlers:
  "perform ops k c = Inr c' \<Longrightarrow> handlers c' = table_step k (handlers c)"
  by (cases k)
     (auto simp: start_handlers stop_handlers publish_handlers publish_sync_handlers
        subscribe_handlers unsubscribe_handlers)

text \<open>
  Whatever a user calls, the client's callbacks are those the calls ask for: the table of the
  concrete client refines the table of the call list.
\<close>

lemma perform_all_handlers:
  "perform_all ops ks c = Inr c' \<Longrightarrow> handlers c' = call_table ks (handlers c)"
  by (induction ks arbitrary: c) (auto dest: perform_handlers)

end

text \<open>
  A reliable client moreover returns from every call that keeps to the protocol, in any state it can
  be in (\<open>ok\<close>), or fails in one of the ways it admits (\<open>fails\<close>); then so does any sequence of calls.
\<close>

locale reliable_client = mqtt_client +
  fixes ok :: "'a \<Rightarrow> bool" and runs :: "'a \<Rightarrow> bool" and fails :: "abort \<Rightarrow> bool"
  assumes perform_returns: "ok c \<Longrightarrow> client_phase (runs c) [k] = Some b \<Longrightarrow>
    case perform ops k c of Inr c' \<Rightarrow> ok c' \<and> runs c' = b | Inl e \<Rightarrow> fails e"
begin

lemma perform_all_returns:
  assumes "ok c" "client_phase (runs c) ks = Some b"
  shows "case perform_all ops ks c of
      Inr c' \<Rightarrow> ok c' \<and> runs c' = b \<and> handlers c' = call_table ks (handlers c)
    | Inl e \<Rightarrow> fails e"
  using assms
proof (induction ks arbitrary: c)
  case (Cons k ks)
  from Cons.prems(2) client_phase_append [of "runs c" "[k]" ks] obtain b1 where
    b1: "client_phase (runs c) [k] = Some b1" "client_phase b1 ks = Some b"
    by (auto split: option.splits)
  show ?case
  proof (cases "perform ops k c")
    case (Inl e)
    with perform_returns [OF Cons.prems(1) b1(1)] show ?thesis by simp
  next
    case (Inr c1)
    with perform_returns [OF Cons.prems(1) b1(1)] have "ok c1" "runs c1 = b1" by auto
    with Cons.IH [of c1] b1(2) perform_handlers [OF Inr] Inr show ?thesis
      by (simp split: sum.splits)
  qed
qed simp

end

end
