(* ===== verification/Topic_Match.thy ===== *)
theory Topic_Match
  imports Prelude
begin

text \<open>
  Matching a topic against a filter, as the fake broker of testutils/fake_mqtt.go does it: a \<open>+\<close>
  level matches any one level, a \<open>#\<close> level whatever is left. \<open>matches_spec\<close> states the same rule
  without recursion on the code's control flow.
\<close>

fun topicPartsMatch :: "string list \<Rightarrow> string list \<Rightarrow> bool" where
  "topicPartsMatch [] topic \<longleftrightarrow> topic = []"
| "topicPartsMatch (p # pattern) topic \<longleftrightarrow>
     (if p = ''#'' then True
      else (case topic of
              [] \<Rightarrow> False
            | t # topic' \<Rightarrow> (p = ''+'' \<or> p = t) \<and> topicPartsMatch pattern topic'))"

definition topicMatch :: "string \<Rightarrow> string \<Rightarrow> bool" where
  "topicMatch pattern topic \<longleftrightarrow>
     topicPartsMatch (split_on CHR ''/'' pattern) (split_on CHR ''/'' topic)"

abbreviation level_matches :: "string \<Rightarrow> string \<Rightarrow> bool" where
  "level_matches p t \<equiv> p = ''+'' \<or> p = t"

definition matches_spec :: "string list \<Rightarrow> string list \<Rightarrow> bool" where
  "matches_spec ps ts \<longleftrightarrow>
     (if ''#'' \<in> set ps
      then (let k = length (takeWhile (\<lambda>p. p \<noteq> ''#'') ps)
            in k \<le> length ts \<and> list_all2 level_matches (take k ps) (take k ts))
      else list_all2 level_matches ps ts)"

lemma matches_spec_Nil [simp]: "matches_spec [] ts \<longleftrightarrow> ts = []"
  by (simp add: matches_spec_def)

lemma matches_spec_Cons [simp]:
  "matches_spec (p # ps) ts \<longleftrightarrow>
     p = ''#'' \<or> (\<exists>t us. ts = t # us \<and> level_matches p t \<and> matches_spec ps us)"
  by (cases ts) (auto simp: matches_spec_def Let_def)

lemma topicPartsMatch_spec: "topicPartsMatch ps ts \<longleftrightarrow> matches_spec ps ts"
  by (induction ps ts rule: topicPartsMatch.induct) (auto split: list.splits)

text \<open>Without \<open>#\<close> the numbers of levels agree, and so do the levels the filter spells out.\<close>

lemma topicMatch_levels:
  assumes "topicMatch pat t" "''#'' \<notin> set (split_on CHR ''/'' pat)"
  shows "list_all2 level_matches (split_on CHR ''/'' pat) (split_on CHR ''/'' t)"
  using assms by (simp add: topicMatch_def topicPartsMatch_spec matches_spec_def)

lemma topicMatch_length:
  assumes "topicMatch pat t" "''#'' \<notin> set (split_on CHR ''/'' pat)"
  shows "length (split_on CHR ''/'' t) = length (split_on CHR ''/'' pat)"
  using topicMatch_levels [OF assms] by (simp add: list_all2_lengthD)

lemma topicPartsMatch_refl: "topicPartsMatch ps ps"
  by (induction ps) auto

text \<open>A filter without wildcards matches exactly itself.\<close>

lemma topicMatch_plain:
  assumes "''#'' \<notin> set (split_on CHR ''/'' pat)" "''+'' \<notin> set (split_on CHR ''/'' pat)"
  shows "topicMatch pat t \<longleftrightarrow> t = pat"
proof
  assume m: "topicMatch pat t"
  have "list_all2 level_matches ps ts \<Longrightarrow> ''+'' \<notin> set ps \<Longrightarrow> ps = ts" for ps ts
    by (induction rule: list_all2_induct) auto
  with topicMatch_levels [OF m assms(1)] assms(2)
  have "split_on CHR ''/'' pat = split_on CHR ''/'' t" by blast
  then show "t = pat" by (metis join_split)
qed (simp add: topicMatch_def topicPartsMatch_refl)

end
