(* ===== verification/Rpc_Server.thy ===== *)
theory Rpc_Server
  imports Rpc_Request Mqtt_Interface Topic_Match
begin

text \<open>
  The server of rpc.go: finding the method of a topic, calling it, building and publishing the
  reply, \<open>Start\<close>, \<open>Stop\<close> and the goroutine \<open>processMessages\<close> as a step relation. The calls on the
  MQTT client are collected in the state; a panic is the left side of the result.
\<close>

datatype rpc_handler = Receive

text \<open>
  The state of the server. \<open>quitClosed\<close> is whether the channel \<open>quit\<close> is closed, \<open>looping\<close> whether the
  goroutine runs, \<open>receivers\<close> the state of the registered values.
\<close>

record 'u server =
  prefix :: string
  messageCh :: "MQTTMessage list"
  active :: bool
  quitClosed :: bool
  looping :: bool
  serviceMap :: "string \<rightharpoonup> service"
  receivers :: 'u
  calls :: "rpc_handler mqtt_call list"

definition NewMQTTRPCServer :: "string \<Rightarrow> 'u \<Rightarrow> 'u server" where
  "NewMQTTRPCServer appName u =
     \<lparr>prefix = RPC_APP_PREFIX @ appName, messageCh = [], active = False, quitClosed = False,
      looping = False, serviceMap = Map.empty, receivers = u, calls = []\<rparr>"

definition add_calls :: "rpc_handler mqtt_call list \<Rightarrow> 'u server \<Rightarrow> 'u server" where
  "add_calls ks s = s\<lparr>calls := calls s @ ks\<rparr>"

definition subscriptionTopic :: "'u server \<Rightarrow> string" where
  "subscriptionTopic s = prefix s @ ''/+/+/+''"

section \<open>Handling a message\<close>

definition locateMethod :: "'u server \<Rightarrow> string \<Rightarrow> (go_error + service \<times> methodType) res" where
  "locateMethod s topic =
     (let parts = split_on CHR ''/'' topic; n = length parts in
      if n < 3 then Inl (ExplicitPanic ''unexpected topic'')
      else Inr (case serviceMap s (parts ! (n - 3)) of
                  None \<Rightarrow> Inl methodNotFoundError
                | Some svc \<Rightarrow>
                    (case service_method svc (parts ! (n - 2)) of
                       None \<Rightarrow> Inl methodNotFoundError
                     | Some mt \<Rightarrow> Inr (svc, mt))))"

definition parseMessage ::
  "('a, 'u, 'r) rpc_env \<Rightarrow> 'u server \<Rightarrow> MQTTMessage
     \<Rightarrow> (gval \<times> (go_error + service \<times> methodType \<times> 'a argv)) res" where
  "parseMessage env s m =
     bind_res (locateMethod s (Topic m)) (\<lambda>found. Inr
       (case found of
          Inl e \<Rightarrow>
            (case parseRequest env (Payload m) noTarget of
               (i, Inl e1) \<Rightarrow> (GNil, Inl e1)
             | (i, Inr _) \<Rightarrow> (i, Inl e))
        | Inr (svc, mt) \<Rightarrow>
            (let argIsValue = \<not> is_pointer (ArgType mt) in
             case parseRequest env (Payload m) (parseParams env (indirect_type (ArgType mt))) of
               (i, Inl e) \<Rightarrow> (i, Inl e)
             | (i, Inr a) \<Rightarrow> (i, Inr (svc, mt, if argIsValue then ByValue a else ByPointer a)))))"

text \<open>\<open>numCalls\<close> is a \<open>uint\<close>, which wraps around.\<close>

definition count_call :: "service \<Rightarrow> methodType \<Rightarrow> 'u server \<Rightarrow> 'u server" where
  "count_call svc mt s =
     s\<lparr>serviceMap := (serviceMap s)(service_name svc \<mapsto>
        svc\<lparr>service_method := (service_method svc)(mtype_name mt \<mapsto>
          mt\<lparr>numCalls := (numCalls mt + 1) mod 2 ^ 64\<rparr>)\<rparr>)\<rparr>"

definition NumCalls :: "methodType \<Rightarrow> nat" where
  "NumCalls mt = numCalls mt"

definition call_method ::
  "('a, 'u, 'r) rpc_env \<Rightarrow> service \<Rightarrow> methodType \<Rightarrow> 'a argv \<Rightarrow> 'u server
     \<Rightarrow> ('u server \<times> 'r \<times> go_error option) res" where
  "call_method env svc mt a s =
     (let s = count_call svc mt s in
      bind_res (invoke env (service_name svc) (mtype_name mt) a (receivers s))
        (\<lambda>(u, reply, err). Inr (s\<lparr>receivers := u\<rparr>, reply, err)))"

datatype 'r response =
    SuccessResponse gval "'r option"
  | ErrorResponse gval int "string option" string

text \<open>The code of a simple error is -1; the \<open>data\<close> member is there for extended errors only.\<close>

fun buildResponse :: "gval \<Rightarrow> 'r option \<Rightarrow> go_error option \<Rightarrow> 'r response res" where
  "buildResponse i result None = Inr (SuccessResponse i result)"
| "buildResponse i result (Some (InternalError code msg)) =
     (if \<not> isReservedErrorCode code then Inl (ExplicitPanic ''invalid internal error code'')
      else Inr (ErrorResponse i (sint code) None msg))"
| "buildResponse i result (Some (ExtendedError code typ msg)) =
     (if isReservedErrorCode code then Inl (ExplicitPanic ''reserved error code detected'')
      else (case typ of
              None \<Rightarrow> Inl NilDereference
            | Some t \<Rightarrow> Inr (ErrorResponse i (sint code) (Some t) msg)))"
| "buildResponse i result (Some (SimpleError msg)) = Inr (ErrorResponse i (-1) None msg)"

definition doHandleMessage ::
  "('a, 'u, 'r) rpc_env \<Rightarrow> MQTTMessage \<Rightarrow> 'u server \<Rightarrow> ('u server \<times> 'r response) res" where
  "doHandleMessage env m s =
     bind_res (parseMessage env s m) (\<lambda>(i, p).
       case p of
         Inl e \<Rightarrow> bind_res (buildResponse i None (Some e)) (\<lambda>r. Inr (s, r))
       | Inr (svc, mt, a) \<Rightarrow>
           bind_res (call_method env svc mt a s) (\<lambda>(s', result, err).
             bind_res (buildResponse i (Some result) err) (\<lambda>r. Inr (s', r))))"

text \<open>The members of a response are in the order of the structures' fields.\<close>

fun response_json :: "('a, 'u, 'r) rpc_env \<Rightarrow> 'r response \<Rightarrow> json option" where
  "response_json env (SuccessResponse i result) =
     map_option (\<lambda>j. JObject [(''id'', encode_value (format_float env) i), (''result'', j)])
       (case result of None \<Rightarrow> Some JNull | Some r \<Rightarrow> marshal_result env r)"
| "response_json env (ErrorResponse i code typ msg) =
     Some (JObject
       [(''error'', JObject ((''code'', JNumber (itoa code)) #
          (case typ of None \<Rightarrow> [] | Some t \<Rightarrow> [(''data'', JString t)]) @ [(''message'', JString msg)])),
        (''id'', encode_value (format_float env) i)])"

definition reply_message :: "string \<Rightarrow> string \<Rightarrow> MQTTMessage" where
  "reply_message topic payload =
     \<lparr>Topic = topic @ ''/reply'', Payload = payload, QoS = 1, Retained = False\<rparr>"

definition handleMessage ::
  "('a, 'u, 'r) rpc_env \<Rightarrow> MQTTMessage \<Rightarrow> 'u server \<Rightarrow> 'u server res" where
  "handleMessage env m s =
     bind_res (doHandleMessage env m s) (\<lambda>(s', r). Inr
       (case response_json env r of
          None \<Rightarrow> s'
        | Some j \<Rightarrow> add_calls [MPublish (reply_message (Topic m) (render j))] s'))"

section \<open>Start and Stop\<close>

definition announcement :: "'u server \<Rightarrow> service \<Rightarrow> string \<Rightarrow> MQTTMessage" where
  "announcement s svc methodName =
     \<lparr>Topic = prefix s @ ''/'' @ service_name svc @ ''/'' @ methodName, Payload = ''1'', QoS = 1,
      Retained = True\<rparr>"

text \<open>
  The orders in which Go walks the map of services (\<open>so\<close>) and the methods of each (\<open>mo\<close>) are
  arguments; the code sorts the names.
\<close>

definition announcements :: "string list \<Rightarrow> (string \<Rightarrow> string list) \<Rightarrow> 'u server \<Rightarrow> MQTTMessage list" where
  "announcements so mo s =
     concat (map (\<lambda>serviceName.
       (case serviceMap s serviceName of
          None \<Rightarrow> []
        | Some svc \<Rightarrow> map (announcement s svc) (sort (mo serviceName)))) (sort so))"

definition StartServer :: "string list \<Rightarrow> (string \<Rightarrow> string list) \<Rightarrow> 'u server \<Rightarrow> 'u server" where
  "StartServer so mo s =
     (if active s then s
      else
        (let s = s\<lparr>active := True, quitClosed := False\<rparr>;
             s = add_calls [MStart] s;
             s = add_calls [MSubscribe Receive [subscriptionTopic s]] s;
             s = add_calls (map MPublish (announcements so mo s)) s
         in s\<lparr>looping := True\<rparr>))"

definition StopServer :: "'u server \<Rightarrow> 'u server res" where
  "StopServer s =
     (if \<not> active s then Inr s
      else if quitClosed s then Inl ClosedChannel
      else Inr (s\<lparr>quitClosed := True\<rparr>))"

section \<open>The goroutine\<close>

text \<open>The callback of the subscription: it puts the message into the channel when there is room.\<close>

definition receive_message :: "MQTTMessage \<Rightarrow> 'u server \<Rightarrow> 'u server option" where
  "receive_message m s =
     (if length (messageCh s) < RPC_MESSAGE_QUEUE_LEN
      then Some (s\<lparr>messageCh := messageCh s @ [m]\<rparr>) else None)"

text \<open>One round of \<open>processMessages\<close> on a message, and the round that ends it.\<close>

definition process_message :: "('a, 'u, 'r) rpc_env \<Rightarrow> 'u server \<Rightarrow> 'u server res" where
  "process_message env s =
     (case messageCh s of
        [] \<Rightarrow> Inl BlockedForever
      | m # ms \<Rightarrow> handleMessage env m (s\<lparr>messageCh := ms\<rparr>))"

definition process_quit :: "'u server \<Rightarrow> 'u server" where
  "process_quit s = (add_calls [MUnsubscribe [subscriptionTopic s]] s)\<lparr>looping := False\<rparr>"

text \<open>The orders of a start are any orders of the maps.\<close>

definition walk_orders :: "string list \<Rightarrow> (string \<Rightarrow> string list) \<Rightarrow> 'u server \<Rightarrow> bool" where
  "walk_orders so mo s \<longleftrightarrow> key_order (serviceMap s) so \<and>
     (\<forall>name svc. serviceMap s name = Some svc \<longrightarrow> key_order (service_method svc) (mo name))"

text \<open>
  The steps of a server: a registration, a call of \<open>Start\<close> or \<open>Stop\<close>, a delivery by the client (of
  a message whose topic matches the subscription), a round of the goroutine. When several cases of
  its \<open>select\<close> are ready Go takes any of them.
\<close>

inductive rpc_step :: "(nat \<Rightarrow> bool) \<Rightarrow> ('a, 'u, 'r) rpc_env \<Rightarrow> 'u server \<Rightarrow> 'u server \<Rightarrow> bool"
  for table :: "nat \<Rightarrow> bool" and env :: "('a, 'u, 'r) rpc_env" where
  rpc_register:
    "register table rcvr name useName (serviceMap s) = Inr (Inr services) \<Longrightarrow>
       rpc_step table env s (s\<lparr>serviceMap := services\<rparr>)"
| rpc_start: "walk_orders so mo s \<Longrightarrow> rpc_step table env s (StartServer so mo s)"
| rpc_stop: "StopServer s = Inr s' \<Longrightarrow> rpc_step table env s s'"
| rpc_receive:
    "topicMatch (subscriptionTopic s) (Topic m) \<Longrightarrow> receive_message m s = Some s' \<Longrightarrow>
       rpc_step table env s s'"
| rpc_message: "looping s \<Longrightarrow> process_message env s = Inr s' \<Longrightarrow> rpc_step table env s s'"
| rpc_quit: "looping s \<Longrightarrow> quitClosed s \<Longrightarrow> rpc_step table env s (process_quit s)"

inductive rpc_reachable :: "(nat \<Rightarrow> bool) \<Rightarrow> ('a, 'u, 'r) rpc_env \<Rightarrow> 'u server \<Rightarrow> bool"
  for table :: "nat \<Rightarrow> bool" and env :: "('a, 'u, 'r) rpc_env" where
  rpc_new: "rpc_reachable table env (NewMQTTRPCServer appName u)"
| rpc_next: "rpc_reachable table env s \<Longrightarrow> rpc_step table env s s' \<Longrightarrow> rpc_reachable table env s'"

end
