(* ===== verification/Rpc_Invariants.thy ===== *)
theory Rpc_Invariants
  imports Rpc_Server
begin

text \<open>
  What holds of a server in every reachable state: its services are those \<open>register\<close> builds, its
  queue is bounded and holds only messages of its subscription, and it uses its client only after
  \<open>Start\<close>. Then the lemmas on one message: what \<open>parseMessage\<close>, \<open>buildResponse\<close> and \<open>handleMessage\<close> do in
  each case.
\<close>

section \<open>Well-formed services\<close>

definition method_ok :: "(nat \<Rightarrow> bool) \<Rightarrow> string \<Rightarrow> methodType \<Rightarrow> bool" where
  "method_ok table n mt \<longleftrightarrow> mtype_name mt = n \<and> is_pointer (ReplyType mt) \<and>
     isExportedOrBuiltinType table (ArgType mt) \<and> isExportedOrBuiltinType table (ReplyType mt) \<and>
     numCalls mt < 2 ^ 64"

definition service_ok :: "(nat \<Rightarrow> bool) \<Rightarrow> string \<Rightarrow> service \<Rightarrow> bool" where
  "service_ok table n svc \<longleftrightarrow> service_name svc = n \<and> n \<noteq> [] \<and> service_method svc \<noteq> Map.empty \<and>
     finite (dom (service_method svc)) \<and>
     (\<forall>k mt. service_method svc k = Some mt \<longrightarrow> method_ok table k mt)"

definition services_ok :: "(nat \<Rightarrow> bool) \<Rightarrow> (string \<rightharpoonup> service) \<Rightarrow> bool" where
  "services_ok table services \<longleftrightarrow> finite (dom services) \<and>
     (\<forall>k svc. services k = Some svc \<longrightarrow> service_ok table k svc)"

lemma suitableMethod_ok:
  "suitableMethod table m = Some mt \<Longrightarrow> method_ok table (method_name m) mt"
  by (auto simp: suitableMethod_def method_ok_def split: if_splits)

lemma suitableMethods_ok:
  "(\<forall>k mt. suitableMethods table ms k = Some mt \<longrightarrow> method_ok table k mt) \<and>
     finite (dom (suitableMethods table ms))"
  unfolding suitableMethods_def
  by (rule fold_preserves [where P = "\<lambda>r. (\<forall>k mt. r k = Some mt \<longrightarrow> method_ok table k mt) \<and> finite (dom r)"])
     (auto simp: suitableMethod_ok split: option.splits)

lemma register_ok:
  assumes "register table rcvr name useName services = Inr (Inr services')" "services_ok table services"
  shows "services_ok table services'"
  using register_cases [OF assms(1)] assms(2) suitableMethods_ok [of table]
  by (auto simp: services_ok_def service_ok_def)

lemma count_call_ok:
  assumes "services_ok table (serviceMap s)" "serviceMap s n = Some svc" "service_method svc k = Some mt"
  shows "services_ok table (serviceMap (count_call svc mt s))"
proof -
  have "service_ok table n svc" "method_ok table k mt"
    using assms by (auto simp: services_ok_def service_ok_def)
  with assms show ?thesis
    by (auto simp: count_call_def services_ok_def service_ok_def method_ok_def)
qed

section \<open>Fields the operations keep\<close>

lemma count_call_simps [simp]:
  "prefix (count_call svc mt s) = prefix s"
  "messageCh (count_call svc mt s) = messageCh s"
  "active (count_call svc mt s) = active s"
  "quitClosed (count_call svc mt s) = quitClosed s"
  "looping (count_call svc mt s) = looping s"
  "receivers (count_call svc mt s) = receivers s"
  "calls (count_call svc mt s) = calls s"
  by (simp_all add: count_call_def)

lemma add_calls_simps [simp]:
  "prefix (add_calls ks s) = prefix s"
  "messageCh (add_calls ks s) = messageCh s"
  "active (add_calls ks s) = active s"
  "quitClosed (add_calls ks s) = quitClosed s"
  "looping (add_calls ks s) = looping s"
  "serviceMap (add_calls ks s) = serviceMap s"
  "receivers (add_calls ks s) = receivers s"
  "calls (add_calls ks s) = calls s @ ks"
  by (simp_all add: add_calls_def)

section \<open>Locating and parsing\<close>

lemma locateMethod_Inr:
  "locateMethod s topic = Inr (Inr (svc, mt)) \<longleftrightarrow>
     (let parts = split_on CHR ''/'' topic; n = length parts in
      3 \<le> n \<and> serviceMap s (parts ! (n - 3)) = Some svc \<and> service_method svc (parts ! (n - 2)) = Some mt)"
  by (auto simp: locateMethod_def Let_def split: option.splits)

text \<open>
  One message: \<open>parseMessage\<close> fails with an error of the protocol, or gives a located method and
  arguments. \<open>parsed\<close> spells out the second.
\<close>

definition parsed ::
  "('a, 'u, 'r) rpc_env \<Rightarrow> 'u server \<Rightarrow> MQTTMessage \<Rightarrow> gval \<Rightarrow> service \<Rightarrow> methodType \<Rightarrow> 'a argv \<Rightarrow> bool" where
  "parsed env s m i svc mt a \<longleftrightarrow> parseMessage env s m = Inr (i, Inr (svc, mt, a))"

text \<open>What \<open>parseRequest\<close> finds before it looks at the parameters: an error, or the request and its id.\<close>

definition request_id ::
  "('a, 'u, 'r) rpc_env \<Rightarrow> string \<Rightarrow> (gval \<times> go_error) + (rpcRequest \<times> gval)" where
  "request_id env payload =
     (case unmarshalRequest payload of
        None \<Rightarrow> Inl (GNil, parseError)
      | Some req \<Rightarrow>
          (case req_Id req of
             None \<Rightarrow> Inl (GNil, invalidRequestError)
           | Some j \<Rightarrow>
               (case decode_value (parse_float env) j of
                  (i, False) \<Rightarrow> Inl (i, parseError)
                | (i, True) \<Rightarrow> (if validateId i = None then Inr (req, i) else Inl (GNil, invalidRequestError)))))"

lemma validateId_Some: "validateId i = Some e \<Longrightarrow> e = invalidRequestError"
  by (cases i) (auto split: if_splits)

lemma parseRequest_eq:
  "parseRequest env payload target =
     (case request_id env payload of Inl (i, e) \<Rightarrow> (i, Inl e) | Inr (req, i) \<Rightarrow> target req i)"
  by (auto simp: parseRequest_def request_id_def dest: validateId_Some
      split: option.splits prod.splits bool.splits)

lemma request_id_Inl:
  "request_id env payload = Inl (i, e) \<Longrightarrow> e = parseError \<or> e = invalidRequestError \<and> i = GNil"
  by (auto simp: request_id_def split: option.splits prod.splits bool.splits if_splits)

lemma request_id_Inr:
  "request_id env payload = Inr (req, i) \<Longrightarrow>
     unmarshalRequest payload = Some req \<and> validateId i = None \<and>
     (\<exists>j. req_Id req = Some j \<and> decode_value (parse_float env) j = (i, True))"
  by (auto simp: request_id_def split: option.splits prod.splits bool.splits if_splits)

text \<open>\<open>parseMessage\<close> by the two questions it asks: is there such a method, and is the request good.\<close>

lemma parseMessage_missing:
  "locateMethod s (Topic m) = Inr (Inl e) \<Longrightarrow>
     parseMessage env s m = Inr (case request_id env (Payload m) of
       Inl (i, e1) \<Rightarrow> (GNil, Inl e1) | Inr (req, i) \<Rightarrow> (i, Inl e))"
  by (simp add: parseMessage_def parseRequest_eq noTarget_def split: sum.splits prod.splits)

definition pass_args :: "methodType \<Rightarrow> 'a \<Rightarrow> 'a argv" where
  "pass_args mt a = (if is_pointer (ArgType mt) then ByPointer a else ByValue a)"

lemma parseMessage_found:
  "locateMethod s (Topic m) = Inr (Inr (svc, mt)) \<Longrightarrow>
     parseMessage env s m = Inr (case request_id env (Payload m) of
       Inl (i, e) \<Rightarrow> (i, Inl e)
     | Inr (req, i) \<Rightarrow>
         (case req_Params req of
            None \<Rightarrow> (i, Inl invalidParamsError)
          | Some p \<Rightarrow>
              (case decode_params env (indirect_type (ArgType mt)) p of
                 Decoded a \<Rightarrow> (i, Inr (svc, mt, pass_args mt a))
               | SyntaxErr \<Rightarrow> (GNil, Inl parseError)
               | TypeErr \<Rightarrow> (i, Inl invalidParamsError))))"
  by (simp add: parseMessage_def parseRequest_eq parseParams_def pass_args_def
      split: sum.splits prod.splits option.splits decoded.splits)

lemma locateMethod_Inl: "locateMethod s topic = Inr (Inl e) \<Longrightarrow> e = methodNotFoundError"
  by (auto simp: locateMethod_def Let_def split: if_splits option.splits)

lemmas parseMessage_splits = sum.split_asm prod.split_asm option.split_asm decoded.split_asm

lemma parsed_located:
  assumes "parsed env s m i svc mt a"
  shows "locateMethod s (Topic m) = Inr (Inr (svc, mt))"
proof -
  from assms obtain found where l: "locateMethod s (Topic m) = Inr found"
    by (auto simp: parsed_def parseMessage_def)
  with assms show ?thesis
    by (cases found)
       (auto simp: parsed_def parseMessage_missing parseMessage_found split: parseMessage_splits)
qed

lemma protocol_errors:
  assumes "parseMessage env s m = Inr (i, Inl e)"
  shows "e \<in> {parseError, invalidRequestError, methodNotFoundError, invalidParamsError}"
proof -
  from assms obtain found where l: "locateMethod s (Topic m) = Inr found"
    by (auto simp: parseMessage_def)
  with assms show ?thesis
    by (cases found)
       (auto simp: parseMessage_missing parseMessage_found dest: request_id_Inl locateMethod_Inl
          split: parseMessage_splits)
qed

lemma protocol_error_reserved:
  "e \<in> {parseError, invalidRequestError, methodNotFoundError, invalidParamsError} \<Longrightarrow>
     \<exists>code msg. e = InternalError code msg \<and> isReservedErrorCode code"
  by (auto simp: rpc_errors isReservedErrorCode_iff)

section \<open>Topics\<close>

text \<open>Three levels of every subscription are spelt out, so a topic it matches has them.\<close>

lemma matched_levels:
  assumes "topicMatch (RPC_APP_PREFIX @ a) t"
  shows "3 \<le> length (split_on CHR ''/'' t)"
proof -
  have "split_on CHR ''/'' (RPC_APP_PREFIX @ a) = [] # ''rpc'' # ''v1'' # split_on CHR ''/'' a"
    by (simp add: RPC_APP_PREFIX_def)
  with assms show ?thesis
    by (auto simp: topicMatch_def topicPartsMatch_spec)
qed

lemma locateMethod_returns:
  assumes "topicMatch (RPC_APP_PREFIX @ a) t"
  shows "\<exists>found. locateMethod s t = Inr found"
  using matched_levels [OF assms] by (auto simp: locateMethod_def Let_def)

section \<open>Handling one message\<close>

text \<open>What a handled message may change: the receivers, the call counters and the calls made.\<close>

definition same_server :: "'u server \<Rightarrow> 'u server \<Rightarrow> bool" where
  "same_server s s' \<longleftrightarrow> prefix s' = prefix s \<and> messageCh s' = messageCh s \<and> active s' = active s \<and>
     quitClosed s' = quitClosed s \<and> looping s' = looping s \<and>
     (\<exists>ms. calls s' = calls s @ map MPublish ms \<and> length ms \<le> 1)"

lemma call_method_Inr:
  "call_method env svc mt a s = Inr (s', r, err) \<longleftrightarrow>
     (\<exists>u. invoke env (service_name svc) (mtype_name mt) a (receivers s) = Inr (u, r, err) \<and>
        s' = (count_call svc mt s)\<lparr>receivers := u\<rparr>)"
  by (auto simp: call_method_def Let_def)

text \<open>A handled message is one of two kinds: refused with an error of the protocol, or called.\<close>

lemma doHandleMessage_cases:
  assumes "doHandleMessage env m s = Inr (s', r)"
  obtains
    (refused) i e where "parseMessage env s m = Inr (i, Inl e)" "s' = s"
      "buildResponse i None (Some e) = Inr r"
  | (called) i svc mt a u result err where "parsed env s m i svc mt a"
      "invoke env (service_name svc) (mtype_name mt) a (receivers s) = Inr (u, result, err)"
      "s' = (count_call svc mt s)\<lparr>receivers := u\<rparr>" "buildResponse i (Some result) err = Inr r"
proof -
  from assms obtain i p where p: "parseMessage env s m = Inr (i, p)"
    by (auto simp: doHandleMessage_def)
  show ?thesis
  proof (cases p)
    case (Inl e)
    with assms p show ?thesis by (intro refused) (auto simp: doHandleMessage_def)
  next
    case (Inr q)
    then obtain svc mt a where q: "p = Inr (svc, mt, a)" by (cases q) auto
    with assms p show ?thesis
      by (auto simp: doHandleMessage_def call_method_Inr intro!: called [of i svc mt a] simp: parsed_def)
  qed
qed

lemma handleMessage_Inr:
  "handleMessage env m s = Inr s' \<longleftrightarrow>
     (\<exists>s1 r. doHandleMessage env m s = Inr (s1, r) \<and>
        s' = (case response_json env r of None \<Rightarrow> s1
              | Some j \<Rightarrow> add_calls [MPublish (reply_message (Topic m) (render j))] s1))"
  by (auto simp: handleMessage_def)

lemma handle_same:
  assumes "handleMessage env m s = Inr s'"
  shows "same_server s s'"
proof -
  from assms obtain s1 r where d: "doHandleMessage env m s = Inr (s1, r)"
    and s': "s' = (case response_json env r of None \<Rightarrow> s1
              | Some j \<Rightarrow> add_calls [MPublish (reply_message (Topic m) (render j))] s1)"
    by (auto simp: handleMessage_Inr)
  have "prefix s1 = prefix s \<and> messageCh s1 = messageCh s \<and> active s1 = active s \<and>
      quitClosed s1 = quitClosed s \<and> looping s1 = looping s \<and> calls s1 = calls s"
    using d by (cases rule: doHandleMessage_cases) auto
  then show ?thesis
    by (cases "response_json env r")
       (auto simp: same_server_def s' intro: exI [of _ "[]"] exI [of _ "[_]"])
qed

lemma handle_services:
  assumes "handleMessage env m s = Inr s'" "services_ok table (serviceMap s)"
  shows "services_ok table (serviceMap s')"
proof -
  from assms(1) obtain s1 r where d: "doHandleMessage env m s = Inr (s1, r)"
    and s': "serviceMap s' = serviceMap s1"
    by (auto simp: handleMessage_Inr split: option.splits)
  from d have "services_ok table (serviceMap s1)"
  proof (cases rule: doHandleMessage_cases)
    case (called i svc mt a u result err)
    from parsed_located [OF called(1)] obtain n k where
      "serviceMap s n = Some svc" "service_method svc k = Some mt"
      by (auto simp: locateMethod_Inr Let_def)
    from count_call_ok [OF assms(2) this] called(3) show ?thesis by simp
  qed (use assms(2) in simp)
  with s' show ?thesis by simp
qed

section \<open>The invariant of the server\<close>

definition rpc_inv :: "(nat \<Rightarrow> bool) \<Rightarrow> 'u server \<Rightarrow> bool" where
  "rpc_inv table s \<longleftrightarrow>
     services_ok table (serviceMap s) \<and>
     (\<exists>app. prefix s = RPC_APP_PREFIX @ app) \<and>
     length (messageCh s) \<le> RPC_MESSAGE_QUEUE_LEN \<and>
     (\<forall>m\<in>set (messageCh s). topicMatch (subscriptionTopic s) (Topic m)) \<and>
     (looping s \<longrightarrow> active s) \<and> (quitClosed s \<longrightarrow> active s) \<and> (active s \<longrightarrow> looping s \<or> quitClosed s) \<and>
     client_phase False (calls s) = Some (active s)"

lemma client_phase_publishes: "client_phase True (map MPublish ms) = Some True"
  by (induction ms) auto

lemma rpc_inv_new: "rpc_inv table (NewMQTTRPCServer app u)"
  by (simp add: rpc_inv_def NewMQTTRPCServer_def services_ok_def)

lemma rpc_inv_start:
  assumes "rpc_inv table s"
  shows "rpc_inv table (StartServer so mo s)"
  using assms
  by (auto simp: rpc_inv_def StartServer_def Let_def client_phase_append client_phase_publishes
      subscriptionTopic_def)

lemma rpc_inv_process:
  assumes "rpc_inv table s" "looping s" "process_message env s = Inr s'"
  shows "rpc_inv table s'"
proof -
  from assms(3) obtain m ms where ms: "messageCh s = m # ms"
    and h: "handleMessage env m (s\<lparr>messageCh := ms\<rparr>) = Inr s'"
    by (auto simp: process_message_def split: list.splits)
  from handle_same [OF h] obtain ps where ps: "calls s' = calls s @ map MPublish ps"
    "prefix s' = prefix s" "messageCh s' = ms" "active s' = active s" "quitClosed s' = quitClosed s"
    "looping s' = looping s"
    by (auto simp: same_server_def)
  moreover have "services_ok table (serviceMap s')"
    using handle_services [OF h] assms(1) by (simp add: rpc_inv_def)
  moreover have a: "active s" "client_phase False (calls s) = Some True"
    using assms(1,2) by (simp_all add: rpc_inv_def)
  then have "client_phase False (calls s @ map MPublish ps) = Some True"
    by (simp add: client_phase_append client_phase_publishes)
  moreover have "length ms \<le> RPC_MESSAGE_QUEUE_LEN"
    "\<forall>m\<in>set ms. topicMatch (prefix s @ ''/+/+/+'') (Topic m)" "\<exists>app. prefix s = RPC_APP_PREFIX @ app"
    using assms(1) unfolding rpc_inv_def subscriptionTopic_def ms by simp_all
  ultimately show ?thesis
    using assms(2) a(1) unfolding rpc_inv_def subscriptionTopic_def by simp
qed

lemma rpc_inv_step: "rpc_step table env s s' \<Longrightarrow> rpc_inv table s \<Longrightarrow> rpc_inv table s'"
proof (induction rule: rpc_step.induct)
  case (rpc_register rcvr name useName s services)
  then show ?case
    using register_ok [OF rpc_register(1)] by (auto simp: rpc_inv_def subscriptionTopic_def)
next
  case (rpc_start so mo s)
  then show ?case by (simp add: rpc_inv_start)
next
  case (rpc_stop s s')
  then show ?case by (auto simp: StopServer_def rpc_inv_def subscriptionTopic_def split: if_splits)
next
  case (rpc_receive s m s')
  then show ?case
    by (auto simp: receive_message_def rpc_inv_def subscriptionTopic_def split: if_splits)
next
  case (rpc_message s s')
  show ?case by (rule rpc_inv_process [OF rpc_message(3,1,2)])
next
  case (rpc_quit s)
  then show ?case
    by (auto simp: process_quit_def rpc_inv_def client_phase_append subscriptionTopic_def)
qed

lemma rpc_reachable_inv: "rpc_reachable table env s \<Longrightarrow> rpc_inv table s"
  by (induction rule: rpc_reachable.induct) (auto intro: rpc_inv_new rpc_inv_step)

end
