(* ===== verification/Rpc_Demo.thy ===== *)
theory Rpc_Demo
  imports Rpc_Invariants
begin

text \<open>
  The \<open>Arith\<close> service of rpc_test.go: its methods with their types, what they do, and a server it is
  registered in, from its creation to the reply to a request. The witnesses of the server's
  properties are stated at these states.
\<close>

definition args_type :: gotype where "args_type = Pointer [] [] (Plain ''Args'' ''wbgo_test'')"
definition int_ptr :: gotype where "int_ptr = Pointer [] [] (Plain ''int'' [])"
definition arith_type :: gotype where "arith_type = Plain ''Arith'' ''wbgo_test''"

definition arith_method :: "string \<Rightarrow> gotype \<Rightarrow> go_method" where
  "arith_method n reply = \<lparr>method_name = n, method_pkg = [],
     method_ins = [Pointer [] [] arith_type, args_type, reply], method_outs = [typeOfError]\<rparr>"

definition arith_methods :: "go_method list" where
  "arith_methods =
     [arith_method ''Divide'' (Pointer [] [] (Plain ''Quotient'' ''wbgo_test'')),
      arith_method ''MakeAnError'' int_ptr,
      arith_method ''Multiply'' int_ptr]"

definition arith :: receiver where
  "arith = \<lparr>rcvr_type = Pointer [] [] arith_type, rcvr_methods = arith_methods, ptr_methods = [],
     rcvr_nil = False\<rparr>"

definition arith_mtype :: "string \<Rightarrow> gotype \<Rightarrow> methodType" where
  "arith_mtype n reply = \<lparr>mtype_name = n, ArgType = args_type, ReplyType = reply, numCalls = 0\<rparr>"

definition arith_service :: service where
  "arith_service = \<lparr>service_name = ''Arith'', service_method =
     [''Divide'' \<mapsto> arith_mtype ''Divide'' (Pointer [] [] (Plain ''Quotient'' ''wbgo_test'')),
      ''MakeAnError'' \<mapsto> arith_mtype ''MakeAnError'' int_ptr,
      ''Multiply'' \<mapsto> arith_mtype ''Multiply'' int_ptr]\<rparr>"

text \<open>No letter past Latin-1 matters here. The arguments are the numbers A and B.\<close>

definition demo_table :: "nat \<Rightarrow> bool" where "demo_table r = False"

definition num_member :: "string \<Rightarrow> (string \<times> json) list \<Rightarrow> int option" where
  "num_member k ps =
     (case map_of ps k of
        None \<Rightarrow> Some 0
      | Some (JNumber n) \<Rightarrow> Some (int (digits_value n))
      | Some _ \<Rightarrow> None)"

fun demo_params :: "gotype \<Rightarrow> json \<Rightarrow> (int \<times> int) decoded" where
  "demo_params ty (JObject ps) =
     (case (num_member ''A'' ps, num_member ''B'' ps) of
        (Some a, Some b) \<Rightarrow> Decoded (a, b)
      | _ \<Rightarrow> TypeErr)"
| "demo_params ty j = TypeErr"

fun argv_value :: "'a argv \<Rightarrow> 'a" where
  "argv_value (ByPointer a) = a"
| "argv_value (ByValue a) = a"

definition arith_invoke ::
  "string \<Rightarrow> string \<Rightarrow> (int \<times> int) argv \<Rightarrow> unit \<Rightarrow> (unit \<times> json \<times> go_error option) res" where
  "arith_invoke svc meth arg u =
     (case argv_value arg of (a, b) \<Rightarrow>
        if meth = ''Multiply'' then Inr ((), JNumber (itoa (a * b)), None)
        else if meth = ''Divide'' then
          (if b = 0 then Inr ((), JNull, Some (SimpleError ''divide by zero''))
           else Inr ((), JObject [(''Quo'', JNumber (itoa (a div b))), (''Rem'', JNumber (itoa (a mod b)))], None))
        else Inr ((), JNumber ''0'',
          Some (ExtendedError (-42) (Some ''ErrorWithCode'') ''app error with code'')))"

text \<open>One number is enough for the witnesses: 7, as a literal and as a \<open>float64\<close>.\<close>

definition seven :: float64_bits where "seven = 0x401C000000000000"
definition half :: float64_bits where "half = 0x3FE0000000000000"

definition demo_rpc :: "(int \<times> int, unit, json) rpc_env" where
  "demo_rpc =
     \<lparr>parse_float = (\<lambda>s. if s = ''7'' then Some seven else if s = ''0.5'' then Some half else None),
      format_float = (\<lambda>w. if w = seven then ''7'' else ''0.5''),
      decode_params = demo_params, invoke = arith_invoke, marshal_result = Some\<rparr>"

definition rpc_s0 :: "unit server" where "rpc_s0 = NewMQTTRPCServer ''SampleRpc'' ()"
definition rpc_s1 :: "unit server" where "rpc_s1 = rpc_s0\<lparr>serviceMap := [''Arith'' \<mapsto> arith_service]\<rparr>"

definition arith_names :: "string list" where
  "arith_names = [''Multiply'', ''Divide'', ''MakeAnError'']"

definition rpc_s2 :: "unit server" where
  "rpc_s2 = StartServer [''Arith''] (\<lambda>_. arith_names) rpc_s1"

definition rpc_topic :: "string \<Rightarrow> string" where
  "rpc_topic meth = ''/rpc/v1/SampleRpc/Arith/'' @ meth @ ''/b692040b''"

definition rpc_request :: "string \<Rightarrow> json \<Rightarrow> json \<Rightarrow> MQTTMessage" where
  "rpc_request meth i ps =
     \<lparr>Topic = rpc_topic meth, Payload = render (JObject [(''id'', i), (''params'', ps)]),
      QoS = 1, Retained = False\<rparr>"

definition args_json :: "string \<Rightarrow> string \<Rightarrow> json" where
  "args_json a b = JObject [(''A'', JNumber a), (''B'', JNumber b)]"

definition rpc_msg :: MQTTMessage where
  "rpc_msg = rpc_request ''Multiply'' (JString ''0'') (args_json ''6'' ''7'')"

definition rpc_s3 :: "unit server" where "rpc_s3 = rpc_s2\<lparr>messageCh := [rpc_msg]\<rparr>"
definition rpc_s4 :: "unit server" where "rpc_s4 = rpc_s3\<lparr>quitClosed := True\<rparr>"

lemma demo_suitable: "suitableMethods demo_table arith_methods = service_method arith_service"
  by (simp add: arith_methods_def arith_method_def suitableMethods_def suitableMethod_def
      args_type_def int_ptr_def isExported_def IsUpper_def DecodeRune_ascii typeOfError_def
      arith_service_def arith_mtype_def)

lemma arith_service_methods: "service_method arith_service \<noteq> Map.empty"
  by (simp add: arith_service_def)

lemma demo_register: "register demo_table arith [] False Map.empty =
    Inr (Inr [''Arith'' \<mapsto> arith_service])"
proof -
  have "isExported demo_table ''Arith''"
    by (simp add: isExported_def IsUpper_def DecodeRune_ascii)
  moreover have "arith_service = \<lparr>service_name = ''Arith'', service_method = service_method arith_service\<rparr>"
    by (simp add: arith_service_def)
  ultimately show ?thesis
    using arith_service_methods by (simp add: register_def arith_def arith_type_def demo_suitable)
qed

lemma arith_service_dom: "dom (service_method arith_service) = set arith_names"
  by (auto simp: arith_service_def arith_names_def)

lemma demo_orders: "walk_orders [''Arith''] (\<lambda>_. arith_names) rpc_s1"
  by (auto simp: walk_orders_def key_order_def rpc_s1_def arith_service_dom) (simp_all add: arith_names_def)

lemma rpc_s2_simps [simp]:
  "prefix rpc_s2 = ''/rpc/v1/SampleRpc''" "active rpc_s2" "looping rpc_s2" "\<not> quitClosed rpc_s2"
  "messageCh rpc_s2 = []" "serviceMap rpc_s2 = [''Arith'' \<mapsto> arith_service]"
  by (simp_all add: rpc_s2_def StartServer_def Let_def rpc_s1_def rpc_s0_def NewMQTTRPCServer_def
      RPC_APP_PREFIX_def add_calls_def)

lemma rpc_msg_matches: "topicMatch (subscriptionTopic rpc_s2) (Topic rpc_msg)"
  by (simp add: topicMatch_def subscriptionTopic_def rpc_msg_def rpc_request_def rpc_topic_def)

lemma rpc_s1_reachable: "rpc_reachable demo_table demo_rpc rpc_s1"
  unfolding rpc_s1_def
  by (rule rpc_next [OF rpc_new [of _ _ "''SampleRpc''" "()"], folded rpc_s0_def])
     (rule rpc_register [where rcvr = arith and name = "[]" and useName = False],
      simp add: rpc_s0_def NewMQTTRPCServer_def demo_register)

lemma rpc_s2_reachable: "rpc_reachable demo_table demo_rpc rpc_s2"
  unfolding rpc_s2_def by (rule rpc_next [OF rpc_s1_reachable rpc_start [OF demo_orders]])

lemma rpc_s3_reachable: "rpc_reachable demo_table demo_rpc rpc_s3"
  by (rule rpc_next [OF rpc_s2_reachable rpc_receive [OF rpc_msg_matches]])
     (simp add: receive_message_def RPC_MESSAGE_QUEUE_LEN_def rpc_s3_def)

lemma rpc_s4_reachable: "rpc_reachable demo_table demo_rpc rpc_s4"
  by (rule rpc_next [OF rpc_s3_reachable rpc_stop]) (simp add: StopServer_def rpc_s3_def rpc_s4_def)

end
