(* ===== verification/Fake_Mqtt.thy ===== *)
theory Fake_Mqtt
  imports Mqtt_Interface Topic_Match Recorder
begin

text \<open>
  The fake broker and its clients of testutils/fake_mqtt.go, which the program's own tests and its
  users' tests run the driver against. Broker and clients point to each other, so one state holds
  the broker and all the clients; a client is the number it was made with (the heap of clients is a
  function, and \<open>made\<close> counts those that exist). A callback runs inside
  \<open>receive\<close>, with the locks held: the state keeps the calls of callbacks, in order. \<open>range\<close> over the
  two maps takes the order of their keys as an argument.
\<close>

record 'h fake_client =
  client_id :: string
  client_started :: bool
  callbackMap :: "string \<rightharpoonup> 'h list"
  client_ready :: bool

record 'h fake =
  rec_ch :: recorder
  subscriptions :: "string \<rightharpoonup> nat list"
  broker_waits :: bool
  readyChannels :: "nat list"
  clients :: "nat \<Rightarrow> 'h fake_client"
  made :: nat
  received :: "(nat \<times> 'h \<times> MQTTMessage) list"

definition newClient :: "string \<Rightarrow> 'h fake_client" where
  "newClient i =
     \<lparr>client_id = i, client_started = False, callbackMap = Map.empty, client_ready = False\<rparr>"

definition NewFakeMQTTBroker :: "'h fake" where
  "NewFakeMQTTBroker =
     \<lparr>rec_ch = [], subscriptions = Map.empty, broker_waits = False, readyChannels = [],
      clients = (\<lambda>_. newClient []), made = 0, received = []\<rparr>"

definition record_item :: "string \<Rightarrow> 'h fake \<Rightarrow> 'h fake res" where
  "record_item item s = bind_res (Rec item (rec_ch s)) (\<lambda>ch. Inr (s\<lparr>rec_ch := ch\<rparr>))"

definition FormatMQTTMessage :: "MQTTMessage \<Rightarrow> string" where
  "FormatMQTTMessage m =
     ''['' @ Payload m @ ''] (QoS '' @ itoa (int (QoS m)) @
     (if Retained m then '', retained'' else []) @ '')''"

definition SetWaitForRetained :: "bool \<Rightarrow> 'h fake \<Rightarrow> 'h fake" where
  "SetWaitForRetained b s = s\<lparr>broker_waits := b\<rparr>"

definition MakeClient :: "string \<Rightarrow> 'h fake \<Rightarrow> 'h fake \<times> nat" where
  "MakeClient i s =
     (let n = made s;
          s = s\<lparr>clients := (clients s)(n := newClient i), made := n + 1\<rparr>
      in (step_if (broker_waits s) (\<lambda>s. s\<lparr>readyChannels := readyChannels s @ [n]\<rparr>) s, n))"

definition update_client :: "nat \<Rightarrow> ('h fake_client \<Rightarrow> 'h fake_client) \<Rightarrow> 'h fake \<Rightarrow> 'h fake" where
  "update_client n f s = s\<lparr>clients := (clients s)(n := f (clients s n))\<rparr>"

definition close_ready :: "nat \<Rightarrow> 'h fake \<Rightarrow> 'h fake res" where
  "close_ready n s =
     (if client_ready (clients s n) then Inl ClosedChannel
      else Inr (update_client n (client_ready_update (\<lambda>_. True)) s))"

fun close_all :: "nat list \<Rightarrow> 'h fake \<Rightarrow> 'h fake res" where
  "close_all [] s = Inr s"
| "close_all (n # ns) s = bind_res (close_ready n s) (close_all ns)"

definition SetReady :: "'h fake \<Rightarrow> 'h fake res" where
  "SetReady s = bind_res (close_all (readyChannels s) s) (\<lambda>s. Inr (s\<lparr>readyChannels := []\<rparr>))"

section \<open>Publishing\<close>

definition receive :: "string list \<Rightarrow> nat \<Rightarrow> MQTTMessage \<Rightarrow> 'h fake \<Rightarrow> 'h fake" where
  "receive ts n message s =
     s\<lparr>received := received s @
        concat (map (\<lambda>t. if topicMatch t (Topic message)
                         then map (\<lambda>h. (n, h, message)) (get_or [] (callbackMap (clients s n)) t)
                         else []) ts)\<rparr>"

definition brokerPublish ::
  "string list \<Rightarrow> (string \<Rightarrow> nat \<Rightarrow> string list) \<Rightarrow> string \<Rightarrow> MQTTMessage \<Rightarrow> 'h fake \<Rightarrow> 'h fake res" where
  "brokerPublish ps ts origin message s =
     bind_res (record_item (origin @ '' -> '' @ Topic message @ '': '' @ FormatMQTTMessage message) s)
       (\<lambda>s. Inr (fold (\<lambda>p. step_if (topicMatch p (Topic message))
                     (\<lambda>s. fold (\<lambda>n. receive (ts p n) n message) (get_or [] (subscriptions s) p) s)) ps s))"

definition ensureStarted :: "nat \<Rightarrow> 'h fake \<Rightarrow> unit res" where
  "ensureStarted n s =
     (if client_started (clients s n) then Inr ()
      else Inl (ExplicitPanic (client_id (clients s n) @ '': client not started'')))"

definition clientPublish ::
  "string list \<Rightarrow> (string \<Rightarrow> nat \<Rightarrow> string list) \<Rightarrow> nat \<Rightarrow> MQTTMessage \<Rightarrow> 'h fake \<Rightarrow> 'h fake res" where
  "clientPublish ps ts n message s =
     bind_res (ensureStarted n s) (\<lambda>_. brokerPublish ps ts (client_id (clients s n)) message s)"

definition clientPublishSync :: "nat \<Rightarrow> MQTTMessage \<Rightarrow> 'h fake \<Rightarrow> 'h fake res" where
  "clientPublishSync n message s = Inr s"

section \<open>Subscribing\<close>

definition brokerSubscribe :: "nat \<Rightarrow> string \<Rightarrow> 'h fake \<Rightarrow> 'h fake res" where
  "brokerSubscribe n t s =
     bind_res (record_item (''Subscribe -- '' @ client_id (clients s n) @ '': '' @ t) s)
       (\<lambda>s. Inr (case subscriptions s t of
                   None \<Rightarrow> s\<lparr>subscriptions := (subscriptions s)(t \<mapsto> [n])\<rparr>
                 | Some ns \<Rightarrow> s\<lparr>subscriptions := (subscriptions s)(t \<mapsto> add_once n ns)\<rparr>))"

definition brokerUnsubscribe :: "nat \<Rightarrow> string \<Rightarrow> 'h fake \<Rightarrow> 'h fake res" where
  "brokerUnsubscribe n t s =
     bind_res (record_item (''Unsubscribe -- '' @ client_id (clients s n) @ '': '' @ t) s)
       (\<lambda>s. Inr (case subscriptions s t of
                   None \<Rightarrow> s
                 | Some ns \<Rightarrow> s\<lparr>subscriptions := (subscriptions s)(t \<mapsto> filter (\<lambda>c. c \<noteq> n) ns)\<rparr>))"

definition addCallback :: "nat \<Rightarrow> 'h \<Rightarrow> string \<Rightarrow> 'h fake \<Rightarrow> 'h fake" where
  "addCallback n callback t =
     update_client n (\<lambda>c. c\<lparr>callbackMap :=
       (case callbackMap c t of
          Some hs \<Rightarrow> (callbackMap c)(t \<mapsto> hs @ [callback])
        | None \<Rightarrow> (callbackMap c)(t \<mapsto> [callback]))\<rparr>)"

definition dropCallbacks :: "nat \<Rightarrow> string \<Rightarrow> 'h fake \<Rightarrow> 'h fake" where
  "dropCallbacks n t = update_client n (\<lambda>c. c\<lparr>callbackMap := (callbackMap c)(t := None)\<rparr>)"

fun subscribeAll :: "nat \<Rightarrow> 'h \<Rightarrow> string list \<Rightarrow> 'h fake \<Rightarrow> 'h fake res" where
  "subscribeAll n callback [] s = Inr s"
| "subscribeAll n callback (t # ts) s =
     bind_res (brokerSubscribe n t s) (\<lambda>s. subscribeAll n callback ts (addCallback n callback t s))"

fun unsubscribeAll :: "nat \<Rightarrow> string list \<Rightarrow> 'h fake \<Rightarrow> 'h fake res" where
  "unsubscribeAll n [] s = Inr s"
| "unsubscribeAll n (t # ts) s =
     bind_res (brokerUnsubscribe n t s) (\<lambda>s. unsubscribeAll n ts (dropCallbacks n t s))"

definition clientSubscribe :: "nat \<Rightarrow> 'h \<Rightarrow> string list \<Rightarrow> 'h fake \<Rightarrow> 'h fake res" where
  "clientSubscribe n callback ts s = bind_res (ensureStarted n s) (\<lambda>_. subscribeAll n callback ts s)"

definition clientUnsubscribe :: "nat \<Rightarrow> string list \<Rightarrow> 'h fake \<Rightarrow> 'h fake res" where
  "clientUnsubscribe n ts s = bind_res (ensureStarted n s) (\<lambda>_. unsubscribeAll n ts s)"

section \<open>Starting and stopping\<close>

definition clientStart :: "nat \<Rightarrow> 'h fake \<Rightarrow> 'h fake res" where
  "clientStart n s =
     (if client_started (clients s n) then Inr s
      else (let s = update_client n (client_started_update (\<lambda>_. True)) s in
            if broker_waits s then Inr s else close_ready n s))"

definition clientStop :: "nat \<Rightarrow> 'h fake \<Rightarrow> 'h fake res" where
  "clientStop n s =
     bind_res (ensureStarted n s) (\<lambda>_.
       (let s = update_client n (client_started_update (\<lambda>_. False)) s
        in record_item (''stop: '' @ client_id (clients s n)) s))"

text \<open>Whether a receive from the channel of \<open>WaitForReady\<close> returns.\<close>

definition clientWaitForReady :: "nat \<Rightarrow> 'h fake \<Rightarrow> bool" where
  "clientWaitForReady n s \<longleftrightarrow> client_ready (clients s n)"

text \<open>The fixture of the tests: a recorder, and a broker that writes to it.\<close>

definition NewFakeMQTTFixture :: "'h fake" where
  "NewFakeMQTTFixture = NewFakeMQTTBroker"

definition fake_ops ::
  "('h fake \<Rightarrow> string list) \<Rightarrow> (string \<Rightarrow> nat \<Rightarrow> string list) \<Rightarrow> nat \<Rightarrow> ('h fake, 'h) mqtt_ops" where
  "fake_ops ps ts n =
     \<lparr>op_Start = clientStart n, op_Stop = clientStop n,
      op_Publish = (\<lambda>m s. clientPublish (ps s) ts n m s), op_PublishSync = clientPublishSync n,
      op_Subscribe = clientSubscribe n, op_Unsubscribe = clientUnsubscribe n\<rparr>"

section \<open>The contract\<close>

definition callbacks_of :: "nat \<Rightarrow> 'h fake \<Rightarrow> string \<Rightarrow> 'h list" where
  "callbacks_of n s = get_or [] (callbackMap (clients s n))"

definition subscribers :: "'h fake \<Rightarrow> string \<Rightarrow> nat list" where
  "subscribers s = get_or [] (subscriptions s)"

lemma record_item_Inr:
  "record_item item s = Inr s' \<Longrightarrow> \<exists>ch. s' = s\<lparr>rec_ch := ch\<rparr>"
  by (auto simp: record_item_def)

lemma update_client_fields [simp]:
  "clients (update_client n f s) = (clients s)(n := f (clients s n))"
  "rec_ch (update_client n f s) = rec_ch s" "subscriptions (update_client n f s) = subscriptions s"
  "broker_waits (update_client n f s) = broker_waits s" "received (update_client n f s) = received s"
  "readyChannels (update_client n f s) = readyChannels s" "made (update_client n f s) = made s"
  by (simp_all add: update_client_def)

lemma ensureStarted_Inr [simp]: "ensureStarted n s = Inr u \<longleftrightarrow> client_started (clients s n)"
  by (simp add: ensureStarted_def)

lemma callbacks_of_addCallback [simp]:
  "callbacks_of m (addCallback n h t s) u =
     callbacks_of m s u @ (if m = n \<and> u = t then [h] else [])"
  by (auto simp: callbacks_of_def addCallback_def get_or_def split: option.splits)

lemma callbacks_of_dropCallbacks [simp]:
  "callbacks_of m (dropCallbacks n t s) u = (if m = n \<and> u = t then [] else callbacks_of m s u)"
  by (simp add: callbacks_of_def dropCallbacks_def get_or_def)

lemma brokerSubscribe_Inr:
  assumes "brokerSubscribe n t s = Inr s'"
  shows "clients s' = clients s" "received s' = received s"
    "subscribers s' u = (if u = t then add_once n (subscribers s t) else subscribers s u)"
proof -
  from assms obtain ch where s': "s' = (case subscriptions s t of
        None \<Rightarrow> s\<lparr>rec_ch := ch, subscriptions := (subscriptions (s\<lparr>rec_ch := ch\<rparr>))(t \<mapsto> [n])\<rparr>
      | Some ns \<Rightarrow> s\<lparr>rec_ch := ch, subscriptions := (subscriptions (s\<lparr>rec_ch := ch\<rparr>))(t \<mapsto> add_once n ns)\<rparr>)"
    by (auto simp: brokerSubscribe_def dest!: record_item_Inr)
  show "clients s' = clients s" "received s' = received s"
    by (simp_all add: s' split: option.splits)
  show "subscribers s' u = (if u = t then add_once n (subscribers s t) else subscribers s u)"
    by (simp add: s' subscribers_def get_or_def add_once_def split: option.splits)
qed

lemma brokerUnsubscribe_Inr:
  assumes "brokerUnsubscribe n t s = Inr s'"
  shows "clients s' = clients s" "received s' = received s"
    "subscribers s' u = (if u = t then filter (\<lambda>c. c \<noteq> n) (subscribers s t) else subscribers s u)"
proof -
  from assms obtain ch where s': "s' = (case subscriptions s t of
        None \<Rightarrow> s\<lparr>rec_ch := ch\<rparr>
      | Some ns \<Rightarrow> s\<lparr>rec_ch := ch, subscriptions := (subscriptions (s\<lparr>rec_ch := ch\<rparr>))(t \<mapsto> filter (\<lambda>c. c \<noteq> n) ns)\<rparr>)"
    by (auto simp: brokerUnsubscribe_def dest!: record_item_Inr)
  show "clients s' = clients s" "received s' = received s"
    by (simp_all add: s' split: option.splits)
  show "subscribers s' u = (if u = t then filter (\<lambda>c. c \<noteq> n) (subscribers s t) else subscribers s u)"
    by (simp add: s' subscribers_def get_or_def add_once_def split: option.splits)
qed

lemma callbacks_of_clients: "clients s' = clients s \<Longrightarrow> callbacks_of m s' = callbacks_of m s"
  by (simp add: callbacks_of_def)

lemma subscribers_other [simp]:
  "subscribers (addCallback n h t s) = subscribers s"
  "subscribers (dropCallbacks n t s) = subscribers s"
  "subscribers (update_client n f s) = subscribers s"
  "received (addCallback n h t s) = received s"
  "received (dropCallbacks n t s) = received s"
  by (simp_all add: subscribers_def addCallback_def dropCallbacks_def)

lemma subscribeAll_callbacks:
  "subscribeAll n h ts s = Inr s' \<Longrightarrow>
     callbacks_of m s' t = callbacks_of m s t @ (if m = n then replicate (count_list ts t) h else [])"
proof (induction n h ts s rule: subscribeAll.induct)
  case (2 n h u ts s)
  then obtain s1 where s1: "brokerSubscribe n u s = Inr s1"
    "subscribeAll n h ts (addCallback n h u s1) = Inr s'" by auto
  note "2.IH" [OF s1(2)]
  then show ?case
    by (auto simp: callbacks_of_clients [OF brokerSubscribe_Inr(1) [OF s1(1)]])
qed auto

lemma unsubscribeAll_callbacks:
  "unsubscribeAll n ts s = Inr s' \<Longrightarrow>
     callbacks_of m s' t = (if m = n \<and> t \<in> set ts then [] else callbacks_of m s t)"
proof (induction n ts s rule: unsubscribeAll.induct)
  case (2 n u ts s)
  then obtain s1 where s1: "brokerUnsubscribe n u s = Inr s1"
    "unsubscribeAll n ts (dropCallbacks n u s1) = Inr s'" by auto
  note "2.IH" [OF s1(2)]
  then show ?case
    by (auto simp: callbacks_of_clients [OF brokerUnsubscribe_Inr(1) [OF s1(1)]])
qed auto

lemma receive_fields [simp]:
  "clients (receive ts n m s) = clients s" "subscriptions (receive ts n m s) = subscriptions s"
  by (simp_all add: receive_def)

lemma fold_receive_fields [simp]:
  "clients (fold (\<lambda>n. receive (ts n) n m) ns s) = clients s"
  "subscriptions (fold (\<lambda>n. receive (ts n) n m) ns s) = subscriptions s"
  by (rule fold_field, simp)+

lemma brokerPublish_fields:
  assumes "brokerPublish ps ts i m s = Inr s'"
  shows "clients s' = clients s" "subscriptions s' = subscriptions s"
proof -
  let ?f = "\<lambda>p. step_if (topicMatch p (Topic m))
    (\<lambda>s. fold (\<lambda>n. receive (ts p n) n m) (get_or [] (subscriptions s) p) s)"
  have "clients (fold ?f ps s1) = clients s1 \<and> subscriptions (fold ?f ps s1) = subscriptions s1" for s1 :: "'a fake"
    by (intro conjI; rule fold_field; rule step_if_field; simp)
  with assms show "clients s' = clients s" "subscriptions s' = subscriptions s"
    by (auto simp: brokerPublish_def dest!: record_item_Inr)
qed

lemma brokerPublish_callbacks:
  "brokerPublish ps ts i m s = Inr s' \<Longrightarrow> callbacks_of n s' = callbacks_of n s"
  by (rule callbacks_of_clients) (rule brokerPublish_fields)

lemma close_ready_Inr:
  "close_ready n s = Inr s' \<Longrightarrow> callbacks_of m s' = callbacks_of m s \<and> subscribers s' = subscribers s"
  by (auto simp: close_ready_def callbacks_of_def split: if_splits)

lemma clientStart_fields:
  "clientStart n s = Inr s' \<Longrightarrow> callbacks_of m s' = callbacks_of m s \<and> subscribers s' = subscribers s"
  by (auto simp: clientStart_def Let_def callbacks_of_def close_ready_def split: if_splits)

lemma clientStop_fields:
  "clientStop n s = Inr s' \<Longrightarrow> callbacks_of m s' = callbacks_of m s \<and> subscribers s' = subscribers s"
  by (auto simp: clientStop_def Let_def callbacks_of_def subscribers_def dest!: record_item_Inr)

interpretation fake: mqtt_client "fake_ops ps ts n" "callbacks_of n"
  by unfold_locales
     (auto simp: fake_ops_def clientPublish_def clientPublishSync_def clientSubscribe_def
        clientUnsubscribe_def subscribeAll_callbacks unsubscribeAll_callbacks
        brokerPublish_callbacks
        dest!: clientStart_fields [where m = n] clientStop_fields [where m = n])

section \<open>Broker and clients agree\<close>

text \<open>
  A client is among a filter's subscribers exactly when it has callbacks for it, and at most once.
\<close>

definition fake_ok :: "'h fake \<Rightarrow> bool" where
  "fake_ok s \<longleftrightarrow>
     (\<forall>t. distinct (subscribers s t) \<and> (\<forall>n. n \<in> set (subscribers s t) \<longleftrightarrow> callbacks_of n s t \<noteq> []))"

lemma fake_ok_new: "fake_ok NewFakeMQTTBroker"
  by (simp add: fake_ok_def NewFakeMQTTBroker_def subscribers_def callbacks_of_def newClient_def)

lemma fake_ok_cong:
  "(\<And>n. callbacks_of n s' = callbacks_of n s) \<Longrightarrow> subscribers s' = subscribers s \<Longrightarrow>
     fake_ok s \<Longrightarrow> fake_ok s'"
  by (simp add: fake_ok_def)

lemma fake_ok_subscribe:
  assumes "fake_ok s" "brokerSubscribe n t s = Inr s1"
  shows "fake_ok (addCallback n h t s1)"
  using assms(1) unfolding fake_ok_def
  by (auto simp: brokerSubscribe_Inr(3) [OF assms(2)] callbacks_of_clients [OF brokerSubscribe_Inr(1) [OF assms(2)]])

lemma fake_ok_unsubscribe:
  assumes "fake_ok s" "brokerUnsubscribe n t s = Inr s1"
  shows "fake_ok (dropCallbacks n t s1)"
  using assms(1) unfolding fake_ok_def
  by (auto simp: brokerUnsubscribe_Inr(3) [OF assms(2)] callbacks_of_clients [OF brokerUnsubscribe_Inr(1) [OF assms(2)]])

lemma fake_ok_subscribeAll: "subscribeAll n h ts s = Inr s' \<Longrightarrow> fake_ok s \<Longrightarrow> fake_ok s'"
  by (induction n h ts s rule: subscribeAll.induct) (auto dest: fake_ok_subscribe)

lemma fake_ok_unsubscribeAll: "unsubscribeAll n ts s = Inr s' \<Longrightarrow> fake_ok s \<Longrightarrow> fake_ok s'"
  by (induction n ts s rule: unsubscribeAll.induct) (auto dest: fake_ok_unsubscribe)

lemma fake_ok_perform:
  assumes "fake_ok s" "perform (fake_ops ps ts n) k s = Inr s'"
  shows "fake_ok s'"
proof (cases k)
  case MStart
  with assms(2) have "clientStart n s = Inr s'" by (simp add: fake_ops_def)
  with clientStart_fields [OF this] show ?thesis
    by (intro fake_ok_cong [OF _ _ assms(1)]) auto
next
  case MStop
  with assms(2) have "clientStop n s = Inr s'" by (simp add: fake_ops_def)
  with clientStop_fields [OF this] show ?thesis
    by (intro fake_ok_cong [OF _ _ assms(1)]) auto
next
  case (MPublish m)
  with assms(2) obtain i where "brokerPublish (ps s) ts i m s = Inr s'"
    by (auto simp: fake_ops_def clientPublish_def)
  from brokerPublish_fields [OF this] show ?thesis
    by (intro fake_ok_cong [OF _ _ assms(1)]) (simp_all add: callbacks_of_def subscribers_def)
next
  case (MPublishSync m)
  with assms show ?thesis by (simp add: fake_ops_def clientPublishSync_def)
next
  case (MSubscribe h us)
  with assms show ?thesis
    by (auto simp: fake_ops_def clientSubscribe_def intro: fake_ok_subscribeAll)
next
  case (MUnsubscribe us)
  with assms show ?thesis
    by (auto simp: fake_ops_def clientUnsubscribe_def intro: fake_ok_unsubscribeAll)
qed

section \<open>What a published message reaches\<close>

definition deliveries :: "(nat \<Rightarrow> string \<Rightarrow> 'h list) \<Rightarrow> string list \<Rightarrow> nat \<Rightarrow> MQTTMessage \<Rightarrow> (nat \<times> 'h \<times> MQTTMessage) list" where
  "deliveries cb ts n m =
     concat (map (\<lambda>t. if topicMatch t (Topic m) then map (\<lambda>h. (n, h, m)) (cb n t) else []) ts)"

lemma received_receive:
  "received (receive ts n m s) = received s @ deliveries (\<lambda>n. callbacks_of n s) ts n m"
  by (simp add: receive_def deliveries_def callbacks_of_def)

lemma received_fold_receive:
  "received (fold (\<lambda>n. receive (ts n) n m) ns s) =
     received s @ concat (map (\<lambda>n. deliveries (\<lambda>n. callbacks_of n s) (ts n) n m) ns)"
proof (induction ns arbitrary: s)
  case (Cons n ns)
  have "callbacks_of k (receive (ts n) n m s) = callbacks_of k s" for k
    by (rule callbacks_of_clients) simp
  with Cons show ?case by (simp add: received_receive)
qed simp

lemma brokerPublish_received:
  assumes "brokerPublish ps ts i m s = Inr s'"
  shows "received s' = received s @
    concat (map (\<lambda>p. if topicMatch p (Topic m)
                     then concat (map (\<lambda>n. deliveries (\<lambda>n. callbacks_of n s) (ts p n) n m) (subscribers s p))
                     else []) ps)"
proof -
  define f where "f = (\<lambda>p. step_if (topicMatch p (Topic m))
    (\<lambda>s :: 'a fake. fold (\<lambda>n. receive (ts p n) n m) (get_or [] (subscriptions s) p) s))"
  define reach where "reach = (\<lambda>(s :: 'a fake) p. if topicMatch p (Topic m)
    then concat (map (\<lambda>n. deliveries (\<lambda>n. callbacks_of n s) (ts p n) n m) (subscribers s p)) else [])"
  have f_same: "clients (f p s1) = clients s1" "subscriptions (f p s1) = subscriptions s1"
    for p and s1 :: "'a fake"
    unfolding f_def by (rule step_if_field, simp)+
  have reach_cong: "reach s1 = reach s2"
    if "clients s1 = clients s2" "subscriptions s1 = subscriptions s2" for s1 s2
  proof -
    have "(\<lambda>n. callbacks_of n s1) = (\<lambda>n. callbacks_of n s2)" "subscribers s1 = subscribers s2"
      using that by (simp_all add: callbacks_of_def subscribers_def)
    then show ?thesis by (simp only: reach_def)
  qed
  have f_received: "received (f p s1) = received s1 @ reach s1 p" for p s1
    by (simp add: f_def step_if_def received_fold_receive subscribers_def reach_def)
  have "received (fold f ps s1) = received s1 @ concat (map (reach s1) ps)" for s1
  proof (induction ps arbitrary: s1)
    case (Cons p ps)
    have "reach (f p s1) = reach s1" by (rule reach_cong) (simp_all add: f_same)
    with Cons [of "f p s1"] show ?case by (simp add: f_received)
  qed simp
  moreover from assms obtain ch where "s' = fold f ps (s\<lparr>rec_ch := ch\<rparr>)"
    by (auto simp: brokerPublish_def f_def dest!: record_item_Inr)
  moreover have "reach (s\<lparr>rec_ch := ch\<rparr>) = reach s" for ch
    by (rule reach_cong) simp_all
  ultimately show ?thesis by (simp add: reach_def)
qed

end
