(* ===== verification/Rpc_Fixture.thy ===== *)
theory Rpc_Fixture
  imports Rpc_Demo Fake_Mqtt
begin

text \<open>
  The set-up of testutils/rpcfixture.go: an RPC server on a client of the fake broker, started, and the
  recorder checked for what starting it should have done. The result is a failed check of the test or
  the fixture. \<open>Rpc_Round_Trip\<close> has what the fixture does with requests.
\<close>

section \<open>The fixture\<close>

record 'u rpc_fixture =
  fx_fake :: "rpc_handler fake"
  fx_rpc :: "'u server"
  fx_id :: "64 word"
  fx_app :: string
  fx_service :: string
  fx_clientName :: string

definition fixture_topic :: "string \<Rightarrow> string \<Rightarrow> string list \<Rightarrow> string" where
  "fixture_topic app service parts = join_with ''/'' ([''/rpc/v1'', app, service] @ parts)"

definition expectedMessage :: "string \<Rightarrow> string \<Rightarrow> string \<Rightarrow> string \<Rightarrow> string \<Rightarrow> bool \<Rightarrow> string" where
  "expectedMessage app service from_client subtopic payload retained =
     (let rtn = (if retained then '', retained'' else [])
      in from_client @ '' -> '' @ fixture_topic app service [subtopic] @ '': ['' @ payload @ ''] (QoS 1'' @ rtn @ '')'')"

text \<open>What the recorder is expected to have after the start.\<close>

definition expected_items :: "string \<Rightarrow> string \<Rightarrow> string \<Rightarrow> string list \<Rightarrow> string list" where
  "expected_items app service clientName methods =
     (''Subscribe -- '' @ clientName @ '': /rpc/v1/'' @ clientName @ ''/+/+/+'') #
       map (\<lambda>m. expectedMessage app service clientName m ''1'' True) methods"

lemma expected_items_nonempty [simp]: "expected_items app service clientName methods \<noteq> []"
  by (simp add: expected_items_def)

text \<open>The error of \<open>Register\<close> is not looked at.\<close>

definition register_receiver :: "(nat \<Rightarrow> bool) \<Rightarrow> receiver \<Rightarrow> 'u server \<Rightarrow> 'u server res" where
  "register_receiver table rcvr s =
     bind_res (Register table rcvr (serviceMap s)) (\<lambda>r. Inr
       (case r of Inl e \<Rightarrow> s | Inr services \<Rightarrow> s\<lparr>serviceMap := services\<rparr>))"

definition NewRpcFixture ::
  "(nat \<Rightarrow> bool) \<Rightarrow> string \<Rightarrow> string \<Rightarrow> string \<Rightarrow> receiver \<Rightarrow> string list \<Rightarrow> 'u
     \<Rightarrow> string list \<Rightarrow> (string \<Rightarrow> string list) \<Rightarrow> (rpc_handler fake \<Rightarrow> string list)
     \<Rightarrow> (string \<Rightarrow> nat \<Rightarrow> string list) \<Rightarrow> (failure + 'u rpc_fixture) res" where
  "NewRpcFixture table app service clientName rcvr methods u so mo ps ts =
     (let (b, n) = MakeClient clientName NewFakeMQTTBroker in
      bind_res (register_receiver table rcvr (NewMQTTRPCServer app u)) (\<lambda>s.
      let (b, tst) = MakeClient ''tst'' b in
      bind_res (clientStart tst b) (\<lambda>b.
      let s = StartServer so mo s in
      bind_res (perform_all (fake_ops ps ts n) (calls s) b) (\<lambda>b.
      Inr (case Verify (map Literal (expected_items app service clientName methods)) (rec_ch b) of
          Inl f \<Rightarrow> Inl f
        | Inr ch \<Rightarrow>
            (case VerifyEmpty ch of
               Inl f \<Rightarrow> Inl f
             | Inr ch \<Rightarrow> Inr \<lparr>fx_fake = b\<lparr>rec_ch := ch\<rparr>, fx_rpc = s, fx_id = 1, fx_app = app,
                 fx_service = service, fx_clientName = clientName\<rparr>))))))"

section \<open>What the recorder has\<close>

definition publish_item :: "string \<Rightarrow> MQTTMessage \<Rightarrow> string" where
  "publish_item client m = client @ '' -> '' @ Topic m @ '': '' @ FormatMQTTMessage m"

lemma clientPublish_records:
  assumes "client_started (clients b n)" "length (rec_ch b) < REC_CAPACITY"
  shows "\<exists>b'. clientPublish ps ts n m b = Inr b' \<and> clients b' = clients b \<and>
    subscriptions b' = subscriptions b \<and> rec_ch b' = rec_ch b @ [publish_item (client_id (clients b n)) m]"
proof -
  let ?item = "publish_item (client_id (clients b n)) m"
  obtain b' where b': "brokerPublish ps ts (client_id (clients b n)) m b = Inr b'"
    "b' = fold (\<lambda>p. step_if (topicMatch p (Topic m))
       (\<lambda>s. fold (\<lambda>n. receive (ts p n) n m) (get_or [] (subscriptions s) p) s)) ps (b\<lparr>rec_ch := rec_ch b @ [?item]\<rparr>)"
    using assms(2) by (simp add: brokerPublish_def record_item_def Rec_def publish_item_def)
  have f: "rec_ch (fold (\<lambda>n. receive (ts p n) n m) ns s) = rec_ch s"
    "clients (fold (\<lambda>n. receive (ts p n) n m) ns s) = clients s" for p ns and s :: "'a fake"
    by (rule fold_field, simp add: receive_def)+
  have "rec_ch b' = rec_ch b @ [?item]" unfolding b'(2)
    by (subst fold_field) (auto simp: step_if_def f)
  moreover have "clients b' = clients b" unfolding b'(2)
    by (subst fold_field) (auto simp: step_if_def f)
  ultimately show ?thesis
    using assms(1) b'(1) brokerPublish_fields(2) [OF b'(1)] by (simp add: clientPublish_def ensureStarted_def)
qed

lemma publishes_recorded:
  assumes "client_started (clients b n)" "length (rec_ch b) + length ms \<le> REC_CAPACITY"
  shows "\<exists>b'. perform_all (fake_ops ps ts n) (map MPublish ms) b = Inr b' \<and>
    clients b' = clients b \<and> subscriptions b' = subscriptions b \<and> rec_ch b' = rec_ch b @ map (publish_item (client_id (clients b n))) ms"
  using assms
proof (induction ms arbitrary: b)
  case (Cons m ms)
  then obtain b1 where b1: "clientPublish (ps b) ts n m b = Inr b1" "clients b1 = clients b"
    "subscriptions b1 = subscriptions b" "rec_ch b1 = rec_ch b @ [publish_item (client_id (clients b n)) m]"
    using clientPublish_records [of b n "ps b" ts m] by auto
  with Cons.IH [of b1] Cons.prems show ?case by (simp add: fake_ops_def)
qed simp

lemma verify_everything:
  assumes "es \<noteq> []"
  shows "(case Verify (map Literal es) ch of Inl f \<Rightarrow> Inl f | Inr r \<Rightarrow>
      (case VerifyEmpty r of Inl f \<Rightarrow> Inl f | Inr r \<Rightarrow> Inr (k r))) = Inr x \<longleftrightarrow> es = ch \<and> x = k []"
proof -
  have all: "list_all2 meets (map Literal xs) ys \<longleftrightarrow> xs = ys" for xs ys
    by (induction xs arbitrary: ys) (auto simp: list_all2_Cons1)
  have v: "Verify (map Literal es) ch = Inr r \<longleftrightarrow> es = take (length es) ch \<and> r = drop (length es) ch" for r
  proof -
    have "length es \<le> length ch" if "es = take (length es) ch"
      using arg_cong [OF that, of length] by simp
    then show ?thesis using assms all [of es "take (length es) ch"] by (auto simp: verifyRec_ordered)
  qed
  show ?thesis
  proof (cases "Verify (map Literal es) ch")
    case (Inl f)
    then have "es \<noteq> ch" using v [of "[]"] by auto
    with Inl show ?thesis by simp
  next
    case (Inr r)
    then have "es = take (length es) ch" "r = drop (length es) ch" using v by auto
    then have "es = ch \<longleftrightarrow> r = []" by (metis append_Nil2 append_take_drop_id drop_all order_refl take_all_iff drop_eq_Nil)
    with Inr show ?thesis by (auto simp: VerifyEmpty_def split: list.splits)
  qed
qed

section \<open>When the set-up passes\<close>

lemma itoa_one: "itoa 1 = ''1''"
  by (simp add: itoa_def digits.simps char_of_def bit_Suc_0_iff)

definition announced :: "string \<Rightarrow> string \<Rightarrow> string \<Rightarrow> MQTTMessage" where
  "announced app service m =
     \<lparr>Topic = ''/rpc/v1/'' @ app @ ''/'' @ service @ ''/'' @ m, Payload = ''1'', QoS = 1, Retained = True\<rparr>"

lemma announcement_item:
  "publish_item client (announced app service m) = expectedMessage app service client m ''1'' True"
  by (simp add: announced_def publish_item_def FormatMQTTMessage_def expectedMessage_def fixture_topic_def itoa_one)

lemma expectedMessage_inj: "expectedMessage a s c m p r = expectedMessage a s c m' p r \<longleftrightarrow> m = m'"
  by (simp add: expectedMessage_def fixture_topic_def)

text \<open>The calls of starting a server with one service.\<close>

lemma start_calls:
  assumes "Register table rcvr Map.empty = Inr (Inr [service \<mapsto> svc])"
  shows "\<exists>s. register_receiver table rcvr (NewMQTTRPCServer app u) = Inr s \<and>
    calls (StartServer [service] (\<lambda>_. names) s) = MStart # MSubscribe Receive [''/rpc/v1/'' @ app @ ''/+/+/+''] #
      map MPublish (map (announced app service) (sort names))"
proof -
  have "register table rcvr [] False Map.empty = Inr (Inr [service \<mapsto> svc])"
    using assms by (simp add: Register_def)
  from register_cases [OF this] obtain sname where
    s: "[service \<mapsto> svc] = [sname \<mapsto> \<lparr>service_name = sname, service_method = suitableMethods table (rcvr_methods rcvr)\<rparr>]"
    by auto
  then have "service = sname" by (metis fun_upd_same fun_upd_apply option.distinct(1))
  with s have "service_name svc = service" by (metis fun_upd_same option.inject service.select_convs(1))
  with assms show ?thesis
    by (simp add: register_receiver_def NewMQTTRPCServer_def StartServer_def add_calls_def Let_def
        subscriptionTopic_def announcements_def announcement_def RPC_APP_PREFIX_def comp_def announced_def)
qed

text \<open>
  A run of the set-up with one service: it returns, with the fixture when the recorder has what is
  expected, the server's client subscribed to the requests.
\<close>

lemma fixture_run:
  assumes "Register table rcvr Map.empty = Inr (Inr [service \<mapsto> svc])" "length names < REC_CAPACITY"
  obtains s b r where "register_receiver table rcvr (NewMQTTRPCServer app u) = Inr s"
    "rec_ch b = (''Subscribe -- '' @ clientName @ '': /rpc/v1/'' @ app @ ''/+/+/+'') #
       map (\<lambda>m. expectedMessage app service clientName m ''1'' True) (sort names)"
    "subscriptions b = [''/rpc/v1/'' @ app @ ''/+/+/+'' \<mapsto> [0]]"
    "callbackMap (clients b 0) = [''/rpc/v1/'' @ app @ ''/+/+/+'' \<mapsto> [Receive]]"
    "client_id (clients b 0) = clientName" "client_id (clients b 1) = ''tst''"
    "client_started (clients b 0)" "client_started (clients b 1)"
    "NewRpcFixture table app service clientName rcvr methods u [service] (\<lambda>_. names) ps ts = Inr r"
    "\<And>fx. r = Inr fx \<longleftrightarrow> expected_items app service clientName methods = rec_ch b \<and>
       fx = \<lparr>fx_fake = b\<lparr>rec_ch := []\<rparr>, fx_rpc = StartServer [service] (\<lambda>_. names) s, fx_id = 1,
         fx_app = app, fx_service = service, fx_clientName = clientName\<rparr>"
proof -
  let ?topic = "''/rpc/v1/'' @ app @ ''/+/+/+''"
  let ?ms = "map (announced app service) (sort names)"
  obtain s where s: "register_receiver table rcvr (NewMQTTRPCServer app u) = Inr s"
    "calls (StartServer [service] (\<lambda>_. names) s) = MStart # MSubscribe Receive [?topic] # map MPublish ?ms"
    using start_calls [OF assms(1), of app u names] by blast
  obtain b where b: "b = fst (MakeClient ''tst'' (fst (MakeClient clientName (NewFakeMQTTBroker :: rpc_handler fake))))"
    by blast
  obtain b1 where b1: "clientStart 1 b = Inr b1" "rec_ch b1 = []" "client_id (clients b1 0) = clientName"
    "\<not> client_ready (clients b1 0)" "\<not> broker_waits b1" "subscriptions b1 = Map.empty"
    "\<not> client_started (clients b1 0)" "callbackMap (clients b1 0) = Map.empty"
    "client_id (clients b1 1) = ''tst''" "client_started (clients b1 1)"
    by (simp add: b MakeClient_def NewFakeMQTTBroker_def clientStart_def close_ready_def newClient_def Let_def)
  obtain b2 where b2: "perform_all (fake_ops ps ts 0) [MStart, MSubscribe Receive [?topic]] b1 = Inr b2"
    "rec_ch b2 = [''Subscribe -- '' @ clientName @ '': '' @ ?topic]" "client_id (clients b2 0) = clientName"
    "client_started (clients b2 0)" "subscriptions b2 = [?topic \<mapsto> [0]]"
    "callbackMap (clients b2 0) = [?topic \<mapsto> [Receive]]" "clients b2 1 = clients b1 1"
    using b1(2-8)
    by (simp add: fake_ops_def clientStart_def close_ready_def Let_def clientSubscribe_def ensureStarted_def
        brokerSubscribe_def record_item_def Rec_def REC_CAPACITY_def addCallback_def)
  obtain b3 where b3: "perform_all (fake_ops ps ts 0) (map MPublish ?ms) b2 = Inr b3" "clients b3 = clients b2"
    "subscriptions b3 = subscriptions b2"
    "rec_ch b3 = (''Subscribe -- '' @ clientName @ '': '' @ ?topic) #
       map (\<lambda>m. expectedMessage app service clientName m ''1'' True) (sort names)"
    using publishes_recorded [OF b2(4), of ?ms ps ts] assms(2) b2(2,3)
    by (auto simp: announcement_item comp_def)
  have p: "perform_all (fake_ops ps ts 0) (calls (StartServer [service] (\<lambda>_. names) s)) b1 = Inr b3"
    using b2(1) b3(1) unfolding s(2)
    by (metis append_Cons append_Nil perform_all_append bind_res.simps(2))
  have n: "snd (MakeClient clientName (NewFakeMQTTBroker :: rpc_handler fake)) = 0"
    "snd (MakeClient ''tst'' (fst (MakeClient clientName (NewFakeMQTTBroker :: rpc_handler fake)))) = 1"
    by (simp_all add: MakeClient_def NewFakeMQTTBroker_def Let_def)
  obtain r where r: "NewRpcFixture table app service clientName rcvr methods u [service] (\<lambda>_. names) ps ts = Inr r"
    "r = (case Verify (map Literal (expected_items app service clientName methods)) (rec_ch b3) of
          Inl f \<Rightarrow> Inl f
        | Inr ch \<Rightarrow>
            (case VerifyEmpty ch of
               Inl f \<Rightarrow> Inl f
             | Inr ch \<Rightarrow> Inr \<lparr>fx_fake = b3\<lparr>rec_ch := ch\<rparr>, fx_rpc = StartServer [service] (\<lambda>_. names) s, fx_id = 1,
                 fx_app = app, fx_service = service, fx_clientName = clientName\<rparr>))"
    unfolding NewRpcFixture_def case_prod_beta Let_def using b1(1) s(1) b [symmetric] n p by simp
  show thesis
    by (rule that [of s b3 r])
       (use s(1) b1(9,10) b2(3-7) b3(2-4) r(1) in \<open>simp_all add: r(2) verify_everything\<close>)
qed

text \<open>
  The set-up of a test of an RPC server, with the real server, the fake client and the recorder
  under it: for a receiver with one registered service and fewer methods than the recorder has room
  for, it runs to its end without a panic, and its check passes exactly when the test lists the
  methods in sorted order and gives the client the name of the application. That the two names
  must agree is not asked for anywhere: the check expects the client's name in the subscribed topic,
  where the server has the application's.
\<close>

theorem rpc_fixture_passes_iff:
  assumes "Register table rcvr Map.empty = Inr (Inr [service \<mapsto> svc])"
    and "key_order (service_method svc) names" "length names < REC_CAPACITY"
  shows "\<exists>r. NewRpcFixture table app service clientName rcvr methods u [service] (\<lambda>_. names) ps ts = Inr r \<and>
    ((\<exists>fx. r = Inr fx) \<longleftrightarrow> clientName = app \<and> methods = sort names)"
proof -
  have e: "(clientName = app \<and> methods = sort names) \<longleftrightarrow> expected_items app service clientName methods =
      (''Subscribe -- '' @ clientName @ '': /rpc/v1/'' @ app @ ''/+/+/+'') #
       map (\<lambda>m. expectedMessage app service clientName m ''1'' True) (sort names)"
    unfolding expected_items_def using inj_map_eq_map [of "\<lambda>m. expectedMessage app service clientName m ''1'' True"]
    by (auto simp: expectedMessage_inj inj_def)
  show ?thesis
    by (rule fixture_run [OF assms(1,3), of app u clientName methods ps ts]) (auto simp: e)
qed

lemma rpc_fixture_passes_iff_witness:
  "\<exists>fx. NewRpcFixture demo_table ''SampleRpc'' ''Arith'' ''SampleRpc'' arith [''Divide'', ''MakeAnError'', ''Multiply''] ()
     [''Arith''] (\<lambda>_. arith_names) (\<lambda>_. []) (\<lambda>_ _. []) = Inr (Inr fx)"
proof -
  have r: "Register demo_table arith Map.empty = Inr (Inr [''Arith'' \<mapsto> arith_service])"
    using demo_register by (simp add: Register_def)
  have o: "key_order (service_method arith_service) arith_names" "length arith_names < REC_CAPACITY"
    by (auto simp: key_order_def arith_service_def arith_names_def REC_CAPACITY_def)
  have "sort arith_names = [''Divide'', ''MakeAnError'', ''Multiply'']"
    by (simp add: arith_names_def)
  with rpc_fixture_passes_iff [OF r o, of "''SampleRpc''" "''SampleRpc''" "[''Divide'', ''MakeAnError'', ''Multiply'']"
      "()" "\<lambda>_. []" "\<lambda>_ _. []"] show ?thesis by auto
qed

end
