(* ===== verification/Rpc_Properties.thy ===== *)
theory Rpc_Properties
  imports Rpc_Demo "HOL-Library.Product_Lexorder"
begin

text \<open>
  The properties of the RPC server: its replies, its calls of the registered methods, the
  registration, \<open>Start\<close> and \<open>Stop\<close>.
\<close>

section \<open>Replies\<close>

text \<open>
  Methods that keep to the rules: they return, their results can be marshalled, and their errors
  use the codes they may use.
\<close>

fun error_allowed :: "go_error option \<Rightarrow> bool" where
  "error_allowed (Some (InternalError code msg)) \<longleftrightarrow> isReservedErrorCode code"
| "error_allowed (Some (ExtendedError code typ msg)) \<longleftrightarrow> \<not> isReservedErrorCode code \<and> typ \<noteq> None"
| "error_allowed _ \<longleftrightarrow> True"

definition answers :: "('a, 'u, 'r) rpc_env \<Rightarrow> bool" where
  "answers env \<longleftrightarrow> (\<forall>svc meth a u. \<exists>u' r err.
     invoke env svc meth a u = Inr (u', r, err) \<and> marshal_result env r \<noteq> None \<and> error_allowed err)"

lemma buildResponse_allowed:
  "buildResponse i result err = Inr r \<Longrightarrow> error_allowed err"
  by (cases "(i, result, err)" rule: buildResponse.cases) (auto split: if_splits option.splits)

lemma buildResponse_returns: "error_allowed err \<Longrightarrow> \<exists>r. buildResponse i result err = Inr r"
  by (cases "(i, result, err)" rule: buildResponse.cases) auto

lemma buildResponse_json:
  "buildResponse i result err = Inr r \<Longrightarrow> (\<And>x. result = Some x \<Longrightarrow> marshal_result env x \<noteq> None) \<Longrightarrow>
     response_json env r \<noteq> None"
  by (cases "(i, result, err)" rule: buildResponse.cases) (auto split: if_splits option.splits)

lemma doHandle_returns:
  fixes env :: "('a, 'u, 'r) rpc_env"
  assumes "locateMethod s (Topic m) = Inr found" "answers env"
  shows "\<exists>s' r. doHandleMessage env m s = Inr (s', r) \<and> response_json env r \<noteq> None"
proof -
  from assms(1) obtain i p where p: "parseMessage env s m = Inr (i, p)"
    by (cases "parseMessage env s m") (auto simp: parseMessage_def)
  show ?thesis
  proof (cases p)
    case (Inl e)
    with p have "error_allowed (Some e)"
      using protocol_error_reserved [OF protocol_errors [of env s m i e]] by auto
    then obtain r where r: "buildResponse i None (Some e) = Inr (r :: 'r response)"
      using buildResponse_returns by blast
    with buildResponse_json [OF r, of env] p Inl show ?thesis by (auto simp: doHandleMessage_def)
  next
    case (Inr q)
    obtain svc mt a where q: "q = (svc, mt, a)" by (cases q) auto
    from assms(2) obtain u' x err where
      c: "invoke env (service_name svc) (mtype_name mt) a (receivers s) = Inr (u', x, err)"
        "marshal_result env x \<noteq> None" "error_allowed err"
      unfolding answers_def by blast
    then obtain r where r: "buildResponse i (Some x) err = Inr r"
      using buildResponse_returns by blast
    with buildResponse_json [OF r, of env] c p Inr q show ?thesis
      by (auto simp: doHandleMessage_def call_method_def Let_def)
  qed
qed

text \<open>
  C5. Whatever message the client delivers, the running server takes it from its queue and, when the
  registered methods keep to the rules, publishes exactly one message for it: a reply to the
  message's topic with \<open>/reply\<close> appended, QoS 1, not retained. No panic and no other call of the
  client is possible.
\<close>

theorem every_message_answered:
  assumes "rpc_reachable table env s" "messageCh s = m # ms" "answers env"
  shows "\<exists>s' j. process_message env s = Inr s' \<and> messageCh s' = ms \<and>
    calls s' = calls s @ [MPublish (reply_message (Topic m) (render j))]"
proof -
  let ?s = "s\<lparr>messageCh := ms\<rparr>"
  have inv: "rpc_inv table s" using assms(1) by (rule rpc_reachable_inv)
  then obtain app where "topicMatch (RPC_APP_PREFIX @ app @ ''/+/+/+'') (Topic m)"
    using assms(2) by (auto simp: rpc_inv_def subscriptionTopic_def)
  then obtain found where "locateMethod ?s (Topic m) = Inr found"
    using locateMethod_returns by blast
  from doHandle_returns [OF this assms(3)] obtain s' r j where
    d: "doHandleMessage env m ?s = Inr (s', r)" "response_json env r = Some j" by blast
  then have h: "handleMessage env m ?s = Inr (add_calls [MPublish (reply_message (Topic m) (render j))] s')"
    by (simp add: handleMessage_Inr)
  from d(1) have "messageCh s' = ms \<and> calls s' = calls s"
    by (cases rule: doHandleMessage_cases) auto
  with h assms(2) show ?thesis by (auto simp: process_message_def)
qed

lemma demo_answers: "answers demo_rpc"
  by (auto simp: answers_def demo_rpc_def arith_invoke_def isReservedErrorCode_iff split: prod.splits)

theorem every_message_answered_witness:
  "\<exists>s' j. process_message demo_rpc rpc_s3 = Inr s' \<and> messageCh s' = [] \<and>
    calls s' = calls rpc_s3 @ [MPublish (reply_message (rpc_topic ''Multiply'') (render j))]"
  using every_message_answered [OF rpc_s3_reachable _ demo_answers, of rpc_msg "[]"]
  by (simp add: rpc_s3_def rpc_msg_def rpc_request_def)

lemma doHandle_refused:
  "parseMessage env s m = Inr (i, Inl e) \<Longrightarrow>
     doHandleMessage env m s = bind_res (buildResponse i None (Some e)) (\<lambda>r. Inr (s, r))"
  by (simp add: doHandleMessage_def)

lemma doHandle_called:
  "parseMessage env s m = Inr (i, Inr (svc, mt, a)) \<Longrightarrow>
     doHandleMessage env m s = bind_res (call_method env svc mt a s) (\<lambda>(s', result, err).
       bind_res (buildResponse i (Some result) err) (\<lambda>r. Inr (s', r)))"
  by (simp add: doHandleMessage_def)

lemma buildResponse_protocol:
  "buildResponse i result (Some parseError) = Inr (ErrorResponse i (-32700) None ''Parse error'')"
  "buildResponse i result (Some invalidRequestError) = Inr (ErrorResponse i (-32600) None ''Invalid request'')"
  "buildResponse i result (Some methodNotFoundError) = Inr (ErrorResponse i (-32601) None ''Method not found'')"
  "buildResponse i result (Some invalidParamsError) = Inr (ErrorResponse i (-32602) None ''Invalid params'')"
  by (simp_all add: rpc_errors isReservedErrorCode_iff)

text \<open>The reply to a call that returned: its result, or its error by the kind of the error.\<close>

fun method_reply :: "gval \<Rightarrow> 'r \<Rightarrow> go_error option \<Rightarrow> 'r response \<Rightarrow> bool" where
  "method_reply i x None r \<longleftrightarrow> r = SuccessResponse i (Some x)"
| "method_reply i x (Some (SimpleError msg)) r \<longleftrightarrow> r = ErrorResponse i (-1) None msg"
| "method_reply i x (Some (ExtendedError code typ msg)) r \<longleftrightarrow>
     (sint code < -32700 \<or> -32000 < sint code) \<and>
     (\<exists>t. typ = Some t \<and> r = ErrorResponse i (sint code) (Some t) msg)"
| "method_reply i x (Some (InternalError code msg)) r \<longleftrightarrow>
     -32700 \<le> sint code \<and> sint code \<le> -32000 \<and> r = ErrorResponse i (sint code) None msg"

lemma buildResponse_method: "buildResponse i (Some x) err = Inr r \<longleftrightarrow> method_reply i x err r"
  by (cases "(i, x, err, r)" rule: method_reply.cases)
     (auto simp: isReservedErrorCode_iff split: option.splits)

text \<open>
  C13. The reply, case by case: a payload that is no JSON object gets \<open>Parse error\<close>, with a null id;
  no id, a null id or an id that is not a string or an integral number gets \<open>Invalid request\<close>, with
  a null id; an id with a number in it that no \<open>float64\<close> can hold gets \<open>Parse error\<close>, with null for
  an unknown method and else with what was decoded of the id. Then an unknown service or method gets
  \<open>Method not found\<close>, and missing, null or mistyped parameters get \<open>Invalid params\<close>, with the
  request's id. Any other request is passed to its method, and the reply has the result; or the
  error: code -1 for a simple one, its own code for another, which is one of the reserved codes just
  for an internal error, and the name of its type as \<open>data\<close> just for an extended one.
\<close>

theorem reply_table:
  assumes "doHandleMessage env m s = Inr (s', r)"
  shows
    "(unmarshalRequest (Payload m) = None \<longrightarrow>
        r = ErrorResponse GNil (-32700) None ''Parse error'') \<and>
     (\<forall>req. unmarshalRequest (Payload m) = Some req \<longrightarrow>
       (req_Id req = None \<longrightarrow> r = ErrorResponse GNil (-32600) None ''Invalid request'') \<and>
       (\<forall>j i. req_Id req = Some j \<and> decode_value (parse_float env) j = (i, False) \<longrightarrow>
         r = ErrorResponse (case locateMethod s (Topic m) of Inr (Inl e) \<Rightarrow> GNil | _ \<Rightarrow> i) (-32700) None ''Parse error'') \<and>
       (\<forall>j i. req_Id req = Some j \<and> decode_value (parse_float env) j = (i, True) \<longrightarrow>
         (validateId i \<noteq> None \<longrightarrow> r = ErrorResponse GNil (-32600) None ''Invalid request'') \<and>
         (validateId i = None \<longrightarrow>
           (case locateMethod s (Topic m) of
              Inl e \<Rightarrow> False
            | Inr (Inl e) \<Rightarrow> r = ErrorResponse i (-32601) None ''Method not found''
            | Inr (Inr (svc, mt)) \<Rightarrow>
                (case req_Params req of
                   None \<Rightarrow> r = ErrorResponse i (-32602) None ''Invalid params''
                 | Some p \<Rightarrow>
                     (case decode_params env (indirect_type (ArgType mt)) p of
                        TypeErr \<Rightarrow> r = ErrorResponse i (-32602) None ''Invalid params''
                      | SyntaxErr \<Rightarrow> r = ErrorResponse GNil (-32700) None ''Parse error''
                      | Decoded a \<Rightarrow>
                          (\<exists>u x err. invoke env (service_name svc) (mtype_name mt) (pass_args mt a)
                              (receivers s) = Inr (u, x, err) \<and> method_reply i x err r)))))))"
proof -
  from assms obtain found where l: "locateMethod s (Topic m) = Inr found"
    by (auto simp: doHandleMessage_def parseMessage_def)
  note parse = parseMessage_missing parseMessage_found request_id_def doHandle_refused doHandle_called
    buildResponse_protocol buildResponse_method call_method_def Let_def
  show ?thesis
  proof (cases found)
    case (Inl e)
    with assms l locateMethod_Inl [of s "Topic m" e] show ?thesis
      by (auto simp: parse split: option.split)
  next
    case (Inr q)
    with assms l show ?thesis
      by (cases q) (auto simp: parse split: option.split decoded.split)
  qed
qed

text \<open>A request for a method there is no service for, and one whose parameters are mistyped.\<close>

lemma printable_request:
  "printable i \<Longrightarrow> printable ps \<Longrightarrow>
     unmarshalRequest (render (JObject [(''id'', i), (''params'', ps)])) =
       Some \<lparr>req_Id = raw_message i, req_Params = raw_message ps\<rparr>"
  by (simp add: unmarshalRequest_def parse_render set_field_def lower_def del: render.simps)

lemma demo_unmarshal:
  "unmarshalRequest (Payload rpc_msg) =
     Some \<lparr>req_Id = Some (JString ''0''), req_Params = Some (args_json ''6'' ''7'')\<rparr>"
proof -
  have "printable (args_json ''6'' ''7'')"
    by (simp add: args_json_def scan_number_def scan_sign_def scan_int_def scan_frac_def scan_exp_def
        digit_run_def is_digit_def)
  then show ?thesis
    unfolding rpc_msg_def rpc_request_def
    by (simp add: printable_request raw_message_def args_json_def del: render.simps)
qed

lemma demo_located:
  "locateMethod rpc_s2 (Topic rpc_msg) = Inr (Inr (arith_service, arith_mtype ''Multiply'' int_ptr))"
  by (simp add: locateMethod_def rpc_msg_def rpc_request_def rpc_topic_def arith_service_def)

lemma demo_args: "demo_params ty (args_json ''6'' ''7'') = Decoded (6, 7)"
  by (simp add: args_json_def num_member_def digits_value_def)

lemma demo_request_id:
  "request_id demo_rpc (Payload rpc_msg) =
     Inr (\<lparr>req_Id = Some (JString ''0''), req_Params = Some (args_json ''6'' ''7'')\<rparr>, GString ''0'')"
  by (simp add: request_id_def demo_unmarshal)

lemma demo_rpc_simps [simp]:
  "decode_params demo_rpc = demo_params" "invoke demo_rpc = arith_invoke"
  "marshal_result demo_rpc = Some"
  by (simp_all add: demo_rpc_def)

lemma demo_parsed:
  "parseMessage demo_rpc rpc_s2 rpc_msg =
     Inr (GString ''0'', Inr (arith_service, arith_mtype ''Multiply'' int_ptr, ByPointer (6, 7)))"
  by (simp add: parseMessage_found [OF demo_located] demo_request_id demo_args)
     (simp add: pass_args_def arith_mtype_def args_type_def)

lemma demo_handled:
  "doHandleMessage demo_rpc rpc_msg rpc_s2 =
     Inr (count_call arith_service (arith_mtype ''Multiply'' int_ptr) rpc_s2,
       SuccessResponse (GString ''0'') (Some (JNumber (itoa 42))))"
  by (simp add: doHandle_called [OF demo_parsed] call_method_def arith_invoke_def)
     (simp add: arith_mtype_def)

theorem reply_table_witness:
  "\<exists>u x err. invoke demo_rpc ''Arith'' ''Multiply'' (ByPointer (6, 7)) () = Inr (u, x, err) \<and>
    method_reply (GString ''0'') x err (SuccessResponse (GString ''0'') (Some (JNumber (itoa 42))))"
  using reply_table [OF demo_handled]
  by (simp add: demo_unmarshal demo_located demo_args)
     (simp add: pass_args_def arith_mtype_def args_type_def arith_service_def)

section \<open>Calls of the methods\<close>

text \<open>The counter of a method, and the requests that are to be passed to it.\<close>

definition num_calls :: "'u server \<Rightarrow> string \<Rightarrow> string \<Rightarrow> nat option" where
  "num_calls s n k =
     (case serviceMap s n of None \<Rightarrow> None | Some svc \<Rightarrow> map_option NumCalls (service_method svc k))"

definition addressed :: "MQTTMessage \<Rightarrow> string \<Rightarrow> string \<Rightarrow> bool" where
  "addressed m n k \<longleftrightarrow>
     (\<exists>front last. split_on CHR ''/'' (Topic m) = front @ [n, k, last])"

definition good_request :: "('a, 'u, 'r) rpc_env \<Rightarrow> MQTTMessage \<Rightarrow> gotype \<Rightarrow> bool" where
  "good_request env m ty \<longleftrightarrow>
     (\<exists>req j i p a. unmarshalRequest (Payload m) = Some req \<and> req_Id req = Some j \<and>
        decode_value (parse_float env) j = (i, True) \<and> validateId i = None \<and>
        req_Params req = Some p \<and> decode_params env ty p = Decoded a)"

definition accepted :: "('a, 'u, 'r) rpc_env \<Rightarrow> 'u server \<Rightarrow> MQTTMessage \<Rightarrow> string \<Rightarrow> string \<Rightarrow> bool" where
  "accepted env s m n k \<longleftrightarrow> addressed m n k \<and>
     (\<exists>svc mt. serviceMap s n = Some svc \<and> service_method svc k = Some mt \<and>
        good_request env m (indirect_type (ArgType mt)))"

text \<open>The arguments a request has for a method of that argument type.\<close>

definition request_args :: "('a, 'u, 'r) rpc_env \<Rightarrow> MQTTMessage \<Rightarrow> gotype \<Rightarrow> 'a option" where
  "request_args env m ty =
     (case unmarshalRequest (Payload m) of
        None \<Rightarrow> None
      | Some req \<Rightarrow>
          (case req_Params req of
             None \<Rightarrow> None
           | Some p \<Rightarrow> (case decode_params env ty p of Decoded a \<Rightarrow> Some a | _ \<Rightarrow> None)))"

lemma parsed_args:
  assumes "parsed env s m i svc mt a"
  obtains b where "request_args env m (indirect_type (ArgType mt)) = Some b" "a = pass_args mt b"
  using assms
  by (auto simp: parsed_def parseMessage_found [OF parsed_located [OF assms]] request_args_def
      dest!: request_id_Inr split: parseMessage_splits)

lemma addressed_iff:
  "addressed m n k \<longleftrightarrow>
     (let parts = split_on CHR ''/'' (Topic m); l = length parts in
      3 \<le> l \<and> n = parts ! (l - 3) \<and> k = parts ! (l - 2))"
proof -
  let ?p = "split_on CHR ''/'' (Topic m)"
  have "?p = take (length ?p - 3) ?p @ [?p ! (length ?p - 3), ?p ! (length ?p - 2), ?p ! (length ?p - 1)]"
    if l: "3 \<le> length ?p"
  proof -
    have "drop (length ?p - 3) ?p = ?p ! (length ?p - 3) # drop (Suc (length ?p - 3)) ?p"
      using l by (intro Cons_nth_drop_Suc [symmetric]) simp
    also have "drop (Suc (length ?p - 3)) ?p = ?p ! (length ?p - 2) # drop (Suc (length ?p - 2)) ?p"
      using l Cons_nth_drop_Suc [of "length ?p - 2" ?p] by (simp add: Suc_diff_le numeral_3_eq_3 numeral_2_eq_2 Suc_diff_Suc)
    also have "drop (Suc (length ?p - 2)) ?p = [?p ! (length ?p - 1)]"
      using l Cons_nth_drop_Suc [of "length ?p - 1" ?p] by (simp add: Suc_diff_le numeral_2_eq_2 Suc_diff_Suc)
    finally show ?thesis by (metis append_take_drop_id)
  qed
  then show ?thesis
    unfolding addressed_def Let_def by (auto simp: nth_append)
qed

lemma accepted_iff:
  "accepted env s m n k \<longleftrightarrow>
     (\<exists>svc mt i a. locateMethod s (Topic m) = Inr (Inr (svc, mt)) \<and> addressed m n k \<and>
        serviceMap s n = Some svc \<and> service_method svc k = Some mt \<and>
        parsed env s m i svc mt a)"
proof -
  have loc: "locateMethod s (Topic m) = Inr (Inr (svc, mt)) \<longleftrightarrow>
      serviceMap s n = Some svc \<and> service_method svc k = Some mt" if "addressed m n k" for svc mt
    using that by (auto simp: addressed_iff locateMethod_Inr Let_def)
  have good: "(\<exists>i a. parsed env s m i svc mt a) \<longleftrightarrow> good_request env m (indirect_type (ArgType mt))"
    if "locateMethod s (Topic m) = Inr (Inr (svc, mt))" for svc mt
  proof
    assume "\<exists>i a. parsed env s m i svc mt a"
    then show "good_request env m (indirect_type (ArgType mt))"
      by (auto simp: parsed_def parseMessage_found [OF that] good_request_def
          dest!: request_id_Inr split: parseMessage_splits)
  next
    assume "good_request env m (indirect_type (ArgType mt))"
    then show "\<exists>i a. parsed env s m i svc mt a"
      by (auto simp: parsed_def parseMessage_found [OF that] good_request_def request_id_def)
  qed
  show ?thesis
    using loc good unfolding accepted_def by blast
qed

text \<open>A service whose name has a slash is addressed by no message.\<close>

lemma slash_service_unreachable: "CHR ''/'' \<in> set n \<Longrightarrow> \<not> addressed m n k"
  using split_on_parts [of n "CHR ''/''" "Topic m"] by (auto simp: addressed_def)

text \<open>
  C7. A method is called exactly for the messages that are addressed to it and carry a request
  with a good id and parameters of its argument type, once for each and with these parameters: what
  handling the message makes of the registered values is what one call of the method makes of them,
  and nothing when there is no method to call. The counter of that method (a \<open>uint\<close>, modulo 2 to the
  64th) counts one more, and no other does.
\<close>

theorem called_iff_accepted:
  assumes "rpc_reachable table env s" "handleMessage env m s = Inr s'"
  shows "(\<forall>n k. accepted env s m n k \<longrightarrow>
      (\<exists>svc mt a x err. serviceMap s n = Some svc \<and> service_method svc k = Some mt \<and>
        request_args env m (indirect_type (ArgType mt)) = Some a \<and>
        invoke env n k (pass_args mt a) (receivers s) = Inr (receivers s', x, err))) \<and>
    ((\<forall>n k. \<not> accepted env s m n k) \<longrightarrow> receivers s' = receivers s) \<and>
    (\<forall>n k. num_calls s' n k =
      map_option (\<lambda>c. if accepted env s m n k then (c + 1) mod 2 ^ 64 else c) (num_calls s n k))"
proof -
  have ok: "services_ok table (serviceMap s)"
    using rpc_reachable_inv [OF assms(1)] by (simp add: rpc_inv_def)
  from assms(2) obtain s1 r where d: "doHandleMessage env m s = Inr (s1, r)"
    and s': "serviceMap s' = serviceMap s1" "receivers s' = receivers s1"
    by (auto simp: handleMessage_Inr split: option.splits)
  from d show ?thesis
  proof (cases rule: doHandleMessage_cases)
    case (refused i e)
    then have "\<not> accepted env s m n k" for n k
      by (auto simp: accepted_iff parsed_def)
    with s' refused(2) show ?thesis
      by (auto simp: num_calls_def option.map_ident split: option.splits)
  next
    case (called i svc mt a u result err)
    from parsed_located [OF called(1)] obtain n0 k0 where
      l: "serviceMap s n0 = Some svc" "service_method svc k0 = Some mt" "addressed m n0 k0"
      by (auto simp: locateMethod_Inr addressed_iff Let_def)
    have names: "service_name svc = n0" "mtype_name mt = k0"
      using ok l by (auto simp: services_ok_def service_ok_def method_ok_def)
    have acc: "accepted env s m n k \<longleftrightarrow> n = n0 \<and> k = k0" for n k
      using l called(1) parsed_located [OF called(1)]
      by (auto simp: accepted_iff addressed_iff Let_def)
    obtain b where b: "request_args env m (indirect_type (ArgType mt)) = Some b" "a = pass_args mt b"
      using called(1) by (rule parsed_args)
    have rec: "receivers s' = u" using s'(2) called(3) by simp
    have "invoke env n0 k0 (pass_args mt b) (receivers s) = Inr (receivers s', result, err)"
      using called(2) unfolding names b(2) rec .
    with l(1,2) b(1) have one:
      "\<exists>svc mt a x err. serviceMap s n0 = Some svc \<and> service_method svc k0 = Some mt \<and>
        request_args env m (indirect_type (ArgType mt)) = Some a \<and>
        invoke env n0 k0 (pass_args mt a) (receivers s) = Inr (receivers s', x, err)" by blast
    have count: "num_calls s' n k =
        map_option (\<lambda>c. if accepted env s m n k then (c + 1) mod 2 ^ 64 else c) (num_calls s n k)" for n k
      using l names s' called(3) acc
      by (auto simp: num_calls_def count_call_def NumCalls_def option.map_ident split: option.splits)
    have "\<forall>n k. accepted env s m n k \<longrightarrow>
      (\<exists>svc mt a x err. serviceMap s n = Some svc \<and> service_method svc k = Some mt \<and>
        request_args env m (indirect_type (ArgType mt)) = Some a \<and>
        invoke env n k (pass_args mt a) (receivers s) = Inr (receivers s', x, err))"
      using one unfolding acc by blast
    moreover have "(\<forall>n k. \<not> accepted env s m n k) \<longrightarrow> receivers s' = receivers s"
      using acc by blast
    ultimately show ?thesis using count by blast
  qed
qed

definition rpc_s5 :: "unit server" where
  "rpc_s5 = add_calls
     [MPublish (reply_message (rpc_topic ''Multiply'')
        (render (JObject [(''id'', JString ''0''), (''result'', JNumber (itoa 42))])))]
     (count_call arith_service (arith_mtype ''Multiply'' int_ptr) rpc_s2)"

lemma rpc_demo_handle: "handleMessage demo_rpc rpc_msg rpc_s2 = Inr rpc_s5"
proof -
  have "Topic rpc_msg = rpc_topic ''Multiply''" by (simp add: rpc_msg_def rpc_request_def)
  then show ?thesis by (simp add: handleMessage_def demo_handled rpc_s5_def del: render.simps)
qed

lemma demo_accepted: "accepted demo_rpc rpc_s2 rpc_msg ''Arith'' ''Multiply''"
proof -
  have "addressed rpc_msg ''Arith'' ''Multiply''"
    by (simp add: addressed_iff rpc_msg_def rpc_request_def rpc_topic_def)
  moreover have "parsed demo_rpc rpc_s2 rpc_msg (GString ''0'') arith_service
      (arith_mtype ''Multiply'' int_ptr) (ByPointer (6, 7))"
    by (simp add: parsed_def demo_parsed)
  moreover have "service_method arith_service ''Multiply'' = Some (arith_mtype ''Multiply'' int_ptr)"
    by (simp add: arith_service_def)
  ultimately show ?thesis
    using demo_located rpc_s2_simps(6) unfolding accepted_iff by (metis fun_upd_same)
qed

theorem called_iff_accepted_witness:
  "num_calls rpc_s5 ''Arith'' ''Multiply'' = Some 1 \<and>
   (\<exists>a x err. arith_invoke ''Arith'' ''Multiply'' a (receivers rpc_s2) = Inr (receivers rpc_s5, x, err))"
proof -
  note c = called_iff_accepted [OF rpc_s2_reachable rpc_demo_handle]
  have "\<exists>a x err. arith_invoke ''Arith'' ''Multiply'' a (receivers rpc_s2) = Inr (receivers rpc_s5, x, err)"
    using conjunct1 [OF c, rule_format, OF demo_accepted] unfolding demo_rpc_simps by blast
  moreover have "num_calls rpc_s5 ''Arith'' ''Multiply'' =
      map_option (\<lambda>c. (c + 1) mod 2 ^ 64) (num_calls rpc_s2 ''Arith'' ''Multiply'')"
    using conjunct2 [OF conjunct2 [OF c], rule_format, of "''Arith''" "''Multiply''"] demo_accepted by simp
  ultimately show ?thesis
    by (simp add: num_calls_def [of rpc_s2] arith_service_def arith_mtype_def NumCalls_def)
qed

text \<open>The method of an accepted request returned an error.\<close>

definition method_error ::
  "('a, 'u, 'r) rpc_env \<Rightarrow> 'u server \<Rightarrow> MQTTMessage \<Rightarrow> gval \<Rightarrow> go_error \<Rightarrow> bool" where
  "method_error env s m i err \<longleftrightarrow>
     (\<exists>svc mt a u x. parsed env s m i svc mt a \<and>
        invoke env (service_name svc) (mtype_name mt) a (receivers s) = Inr (u, x, Some err))"

text \<open>
  The codes of error replies: a code from -32700 to -32000 means that the server refused the
  request, or that the method returned an error of the reserved kind; any other reply comes from a
  method that was called, and is -1 without \<open>data\<close> for a simple error, or the error's own code with
  its type as \<open>data\<close>.
\<close>

theorem error_reply_codes:
  assumes "doHandleMessage env m s = Inr (s', ErrorResponse i code typ msg)"
  shows "- (2 ^ 31) \<le> code \<and> code < 2 ^ 31 \<and>
    (if -32700 \<le> code \<and> code \<le> -32000
     then typ = None \<and>
       ((\<exists>e. parseMessage env s m = Inr (i, Inl e)) \<or> (\<exists>c. method_error env s m i (InternalError c msg)))
     else method_error env s m i (SimpleError msg) \<and> code = -1 \<and> typ = None \<or>
       (\<exists>c. method_error env s m i (ExtendedError c typ msg) \<and> code = sint c \<and> typ \<noteq> None))"
proof -
  have range: "- (2 ^ 31) \<le> sint c" "sint c < 2 ^ 31" for c :: "32 word"
    using sint_greater_eq [of c] sint_less [of c] by simp_all
  from assms show ?thesis
  proof (cases rule: doHandleMessage_cases)
    case (refused i' e)
    with protocol_errors [OF refused(1)] show ?thesis
      by (auto simp: buildResponse_protocol)
  next
    case (called i' svc mt a u x err)
    from called(4) obtain e where e: "err = Some e" by (cases err) auto
    with called have m: "method_error env s m i' e"
      unfolding method_error_def by blast
    show ?thesis
    proof (cases e)
      case (InternalError c t)
      with called(4) e range m show ?thesis by (auto simp: isReservedErrorCode_iff split: if_splits)
    next
      case (ExtendedError c n t)
      with called(4) e have r: "\<not> isReservedErrorCode c" "n = typ" "n \<noteq> None" "i' = i" "code = sint c" "msg = t"
        by (auto split: if_splits option.splits)
      then have "\<not> (-32700 \<le> code \<and> code \<le> -32000)" by (simp add: isReservedErrorCode_iff)
      with ExtendedError m r range [of c] show ?thesis by auto
    next
      case (SimpleError t)
      with called(4) e m show ?thesis by auto
    qed
  qed
qed

definition rpc_divide :: MQTTMessage where
  "rpc_divide = rpc_request ''NoSuchMethod'' (JString ''3'') (args_json ''6'' ''7'')"

lemma demo_missing:
  "doHandleMessage demo_rpc rpc_divide rpc_s2 =
     Inr (rpc_s2, ErrorResponse (GString ''3'') (-32601) None ''Method not found'')"
proof -
  have p: "printable (args_json ''6'' ''7'')"
    by (simp add: args_json_def scan_number_def scan_sign_def scan_int_def scan_frac_def scan_exp_def
        digit_run_def is_digit_def)
  have "unmarshalRequest (Payload rpc_divide) =
      Some \<lparr>req_Id = Some (JString ''3''), req_Params = Some (args_json ''6'' ''7'')\<rparr>"
    unfolding rpc_divide_def rpc_request_def
    using p by (simp add: printable_request raw_message_def args_json_def del: render.simps)
  then have r: "request_id demo_rpc (Payload rpc_divide) =
      Inr (\<lparr>req_Id = Some (JString ''3''), req_Params = Some (args_json ''6'' ''7'')\<rparr>, GString ''3'')"
    by (simp add: request_id_def)
  have l: "locateMethod rpc_s2 (Topic rpc_divide) = Inr (Inl methodNotFoundError)"
    by (simp add: locateMethod_def rpc_divide_def rpc_request_def rpc_topic_def arith_service_def)
  from parseMessage_missing [OF l, of demo_rpc] r have
    "parseMessage demo_rpc rpc_s2 rpc_divide = Inr (GString ''3'', Inl methodNotFoundError)" by simp
  from doHandle_refused [OF this] show ?thesis by (simp add: buildResponse_protocol)
qed

theorem error_reply_codes_witness:
  "(\<exists>e. parseMessage demo_rpc rpc_s2 rpc_divide = Inr (GString ''3'', Inl e)) \<or>
    (\<exists>c. method_error demo_rpc rpc_s2 rpc_divide (GString ''3'') (InternalError c ''Method not found''))"
  using error_reply_codes [OF demo_missing] by simp

section \<open>The id of a reply\<close>











text \<open>
  Which numbers are ids: a request whose id is the literal of a finite \<open>float64\<close> passes the check
  exactly when the value is an integer. The code compares the number with \<open>math.Trunc\<close> of it; the
  model does so on the bits, and the theorem speaks of the real number they stand for.
\<close>

theorem numeric_id_integral:
  assumes "unmarshalRequest payload = Some req" "req_Id req = Some (JNumber n)"
    and "parse_float env n = Some w" "is_finite64 w"
  shows "request_id env payload =
    (if float_value w \<in> \<int> then Inr (req, GFloat w) else Inl (GNil, invalidRequestError))"
  using assms float_ne_Trunc [OF assms(4)] by (simp add: request_id_def)

definition half_payload :: string where
  "half_payload = render (JObject [(''id'', JNumber ''0.5''), (''params'', JNull)])"

lemma half_unmarshal:
  "unmarshalRequest half_payload = Some \<lparr>req_Id = Some (JNumber ''0.5''), req_Params = None\<rparr>"
proof -
  have "scan_number ''0.5'' = Some (''0.5'', [])"
    by (simp add: scan_number_def scan_sign_def scan_int_def scan_frac_def scan_exp_def
        digit_run_def is_digit_def)
  then show ?thesis
    unfolding half_payload_def by (simp add: printable_request raw_message_def del: render.simps)
qed

lemma half_finite: "is_finite64 half" "float_ne half (Trunc half)"
  by code_simp+

theorem numeric_id_integral_witness:
  "request_id demo_rpc half_payload = Inl (GNil, invalidRequestError) \<and> float_value half \<notin> \<int>"
  using numeric_id_integral [OF half_unmarshal _ _ half_finite(1), of "''0.5''" demo_rpc]
    float_ne_Trunc [OF half_finite(1)] half_finite(2)
  by (simp add: demo_rpc_def)

section \<open>Registration\<close>

text \<open>
  C31. In every reachable state the server's services are well typed: each is kept under its own
  name, has at least one method, and each of its methods is kept under its own name, takes an
  exported or builtin argument type, replies through a pointer to one, and has a counter in the
  range of \<open>uint\<close>.
\<close>

theorem services_typed:
  assumes "rpc_reachable table env s" "serviceMap s n = Some svc" "service_method svc k = Some mt"
  shows "service_name svc = n \<and> n \<noteq> [] \<and> mtype_name mt = k \<and>
    isExportedOrBuiltinType table (ArgType mt) \<and>
    (\<exists>tn tp t. ReplyType mt = Pointer tn tp t \<and> isExportedOrBuiltinType table t) \<and> NumCalls mt < 2 ^ 64"
proof -
  have "services_ok table (serviceMap s)"
    using rpc_reachable_inv [OF assms(1)] by (simp add: rpc_inv_def)
  with assms(2) have svc: "service_ok table n svc" by (simp add: services_ok_def)
  with assms(3) have mt: "method_ok table k mt" by (simp add: service_ok_def)
  then obtain tn tp t where "ReplyType mt = Pointer tn tp t"
    by (auto simp: method_ok_def is_pointer_iff)
  with svc mt show ?thesis by (simp add: service_ok_def method_ok_def NumCalls_def)
qed

theorem services_typed_witness:
  "service_name arith_service = ''Arith'' \<and> NumCalls (arith_mtype ''Multiply'' int_ptr) < 2 ^ 64"
  using services_typed [OF rpc_s2_reachable, of "''Arith''" arith_service "''Multiply''"]
  by (simp add: arith_service_def)

lemma suitableMethods_zero:
  "suitableMethods table ms k = Some mt \<Longrightarrow> mtype_name mt = k \<and> NumCalls mt = 0"
proof -
  have "\<forall>k mt. suitableMethods table ms k = Some mt \<longrightarrow> mtype_name mt = k \<and> NumCalls mt = 0"
    unfolding suitableMethods_def
    by (rule fold_preserves [where P = "\<lambda>r. \<forall>k mt. r k = Some mt \<longrightarrow> mtype_name mt = k \<and> NumCalls mt = 0"])
       (auto simp: NumCalls_def dest: suitableMethod_Some split: option.splits)
  then show "suitableMethods table ms k = Some mt \<Longrightarrow> mtype_name mt = k \<and> NumCalls mt = 0" by blast
qed

lemma suitableMethods_dom:
  assumes "distinct (map method_name ms)"
  shows "dom (suitableMethods table ms) = method_name ` {m \<in> set ms. rpc_method table m}"
proof (intro set_eqI)
  fix n
  show "n \<in> dom (suitableMethods table ms) \<longleftrightarrow> n \<in> method_name ` {m \<in> set ms. rpc_method table m}"
  proof (cases "find (\<lambda>m. method_name m = n) ms")
    case None
    then have "suitableMethods table ms n = None"
      using suitableMethods_eq [OF assms, of table n] by simp
    with None show ?thesis by (auto simp: find_None_iff domIff)
  next
    case (Some m)
    then have m: "m \<in> set ms" "method_name m = n" by (auto simp: find_Some_iff)
    have "m' = m" if "m' \<in> set ms" "method_name m' = n" for m'
      using that m assms by (metis distinct_map inj_onD)
    with m have "n \<in> method_name ` {m \<in> set ms. rpc_method table m} \<longleftrightarrow> rpc_method table m"
      by blast
    moreover have "suitableMethods table ms n = suitableMethod table m"
      using suitableMethods_eq [OF assms, of table n] Some by simp
    ultimately show ?thesis
      using suitableMethod_iff [of table m] by (simp add: domIff)
  qed
qed

text \<open>
  \<open>Register\<close> and \<open>RegisterName\<close>, on a receiver that is not nil: they succeed exactly when the name
  (given, or that of the receiver's type) is not empty, is exported unless it was given, is not
  taken, and the receiver has a method of the documented form; then the service has exactly those
  methods, all with a zero counter, and the other services stay. Otherwise they return an error.
\<close>

theorem register_spec:
  assumes "\<not> rcvr_nil rcvr" "distinct (map method_name (rcvr_methods rcvr))"
  shows
    "let sname = (if useName then name else type_name (indirect_type (rcvr_type rcvr)));
         good = {m \<in> set (rcvr_methods rcvr). rpc_method table m};
         outcome = register table rcvr name useName services
     in if sname \<noteq> [] \<and> (useName \<or> isExported table sname) \<and> services sname = None \<and> good \<noteq> {}
        then \<exists>svc. outcome = Inr (Inr (services(sname \<mapsto> svc))) \<and>
          service_name svc = sname \<and> dom (service_method svc) = method_name ` good \<and>
          (\<forall>k mt. service_method svc k = Some mt \<longrightarrow> mtype_name mt = k \<and> NumCalls mt = 0)
        else \<exists>e. outcome = Inr (Inl e)"
proof -
  let ?ms = "suitableMethods table (rcvr_methods rcvr)"
  let ?good = "{m \<in> set (rcvr_methods rcvr). rpc_method table m}"
  have dom: "dom ?ms = method_name ` ?good"
    by (rule suitableMethods_dom [OF assms(2)])
  then have empty: "?ms = Map.empty \<longleftrightarrow> ?good = {}"
    unfolding dom_eq_empty_conv [symmetric] by (simp only: image_is_empty)
  have zero: "\<forall>k mt. ?ms k = Some mt \<longrightarrow> mtype_name mt = k \<and> NumCalls mt = 0"
    by (simp add: suitableMethods_zero)
  define sname where "sname = (if useName then name else type_name (indirect_type (rcvr_type rcvr)))"
  have r: "register table rcvr name useName services =
     (if sname = [] then Inr (Inl (NoServiceName (rcvr_type rcvr)))
      else if \<not> isExported table sname \<and> \<not> useName then Inr (Inl (NotExported sname))
      else if services sname \<noteq> None then Inr (Inl (AlreadyDefined sname))
      else if ?good = {} then Inr (Inl (NoMethods sname (suitableMethods table (ptr_methods rcvr) \<noteq> Map.empty)))
      else Inr (Inr (services(sname \<mapsto> \<lparr>service_name = sname, service_method = ?ms\<rparr>))))"
    using assms(1) unfolding register_def Let_def empty sname_def by simp
  let ?svc = "\<lparr>service_name = sname, service_method = ?ms\<rparr>"
  let ?ok = "sname \<noteq> [] \<and> (useName \<or> isExported table sname) \<and> services sname = None \<and> ?good \<noteq> {}"
  show ?thesis
  proof (cases ?ok)
    case True
    then have "register table rcvr name useName services = Inr (Inr (services(sname \<mapsto> ?svc)))"
      unfolding r by auto
    then have "\<exists>svc. register table rcvr name useName services = Inr (Inr (services(sname \<mapsto> svc))) \<and>
        service_name svc = sname \<and> dom (service_method svc) = method_name ` ?good \<and>
        (\<forall>k mt. service_method svc k = Some mt \<longrightarrow> mtype_name mt = k \<and> NumCalls mt = 0)"
      using dom zero by (intro exI [of _ ?svc] conjI) simp_all
    with True show ?thesis unfolding Let_def sname_def [symmetric] by (simp only: if_True simp_thms)
  next
    case False
    then have "\<exists>e. register table rcvr name useName services = Inr (Inl e)"
      unfolding r by auto
    with False show ?thesis unfolding Let_def sname_def [symmetric] by (simp only: if_False)
  qed
qed

lemma arith_good: "{m \<in> set (rcvr_methods arith). rpc_method demo_table m} = set arith_methods"
proof -
  have "rpc_method demo_table (arith_method n (Pointer [] [] t))" if "isExportedOrBuiltinType demo_table t" for n t
    using that by (simp add: arith_method_def rpc_method_def args_type_def isExported_def IsUpper_def DecodeRune_ascii)
  then have "list_all (rpc_method demo_table) arith_methods"
    by (simp add: arith_methods_def int_ptr_def isExported_def IsUpper_def DecodeRune_ascii)
  then show ?thesis by (auto simp: arith_def list_all_iff)
qed

lemma arith_receiver: "\<not> rcvr_nil arith" "distinct (map method_name (rcvr_methods arith))"
  "type_name (indirect_type (rcvr_type arith)) = ''Arith''" "isExported demo_table ''Arith''"
  "method_name ` set arith_methods = {''Divide'', ''MakeAnError'', ''Multiply''}" "arith_methods \<noteq> []"
  by (simp_all add: arith_def arith_type_def arith_methods_def arith_method_def isExported_def
      IsUpper_def DecodeRune_ascii)

theorem register_spec_witness:
  "\<exists>svc. register demo_table arith [] False Map.empty = Inr (Inr [''Arith'' \<mapsto> svc]) \<and>
    dom (service_method svc) = {''Divide'', ''MakeAnError'', ''Multiply''}"
proof -
  note spec = register_spec [OF arith_receiver(1,2), of False "[]" demo_table Map.empty,
      unfolded Let_def arith_good arith_receiver(3)]
  show ?thesis
    using spec arith_receiver(4,6) unfolding arith_receiver(5) by auto
qed

section \<open>Start and Stop\<close>

text \<open>The methods of a server, and the messages that announce them.\<close>

definition method_pairs :: "'u server \<Rightarrow> (string \<times> string) set" where
  "method_pairs s = {(n, k). \<exists>svc. serviceMap s n = Some svc \<and> k \<in> dom (service_method svc)}"

definition announce :: "'u server \<Rightarrow> string \<times> string \<Rightarrow> MQTTMessage" where
  "announce s nk =
     \<lparr>Topic = prefix s @ ''/'' @ fst nk @ ''/'' @ snd nk, Payload = ''1'', QoS = 1, Retained = True\<rparr>"

lemma sorted_pairs:
  fixes f :: "'a::linorder \<Rightarrow> 'b::linorder list"
  assumes "sorted_wrt (<) ns" "\<And>n. n \<in> set ns \<Longrightarrow> sorted_wrt (<) (f n)"
  shows "sorted_wrt (<) (concat (map (\<lambda>n. map (Pair n) (f n)) ns))"
  using assms
proof (induction ns)
  case (Cons n ns)
  then show ?case
    by (auto simp: sorted_wrt_append sorted_wrt_map less_prod_def')
qed simp

lemma sort_strict: "distinct xs \<Longrightarrow> sorted_wrt (<) (sort xs)" for xs :: "'a::linorder list"
  by (simp add: strict_sorted_iff)

lemma announcements_sorted:
  assumes "walk_orders so mo s" "services_ok table (serviceMap s)"
  shows "announcements so mo s = map (announce s) (sorted_list_of_set (method_pairs s))"
proof -
  have so: "distinct so" "set so = dom (serviceMap s)"
    using assms(1) by (auto simp: walk_orders_def key_order_def)
  have mo: "distinct (mo n)" "set (mo n) = dom (service_method svc)" if "serviceMap s n = Some svc" for n svc
    using assms(1) that by (auto simp: walk_orders_def key_order_def)
  let ?ps = "concat (map (\<lambda>n. map (Pair n) (sort (mo n))) (sort so))"
  have "announcements so mo s = concat (map (\<lambda>n. map (announce s) (map (Pair n) (sort (mo n)))) (sort so))"
  proof -
    have "(case serviceMap s n of None \<Rightarrow> [] | Some svc \<Rightarrow> map (announcement s svc) (sort (mo n))) =
        map (announce s) (map (Pair n) (sort (mo n)))" if "n \<in> set (sort so)" for n
      using that so assms(2)
      by (auto simp: announcement_def announce_def services_ok_def service_ok_def)
    then show ?thesis unfolding announcements_def by (intro arg_cong [of _ _ concat] map_cong) simp_all
  qed
  also have "\<dots> = map (announce s) ?ps"
    by (simp add: map_concat comp_def)
  also have "?ps = sorted_list_of_set (method_pairs s)"
  proof (rule strict_sorted_equal)
    have "distinct (mo n)" if "n \<in> set (sort so)" for n
      using that so mo(1) by auto
    then show "sorted_wrt (<) ?ps"
      using so by (intro sorted_pairs sort_strict) simp_all
    have mem: "(n, k) \<in> set ?ps \<longleftrightarrow> (n, k) \<in> method_pairs s" for n k
    proof -
      have "(n, k) \<in> set ?ps \<longleftrightarrow> n \<in> dom (serviceMap s) \<and> k \<in> set (mo n)"
        using so(2) by auto
      also have "\<dots> \<longleftrightarrow> (n, k) \<in> method_pairs s"
        using mo(2) by (cases "serviceMap s n") (auto simp: method_pairs_def)
      finally show ?thesis .
    qed
    have ps: "set ?ps = method_pairs s"
    proof (rule set_eqI)
      fix p :: "string \<times> string"
      obtain n k where "p = (n, k)" by (cases p)
      then show "p \<in> set ?ps \<longleftrightarrow> p \<in> method_pairs s" by (simp only: mem)
    qed
    have "finite (method_pairs s)"
      unfolding ps [symmetric] by (rule finite_set)
    then show "set ?ps = set (sorted_list_of_set (method_pairs s))"
      unfolding ps by simp
  qed simp
  finally show ?thesis .
qed

lemma announcements_cong:
  assumes "prefix s' = prefix s" "serviceMap s' = serviceMap s"
  shows "announcements so mo s' = announcements so mo s"
proof -
  have a: "announcement s' = announcement s"
    by (intro ext) (simp add: announcement_def assms)
  show ?thesis unfolding announcements_def assms(2) a by (rule refl)
qed

lemma announcements_simps [simp]:
  "announcements so mo (add_calls ks s) = announcements so mo s"
  "announcements so mo (s\<lparr>active := b\<rparr>) = announcements so mo s"
  "announcements so mo (s\<lparr>quitClosed := b\<rparr>) = announcements so mo s"
  by (rule announcements_cong; simp)+

lemma subscriptionTopic_simps [simp]:
  "subscriptionTopic (add_calls ks s) = subscriptionTopic s"
  "subscriptionTopic (s\<lparr>active := b\<rparr>) = subscriptionTopic s"
  "subscriptionTopic (s\<lparr>quitClosed := b\<rparr>) = subscriptionTopic s"
  by (simp_all add: subscriptionTopic_def)

text \<open>
  C25. A server that was not started subscribes to its topic and then announces each of its methods
  exactly once, retained, in the order of the service names and then of the method names, whatever
  the order in which Go walks its maps; the goroutine runs. A server that was started does nothing.
\<close>

theorem start_announces_sorted:
  assumes "rpc_reachable table env s" "walk_orders so mo s"
  shows "calls (StartServer so mo s) = calls s @
      (if active s then []
       else MStart # MSubscribe Receive [subscriptionTopic s] #
         map MPublish (map (announce s) (sorted_list_of_set (method_pairs s)))) \<and>
    active (StartServer so mo s) \<and> (active s \<or> looping (StartServer so mo s))"
proof -
  have ok: "services_ok table (serviceMap s)"
    using rpc_reachable_inv [OF assms(1)] by (simp add: rpc_inv_def)
  with announcements_sorted [OF assms(2)] show ?thesis
    by (simp add: StartServer_def Let_def)
qed

theorem start_announces_sorted_witness:
  "calls rpc_s2 = calls rpc_s1 @ MStart # MSubscribe Receive [''/rpc/v1/SampleRpc/+/+/+''] #
    map MPublish (map (announce rpc_s1) (sorted_list_of_set (method_pairs rpc_s1)))"
  using start_announces_sorted [OF rpc_s1_reachable demo_orders]
  unfolding rpc_s2_def
  by (simp add: rpc_s1_def rpc_s0_def NewMQTTRPCServer_def subscriptionTopic_def RPC_APP_PREFIX_def)

text \<open>
  C32. \<open>Stop\<close> is final. It never clears \<open>active\<close>: on a server that was stopped a second \<open>Stop\<close> closes
  the closed channel \<open>quit\<close>, which panics, and \<open>Start\<close> does nothing; and once the goroutine has ended
  no later sequence of operations starts it or makes the server use its client again.
\<close>

theorem stop_is_final:
  assumes "rpc_reachable table env s" "active s" "\<not> looping s"
  shows "StopServer s = Inl ClosedChannel \<and> StartServer so mo s = s \<and>
    ((rpc_step table env)\<^sup>*\<^sup>* s s' \<longrightarrow> active s' \<and> \<not> looping s' \<and> calls s' = calls s)"
proof -
  have "quitClosed s"
    using rpc_reachable_inv [OF assms(1)] assms(2,3) by (simp add: rpc_inv_def)
  moreover have "active s' \<and> \<not> looping s' \<and> calls s' = calls s" if "(rpc_step table env)\<^sup>*\<^sup>* s s'"
    using that
  proof (induction rule: rtranclp_induct)
    case (step s1 s2)
    from step.hyps(2) step.IH show ?case
      by (cases rule: rpc_step.cases)
         (auto simp: StartServer_def StopServer_def receive_message_def split: if_splits)
  qed (use assms in simp)
  ultimately show ?thesis using assms(2) by (simp add: StopServer_def StartServer_def)
qed

definition rpc_s6 :: "unit server" where "rpc_s6 = process_quit rpc_s4"

lemma rpc_s6_reachable: "rpc_reachable demo_table demo_rpc rpc_s6"
  unfolding rpc_s6_def
  by (rule rpc_next [OF rpc_s4_reachable rpc_quit]) (simp_all add: rpc_s4_def rpc_s3_def)

theorem stop_is_final_witness: "StopServer rpc_s6 = Inl ClosedChannel"
  using stop_is_final [OF rpc_s6_reachable]
  by (simp add: rpc_s6_def process_quit_def rpc_s4_def rpc_s3_def)

end
