(* ===== verification/Rpc_Round_Trip.thy ===== *)
theory Rpc_Round_Trip
  imports Rpc_Fixture Rpc_Properties
begin

text \<open>
  Requests in the tests of an RPC server (testutils/rpcfixture.go): the test's client publishes a request
  through the fake broker, the server's goroutine answers it, and the recorder is checked for both
  messages. The JSON package \<open>objx\<close> is not in the repository: \<open>toJSON\<close> and \<open>fromJSON\<close> stand for its
  \<open>MustJSON\<close> and \<open>FromJSON\<close>; an \<open>objx.Map\<close> is the list of its members.
\<close>

section \<open>The code\<close>

definition SAMPLE_CLIENT_ID :: string where "SAMPLE_CLIENT_ID = ''11111111''"

text \<open>
  \<open>FindStringSubmatch\<close> for an expression of the form \<open>^pre(.*)post$\<close> with two quoted texts: a dot matches
  any character but a line feed.
\<close>

definition capture :: "string \<Rightarrow> string \<Rightarrow> string \<Rightarrow> string list option" where
  "capture pre post item =
     (let m = length item - length pre - length post; mid = take m (drop (length pre) item) in
      if item = pre @ mid @ post \<and> CHR 0x0A \<notin> set mid then Some [item, mid] else None)"

text \<open>\<open>regexp.QuoteMeta\<close>.\<close>

definition QuoteMeta :: "string \<Rightarrow> string" where
  "QuoteMeta s = concat (map (\<lambda>c. if c \<in> set [CHR 0x5C, CHR ''.'', CHR ''+'', CHR ''*'', CHR ''?'', CHR ''('', CHR '')'',
       CHR ''|'', CHR ''['', CHR '']'', CHR ''{'', CHR ''}'', CHR ''^'', CHR ''$''] then [CHR 0x5C, c] else [c]) s)"

type_synonym objx = "(string \<times> json) list"

definition expectedJSONMessage ::
  "(objx \<Rightarrow> string) \<Rightarrow> (string \<Rightarrow> objx option) \<Rightarrow> string \<Rightarrow> string \<Rightarrow> string \<Rightarrow> string \<Rightarrow> objx \<Rightarrow> bool \<Rightarrow> expected" where
  "expectedJSONMessage toJSON fromJSON app service from_client subtopic payload retained =
     (let rtn = (if retained then '', retained'' else []);
          topic = fixture_topic app service [subtopic];
          rx = ''^'' @ QuoteMeta from_client @ '' -> '' @ QuoteMeta topic @ '': '' @ [CHR 0x5C] @ ''[(.*)'' @
            [CHR 0x5C] @ ''] '' @ [CHR 0x5C] @ ''(QoS 1'' @ rtn @ [CHR 0x5C] @ '')$''
      in JSONRecMatcher (capture (from_client @ '' -> '' @ topic @ '': ['') (''] (QoS 1'' @ rtn @ '')''))
           toJSON fromJSON payload rx)"

text \<open>
  What the server does while the test waits for the recorder: the callbacks the broker ran put the
  messages into its channel, its goroutine handles them, and what it publishes goes to its client.
\<close>

fun deliver_all :: "(nat \<times> rpc_handler \<times> MQTTMessage) list \<Rightarrow> 'u server \<Rightarrow> 'u server res" where
  "deliver_all [] s = Inr s"
| "deliver_all ((n, h, m) # ds) s =
     (case receive_message m s of
        None \<Rightarrow> Inl BlockedForever
      | Some s' \<Rightarrow> deliver_all ds s')"

fun serve :: "('a, 'u, 'r) rpc_env \<Rightarrow> nat \<Rightarrow> 'u server \<Rightarrow> 'u server res" where
  "serve env 0 s = Inr s"
| "serve env (Suc n) s = bind_res (process_message env s) (serve env n)"

definition answer_all ::
  "('a, 'u, 'r) rpc_env \<Rightarrow> string list \<Rightarrow> (string \<Rightarrow> nat \<Rightarrow> string list) \<Rightarrow> rpc_handler fake \<Rightarrow> rpc_handler fake
     \<Rightarrow> 'u server \<Rightarrow> ('u server \<times> rpc_handler fake) res" where
  "answer_all env ps ts b b1 s =
     bind_res (deliver_all (filter (\<lambda>(n, h, m). n = 0) (drop (length (received b)) (received b1))) s) (\<lambda>s1.
     bind_res (serve env (if looping s1 then length (messageCh s1) else 0) s1) (\<lambda>s2.
     bind_res (perform_all (fake_ops (\<lambda>_. ps) ts 0) (drop (length (calls s)) (calls s2)) b1) (\<lambda>b2.
       Inr (s2, b2))))"

definition request_map :: "'u rpc_fixture \<Rightarrow> objx \<Rightarrow> objx" where
  "request_map fx params = [(''id'', JString (digits (unat (fx_id fx)))), (''params'', JObject params)]"

definition request_message :: "(objx \<Rightarrow> string) \<Rightarrow> 'u rpc_fixture \<Rightarrow> string \<Rightarrow> objx \<Rightarrow> MQTTMessage" where
  "request_message toJSON fx subtopic params =
     \<lparr>Topic = fixture_topic (fx_app fx) (fx_service fx) [subtopic @ ''/'' @ SAMPLE_CLIENT_ID],
      Payload = toJSON (request_map fx params), QoS = 1, Retained = False\<rparr>"

definition response_map :: "'u rpc_fixture \<Rightarrow> objx \<Rightarrow> objx" where
  "response_map fx expectedResponse =
     AList.update ''id'' (JString (digits (unat (fx_id fx)))) expectedResponse"

definition verifyRpcRaw ::
  "('a, 'u, 'r) rpc_env \<Rightarrow> (objx \<Rightarrow> string) \<Rightarrow> (string \<Rightarrow> objx option) \<Rightarrow> string list
     \<Rightarrow> (string \<Rightarrow> nat \<Rightarrow> string list) \<Rightarrow> string \<Rightarrow> objx \<Rightarrow> objx \<Rightarrow> 'u rpc_fixture
     \<Rightarrow> (failure + 'u rpc_fixture) res" where
  "verifyRpcRaw env toJSON fromJSON ps ts subtopic params expectedResponse fx =
     (let request = request_map fx params;
          resp = response_map fx expectedResponse;
          subtopicWithId = subtopic @ ''/'' @ SAMPLE_CLIENT_ID;
          msg = request_message toJSON fx subtopic params
      in bind_res (clientPublish ps ts 1 msg (fx_fake fx)) (\<lambda>b1.
         bind_res (answer_all env ps ts (fx_fake fx) b1 (fx_rpc fx)) (\<lambda>(s, b2). Inr
           (case Verify
              [expectedJSONMessage toJSON fromJSON (fx_app fx) (fx_service fx) ''tst'' subtopicWithId request False,
               expectedJSONMessage toJSON fromJSON (fx_app fx) (fx_service fx) (fx_clientName fx)
                 (subtopicWithId @ ''/reply'') resp False] (rec_ch b2) of
              Inl f \<Rightarrow> Inl f
            | Inr ch \<Rightarrow> Inr (fx\<lparr>fx_rpc := s, fx_fake := b2\<lparr>rec_ch := ch\<rparr>, fx_id := fx_id fx + 1\<rparr>)))))"

definition VerifyRpc where
  "VerifyRpc env toJSON fromJSON ps ts subtopic params expectedResult =
     verifyRpcRaw env toJSON fromJSON ps ts subtopic params [(''result'', expectedResult)]"

definition VerifyRpcError where
  "VerifyRpcError env toJSON fromJSON ps ts subtopic params code typ msg =
     verifyRpcRaw env toJSON fromJSON ps ts subtopic params
       [(''error'', JObject [(''message'', JString msg), (''code'', JNumber (itoa code)), (''data'', JString typ)])]"

definition TearDownRPC :: "'u rpc_fixture \<Rightarrow> 'u rpc_fixture res" where
  "TearDownRPC fx = bind_res (StopServer (fx_rpc fx)) (\<lambda>s. Inr (fx\<lparr>fx_rpc := s\<rparr>))"

section \<open>A message through the broker\<close>

lemma clientPublish_delivers:
  assumes "client_started (clients b n)" "length (rec_ch b) < REC_CAPACITY"
  obtains b' where "clientPublish ps ts n m b = Inr b'" "clients b' = clients b"
    "subscriptions b' = subscriptions b" "rec_ch b' = rec_ch b @ [publish_item (client_id (clients b n)) m]"
    "received b' = received b @ concat (map (\<lambda>p. if topicMatch p (Topic m)
       then concat (map (\<lambda>n. deliveries (\<lambda>n. callbacks_of n b) (ts p n) n m) (subscribers b p)) else []) ps)"
proof -
  from clientPublish_records [OF assms] obtain b' where
    b': "clientPublish ps ts n m b = Inr b'" "clients b' = clients b"
      "rec_ch b' = rec_ch b @ [publish_item (client_id (clients b n)) m]" by blast
  then have "brokerPublish ps ts (client_id (clients b n)) m b = Inr b'"
    by (auto simp: clientPublish_def)
  from brokerPublish_fields [OF this] brokerPublish_received [OF this] b' that show thesis by blast
qed

section \<open>Topics of a request and of its reply\<close>

definition plain_level :: "string \<Rightarrow> bool" where
  "plain_level l \<longleftrightarrow> CHR ''/'' \<notin> set l \<and> l \<noteq> ''#''"

lemma request_topic_matches:
  assumes "plain_level app" "CHR ''/'' \<notin> set service" "CHR ''/'' \<notin> set subtopic"
  shows "topicMatch (RPC_APP_PREFIX @ app @ ''/+/+/+'')
    (fixture_topic app service [subtopic @ ''/'' @ SAMPLE_CLIENT_ID])"
    "\<not> topicMatch (RPC_APP_PREFIX @ app @ ''/+/+/+'')
    (fixture_topic app service [subtopic @ ''/'' @ SAMPLE_CLIENT_ID] @ ''/reply'')"
  using assms
  by (simp_all add: plain_level_def topicMatch_def fixture_topic_def RPC_APP_PREFIX_def split_on_append
      split_on_no_sep SAMPLE_CLIENT_ID_def)

section \<open>What the recorder is compared with\<close>

definition json_matches :: "(objx \<Rightarrow> string) \<Rightarrow> (string \<Rightarrow> objx option) \<Rightarrow> objx \<Rightarrow> string \<Rightarrow> bool" where
  "json_matches toJSON fromJSON expected text \<longleftrightarrow> CHR 0x0A \<notin> set text \<and>
     (case fromJSON text of None \<Rightarrow> False | Some actual \<Rightarrow> toJSON expected = toJSON actual)"

lemma capture_split: "capture pre post (pre @ mid @ post) =
    (if CHR 0x0A \<in> set mid then None else Some [pre @ mid @ post, mid])"
  by (simp add: capture_def Let_def)

lemma expectedJSON_meets:
  assumes "take 1 source \<noteq> ''^''" "Topic m = fixture_topic app service [subtopic]" "QoS m = 1" "\<not> Retained m"
  shows "meets (expectedJSONMessage toJSON fromJSON app service source subtopic v False) (publish_item source m) \<longleftrightarrow>
    json_matches toJSON fromJSON v (Payload m)"
proof -
  let ?pre = "source @ '' -> '' @ Topic m @ '': [''" and ?post = "''] (QoS 1)''"
  have item: "publish_item source m = ?pre @ Payload m @ ?post"
    using assms(3,4) by (simp add: publish_item_def FormatMQTTMessage_def itoa_one)
  have "''^'' @ x \<noteq> publish_item source m" for x
    using assms(1) by (cases source) (auto simp: publish_item_def)
  moreover have "capture (source @ '' -> '' @ fixture_topic app service [subtopic] @ '': ['') ?post (publish_item source m) =
      (if CHR 0x0A \<in> set (Payload m) then None else Some [publish_item source m, Payload m])"
    using capture_split [of ?pre ?post "Payload m"] assms(2) by (simp add: item)
  ultimately show ?thesis
    by (simp add: expectedJSONMessage_def JSONRecMatcher_def RegexpCaptureMatcherWithCustomText_def Let_def
        json_matches_def split: option.split)
qed

section \<open>The fixture between two requests\<close>

definition fx_ready :: "'u rpc_fixture \<Rightarrow> bool" where
  "fx_ready fx \<longleftrightarrow>
     (let b = fx_fake fx; s = fx_rpc fx; topic = subscriptionTopic s in
      plain_level (fx_app fx) \<and> CHR ''/'' \<notin> set (fx_service fx) \<and> take 1 (fx_clientName fx) \<noteq> ''^'' \<and>
      prefix s = RPC_APP_PREFIX @ fx_app fx \<and> looping s \<and> messageCh s = [] \<and>
      rec_ch b = [] \<and> subscriptions b = [topic \<mapsto> [0]] \<and> callbackMap (clients b 0) = [topic \<mapsto> [Receive]] \<and>
      (\<forall>n\<in>{0, 1}. client_started (clients b n)) \<and>
      client_id (clients b 0) = fx_clientName fx \<and> client_id (clients b 1) = ''tst'')"

lemma key_order_single: "key_order [k \<mapsto> v] ks \<longleftrightarrow> ks = [k]"
proof
  assume "key_order [k \<mapsto> v] ks"
  then have k: "distinct ks" "set ks = {k}" by (simp_all add: key_order_def)
  then have "length ks = 1" using distinct_card [of ks] by simp
  then obtain x where "ks = [x]" by (auto simp: length_Suc_conv)
  with k show "ks = [k]" by simp
qed (simp add: key_order_def)

text \<open>The server's side of a request: taken from the queue, handled, one message published.\<close>

lemma answer_request:
  assumes "fx_ready fx" "answers env"
    and t: "topicMatch (subscriptionTopic (fx_rpc fx)) (Topic m)"
      "\<not> topicMatch (subscriptionTopic (fx_rpc fx)) (Topic m @ ''/reply'')"
    and b1: "clients b1 = clients (fx_fake fx)" "subscriptions b1 = subscriptions (fx_fake fx)"
      "rec_ch b1 = [item]" "received b1 = received (fx_fake fx) @ [(0, Receive, m)]"
  obtains s r j b2 where "doHandleMessage env m (fx_rpc fx) = Inr (s, r)" "response_json env r = Some j"
    "answer_all env [subscriptionTopic (fx_rpc fx)] ts (fx_fake fx) b1 (fx_rpc fx) =
       Inr (add_calls [MPublish (reply_message (Topic m) (render j))] s, b2)"
    "clients b2 = clients b1" "subscriptions b2 = subscriptions b1"
    "rec_ch b2 = [item, publish_item (fx_clientName fx) (reply_message (Topic m) (render j))]"
proof -
  let ?s = "fx_rpc fx"
  have r: "messageCh ?s = []" "looping ?s" "prefix ?s = RPC_APP_PREFIX @ fx_app fx"
    "client_started (clients b1 0)" "client_id (clients b1 0) = fx_clientName fx"
    using assms(1) b1(1) by (simp_all add: fx_ready_def Let_def)
  have "\<exists>found. locateMethod ?s (Topic m) = Inr found"
    using t(1) r(3) by (intro locateMethod_returns [of "fx_app fx @ ''/+/+/+''"]) (simp add: subscriptionTopic_def)
  with doHandle_returns [of ?s m _ env] assms(2) obtain s r j where
    d: "doHandleMessage env m ?s = Inr (s, r)" "response_json env r = Some j" by blast
  let ?reply = "reply_message (Topic m) (render j)"
  have "handleMessage env m ?s = Inr (add_calls [MPublish ?reply] s)"
    using d by (simp add: handleMessage_Inr)
  moreover have "?s\<lparr>messageCh := []\<rparr> = ?s" "calls s = calls ?s"
    using r(1) d(1) by (auto elim: doHandleMessage_cases)
  ultimately have sv: "serve env 1 (?s\<lparr>messageCh := [m]\<rparr>) = Inr (add_calls [MPublish ?reply] s)"
    "drop (length (calls ?s)) (calls (add_calls [MPublish ?reply] s)) = [MPublish ?reply]"
    by (simp_all add: process_message_def add_calls_def)
  obtain b2 where b2: "clientPublish [subscriptionTopic ?s] ts 0 ?reply b1 = Inr b2" "clients b2 = clients b1"
    "subscriptions b2 = subscriptions b1" "rec_ch b2 = [item, publish_item (fx_clientName fx) ?reply]"
    using clientPublish_delivers [OF r(4), of "[subscriptionTopic ?s]" ts ?reply] b1(3) r(5)
    by (auto simp: REC_CAPACITY_def)
  have "deliver_all [(0 :: nat, Receive, m)] ?s = Inr (?s\<lparr>messageCh := [m]\<rparr>)"
    using r(1) by (simp add: receive_message_def RPC_MESSAGE_QUEUE_LEN_def)
  with sv b2(1) r(2) b1(4) have "answer_all env [subscriptionTopic ?s] ts (fx_fake fx) b1 ?s =
      Inr (add_calls [MPublish ?reply] s, b2)"
    by (simp add: answer_all_def fake_ops_def)
  with that d b2 show thesis by blast
qed

lemma handled_keeps_ready:
  assumes "fx_ready fx" "doHandleMessage env m (fx_rpc fx) = Inr (s, r)" "clients b = clients (fx_fake fx)"
    "subscriptions b = subscriptions (fx_fake fx)" "rec_ch b = []"
  shows "fx_ready (fx\<lparr>fx_rpc := add_calls ks s, fx_fake := b, fx_id := i\<rparr>)"
proof -
  have "prefix s = prefix (fx_rpc fx) \<and> looping s = looping (fx_rpc fx) \<and> messageCh s = messageCh (fx_rpc fx)"
    using assms(2) by (cases rule: doHandleMessage_cases) auto
  with assms(1,3-5) show ?thesis by (simp add: fx_ready_def Let_def subscriptionTopic_def add_calls_def)
qed

text \<open>The test's side: the request is recorded and reaches the callback of the server, and nothing else.\<close>

lemma request_published:
  assumes "fx_ready fx" "CHR ''/'' \<notin> set subtopic" "key_order (subscriptions (fx_fake fx)) ps"
    "key_order (callbackMap (clients (fx_fake fx) 0)) (ts (subscriptionTopic (fx_rpc fx)) 0)"
  obtains b1 where "ps = [subscriptionTopic (fx_rpc fx)]"
    "topicMatch (subscriptionTopic (fx_rpc fx)) (Topic (request_message toJSON fx subtopic params))"
    "\<not> topicMatch (subscriptionTopic (fx_rpc fx)) (Topic (request_message toJSON fx subtopic params) @ ''/reply'')"
    "clientPublish ps ts 1 (request_message toJSON fx subtopic params) (fx_fake fx) = Inr b1"
    "clients b1 = clients (fx_fake fx)" "subscriptions b1 = subscriptions (fx_fake fx)"
    "rec_ch b1 = [publish_item ''tst'' (request_message toJSON fx subtopic params)]"
    "received b1 = received (fx_fake fx) @ [(0, Receive, request_message toJSON fx subtopic params)]"
proof -
  let ?b = "fx_fake fx" and ?s = "fx_rpc fx" and ?m = "request_message toJSON fx subtopic params"
  let ?t = "subscriptionTopic ?s"
  have r: "prefix ?s = RPC_APP_PREFIX @ fx_app fx" "plain_level (fx_app fx)" "CHR ''/'' \<notin> set (fx_service fx)"
    "rec_ch ?b = []" "subscriptions ?b = [?t \<mapsto> [0]]" "callbackMap (clients ?b 0) = [?t \<mapsto> [Receive]]"
    "client_started (clients ?b 1)" "client_id (clients ?b 1) = ''tst''"
    using assms(1) by (simp_all add: fx_ready_def Let_def)
  have o: "ps = [?t]" "ts ?t 0 = [?t]"
    using assms(3,4) r(5,6) by (simp_all add: key_order_single)
  have t: "topicMatch ?t (Topic ?m)" "\<not> topicMatch ?t (Topic ?m @ ''/reply'')"
    using request_topic_matches [OF r(2,3) assms(2)] r(1) by (simp_all add: request_message_def subscriptionTopic_def)
  obtain b1 where "clientPublish ps ts 1 ?m ?b = Inr b1" "clients b1 = clients ?b"
    "subscriptions b1 = subscriptions ?b" "rec_ch b1 = [publish_item ''tst'' ?m]"
    "received b1 = received ?b @ [(0, Receive, ?m)]"
    using clientPublish_delivers [OF r(7), of ps ts ?m] r(4-6,8) t(1) o
    by (auto simp: REC_CAPACITY_def deliveries_def callbacks_of_def subscribers_def get_or_def)
  with that o t show thesis by blast
qed

text \<open>
  C15. A request of a test of an RPC server, end to end: the test's client publishes it, the fake broker
  runs the callback of the server, the server's goroutine takes the message from its queue, handles it and
  publishes the reply, and the recorder is read. With methods that keep to the rules this
  runs to its end, and the check passes exactly when the request's text is read back as the request and
  the reply the server computed is, as a JSON text, the expected response with the request's id; then the
  fixture is ready for the next request, which has the next id.
\<close>

theorem verify_rpc_round_trip:
  assumes "fx_ready fx" "answers env" "CHR ''/'' \<notin> set subtopic"
    and "key_order (subscriptions (fx_fake fx)) ps"
    and "key_order (callbackMap (clients (fx_fake fx) 0)) (ts (subscriptionTopic (fx_rpc fx)) 0)"
  shows "\<exists>s r j x. doHandleMessage env (request_message toJSON fx subtopic params) (fx_rpc fx) = Inr (s, r) \<and>
    response_json env r = Some j \<and>
    verifyRpcRaw env toJSON fromJSON ps ts subtopic params expectedResponse fx = Inr x \<and>
    ((\<exists>fx'. x = Inr fx') \<longleftrightarrow>
       json_matches toJSON fromJSON (request_map fx params) (toJSON (request_map fx params)) \<and>
       json_matches toJSON fromJSON (response_map fx expectedResponse) (render j)) \<and>
    (\<forall>fx'. x = Inr fx' \<longrightarrow> fx_ready fx' \<and> fx_id fx' = fx_id fx + 1)"
proof -
  let ?b = "fx_fake fx" and ?s = "fx_rpc fx" and ?m = "request_message toJSON fx subtopic params"
  let ?t = "subscriptionTopic ?s"
  have c: "take 1 (fx_clientName fx) \<noteq> ''^''" using assms(1) by (simp add: fx_ready_def Let_def)
  obtain b1 where o: "ps = [?t]" and t: "topicMatch ?t (Topic ?m)" "\<not> topicMatch ?t (Topic ?m @ ''/reply'')"
    and b1: "clientPublish ps ts 1 ?m ?b = Inr b1" "clients b1 = clients ?b"
      "subscriptions b1 = subscriptions ?b" "rec_ch b1 = [publish_item ''tst'' ?m]"
      "received b1 = received ?b @ [(0, Receive, ?m)]"
    using request_published [where ts = ts, OF assms(1,3-5)] by blast
  from answer_request [OF assms(1,2) t b1(2-5)] obtain s r j b2 where
    d: "doHandleMessage env ?m ?s = Inr (s, r)" "response_json env r = Some j"
    and a: "answer_all env ps ts ?b b1 ?s = Inr (add_calls [MPublish (reply_message (Topic ?m) (render j))] s, b2)"
    and b2: "clients b2 = clients b1" "subscriptions b2 = subscriptions b1"
      "rec_ch b2 = [publish_item ''tst'' ?m, publish_item (fx_clientName fx) (reply_message (Topic ?m) (render j))]"
    unfolding o by metis
  let ?sub = "subtopic @ ''/'' @ SAMPLE_CLIENT_ID"
  have "Topic ?m @ ''/reply'' = fixture_topic (fx_app fx) (fx_service fx) [?sub @ ''/reply'']"
    by (simp add: request_message_def fixture_topic_def)
  then have m: "meets (expectedJSONMessage toJSON fromJSON (fx_app fx) (fx_service fx) ''tst'' ?sub v False)
       (publish_item ''tst'' ?m) \<longleftrightarrow> json_matches toJSON fromJSON v (toJSON (request_map fx params))"
    "meets (expectedJSONMessage toJSON fromJSON (fx_app fx) (fx_service fx) (fx_clientName fx) (?sub @ ''/reply'') v False)
       (publish_item (fx_clientName fx) (reply_message (Topic ?m) (render j))) \<longleftrightarrow> json_matches toJSON fromJSON v (render j)"
    for v
    using expectedJSON_meets [OF c, of "reply_message (Topic ?m) (render j)"]
      expectedJSON_meets [of "''tst''" ?m "fx_app fx" "fx_service fx" ?sub]
    by (simp_all add: request_message_def reply_message_def)
  let ?fx = "\<lambda>ch. fx\<lparr>fx_rpc := add_calls [MPublish (reply_message (Topic ?m) (render j))] s,
    fx_fake := b2\<lparr>rec_ch := ch\<rparr>, fx_id := fx_id fx + 1\<rparr>"
  let ?es = "[expectedJSONMessage toJSON fromJSON (fx_app fx) (fx_service fx) ''tst'' ?sub (request_map fx params) False,
    expectedJSONMessage toJSON fromJSON (fx_app fx) (fx_service fx) (fx_clientName fx) (?sub @ ''/reply'')
      (response_map fx expectedResponse) False]"
  let ?ok = "json_matches toJSON fromJSON (request_map fx params) (toJSON (request_map fx params)) \<and>
    json_matches toJSON fromJSON (response_map fx expectedResponse) (render j)"
  have v: "Verify ?es (rec_ch b2) = Inr ch \<longleftrightarrow> ?ok \<and> ch = []" for ch
    using m by (simp add: verifyRec_ordered b2(3))
  have ready: "fx_ready (?fx [])" using handled_keeps_ready [OF assms(1) d(1)] b1(2,3) b2(1,2) by simp
  have x: "verifyRpcRaw env toJSON fromJSON ps ts subtopic params expectedResponse fx =
      Inr (case Verify ?es (rec_ch b2) of Inl f \<Rightarrow> Inl f | Inr ch \<Rightarrow> Inr (?fx ch))"
    using b1(1) a by (simp add: verifyRpcRaw_def Let_def)
  show ?thesis
  proof (cases "Verify ?es (rec_ch b2)")
    case (Inl f)
    then have "\<not> ?ok" using v [of "[]"] by auto
    with x Inl d show ?thesis by auto
  next
    case (Inr ch)
    then have "?ok" "ch = []" using v by blast+
    with x Inr d ready show ?thesis by auto
  qed
qed

section \<open>A request after the set-up\<close>

lemma fixture_ready:
  assumes "Register table rcvr Map.empty = Inr (Inr [service \<mapsto> svc])" "length names < REC_CAPACITY"
    "plain_level app" "CHR ''/'' \<notin> set service" "take 1 app \<noteq> ''^''"
    "register_receiver table rcvr (NewMQTTRPCServer app u) = Inr s"
    "NewRpcFixture table app service app rcvr methods u [service] (\<lambda>_. names) ps ts = Inr (Inr fx)"
  shows "fx_ready fx" "fx_id fx = 1" "fx_rpc fx = StartServer [service] (\<lambda>_. names) s"
    "fx_app fx = app" "fx_service fx = service"
proof -
  have "fx_ready fx \<and> fx_id fx = 1 \<and> fx_rpc fx = StartServer [service] (\<lambda>_. names) s \<and> fx_app fx = app \<and>
    fx_service fx = service"
  proof (rule fixture_run [OF assms(1,2), of app u app methods ps ts], goal_cases)
    case (1 s' b r)
    from 1(9) assms(7) have "r = Inr fx" by simp
    then have fx: "fx = \<lparr>fx_fake = b\<lparr>rec_ch := []\<rparr>, fx_rpc = StartServer [service] (\<lambda>_. names) s, fx_id = 1,
         fx_app = app, fx_service = service, fx_clientName = app\<rparr>"
      using 1(1,10) assms(6) by simp
    obtain services where "s = (NewMQTTRPCServer app u)\<lparr>serviceMap := services\<rparr>"
      using assms(1,6) by (auto simp: register_receiver_def NewMQTTRPCServer_def)
    then have "prefix (StartServer [service] (\<lambda>_. names) s) = RPC_APP_PREFIX @ app \<and>
        looping (StartServer [service] (\<lambda>_. names) s) \<and> messageCh (StartServer [service] (\<lambda>_. names) s) = []"
      by (simp add: StartServer_def NewMQTTRPCServer_def add_calls_def Let_def)
    with 1(3-8) fx assms(3-5) show ?case
      by (simp add: fx_ready_def Let_def subscriptionTopic_def RPC_APP_PREFIX_def)
  qed
  then show "fx_ready fx" "fx_id fx = 1" "fx_rpc fx = StartServer [service] (\<lambda>_. names) s"
    "fx_app fx = app" "fx_service fx = service" by blast+
qed

text \<open>The test of rpc_test.go for a product: \<open>VerifyRpc("Multiply", \<dots>, 42)\<close>.\<close>

definition demo_toJSON :: "objx \<Rightarrow> string" where
  "demo_toJSON m = render (JObject (sort_key fst m))"

definition demo_fromJSON :: "string \<Rightarrow> objx option" where
  "demo_fromJSON text = (case parse_json text of Some (JObject m) \<Rightarrow> Some m | _ \<Rightarrow> None)"

definition demo_args_map :: objx where
  "demo_args_map = [(''A'', JNumber ''6''), (''B'', JNumber ''7'')]"

lemma demo_fixture:
  obtains fx where "fx_ready fx" "fx_id fx = 1" "fx_rpc fx = rpc_s2" "fx_app fx = ''SampleRpc''"
    "fx_service fx = ''Arith''"
    "NewRpcFixture demo_table ''SampleRpc'' ''Arith'' ''SampleRpc'' arith [''Divide'', ''MakeAnError'', ''Multiply''] ()
       [''Arith''] (\<lambda>_. arith_names) (\<lambda>_. []) (\<lambda>_ _. []) = Inr (Inr fx)"
proof -
  have r: "Register demo_table arith Map.empty = Inr (Inr [''Arith'' \<mapsto> arith_service])"
    using demo_register by (simp add: Register_def)
  have s: "register_receiver demo_table arith (NewMQTTRPCServer ''SampleRpc'' ()) = Inr rpc_s1"
    using r by (simp add: register_receiver_def rpc_s1_def rpc_s0_def NewMQTTRPCServer_def)
  have l: "length arith_names < REC_CAPACITY" by (simp add: arith_names_def REC_CAPACITY_def)
  have o: "sort arith_names = [''Divide'', ''MakeAnError'', ''Multiply'']" by (simp add: arith_names_def)
  obtain fx where fx: "NewRpcFixture demo_table ''SampleRpc'' ''Arith'' ''SampleRpc'' arith
      [''Divide'', ''MakeAnError'', ''Multiply''] () [''Arith''] (\<lambda>_. arith_names) (\<lambda>_. []) (\<lambda>_ _. []) = Inr (Inr fx)"
    by (rule fixture_run [OF r l, of "''SampleRpc''" "()" "''SampleRpc''" "[''Divide'', ''MakeAnError'', ''Multiply'']"
          "\<lambda>_. []" "\<lambda>_ _. []"]) (simp add: o expected_items_def)
  from fixture_ready [OF r l _ _ _ s fx] that fx show thesis by (simp add: plain_level_def rpc_s2_def)
qed

lemma demo_args_printable: "printable (JObject demo_args_map)"
  by (simp add: demo_args_map_def scan_number_def scan_sign_def scan_int_def scan_frac_def scan_exp_def
      digit_run_def is_digit_def)

lemma demo_request_text:
  assumes "fx_id fx = 1"
  shows "demo_toJSON (request_map fx demo_args_map) =
    render (JObject [(''id'', JString ''1''), (''params'', JObject demo_args_map)])"
  using assms by (simp add: demo_toJSON_def request_map_def digits.simps char_of_def bit_Suc_0_iff sort_key_def)

lemma demo_round_trip_handled:
  assumes "fx_id fx = 1" "fx_app fx = ''SampleRpc''" "fx_service fx = ''Arith''"
  shows "doHandleMessage demo_rpc (request_message demo_toJSON fx ''Multiply'' demo_args_map) rpc_s2 =
    Inr (count_call arith_service (arith_mtype ''Multiply'' int_ptr) rpc_s2,
      SuccessResponse (GString ''1'') (Some (JNumber (itoa 42))))"
proof -
  let ?m = "request_message demo_toJSON fx ''Multiply'' demo_args_map"
  have l: "locateMethod rpc_s2 (Topic ?m) = Inr (Inr (arith_service, arith_mtype ''Multiply'' int_ptr))"
    using assms by (simp add: locateMethod_def request_message_def fixture_topic_def SAMPLE_CLIENT_ID_def arith_service_def)
  have u: "unmarshalRequest (Payload ?m) = Some \<lparr>req_Id = Some (JString ''1''), req_Params = Some (JObject demo_args_map)\<rparr>"
    using demo_request_text [OF assms(1)] printable_request [of "JString ''1''" "JObject demo_args_map"] demo_args_printable
    by (simp add: request_message_def raw_message_def del: render.simps)
  have "demo_params ty (JObject demo_args_map) = Decoded (6, 7)" for ty
    using demo_args [of ty] by (simp only: demo_args_map_def args_json_def)
  then have "parseMessage demo_rpc rpc_s2 ?m =
     Inr (GString ''1'', Inr (arith_service, arith_mtype ''Multiply'' int_ptr, ByPointer (6, 7)))"
    by (simp add: parseMessage_found [OF l] request_id_def u)
       (simp add: pass_args_def arith_mtype_def args_type_def)
  from doHandle_called [OF this] show ?thesis
    by (simp add: call_method_def arith_invoke_def) (simp add: arith_mtype_def)
qed

lemma demo_matches:
  "list_all (\<lambda>p. ascii (fst p) \<and> printable (snd p)) m \<Longrightarrow> sort_key fst e = sort_key fst m \<Longrightarrow>
     json_matches demo_toJSON demo_fromJSON e (render (JObject m))"
  using parse_render [of "JObject m"] render_one_line [of "JObject m"]
  by (simp add: json_matches_def demo_toJSON_def demo_fromJSON_def del: render.simps)

lemma demo_expected:
  assumes "fx_id fx = 1"
  shows "json_matches demo_toJSON demo_fromJSON (request_map fx demo_args_map) (demo_toJSON (request_map fx demo_args_map))"
    "json_matches demo_toJSON demo_fromJSON (response_map fx [(''result'', JNumber (itoa 42))])
       (render (JObject [(''id'', JString ''1''), (''result'', JNumber (itoa 42))]))"
  using assms demo_args_printable unfolding demo_request_text [OF assms]
  by (intro demo_matches; simp add: request_map_def response_map_def scan_number_itoa digits.simps char_of_def
      bit_Suc_0_iff sort_key_def)+

theorem verify_rpc_round_trip_witness:
  "\<exists>fx fx'. fx_ready fx \<and> VerifyRpc demo_rpc demo_toJSON demo_fromJSON [''/rpc/v1/SampleRpc/+/+/+'']
     (\<lambda>_ _. [''/rpc/v1/SampleRpc/+/+/+'']) ''Multiply'' demo_args_map (JNumber (itoa 42)) fx = Inr (Inr fx')"
proof -
  obtain fx where fx: "fx_ready fx" "fx_id fx = 1" "fx_rpc fx = rpc_s2" "fx_app fx = ''SampleRpc''"
    "fx_service fx = ''Arith''"
    using demo_fixture by blast
  have t: "subscriptionTopic (fx_rpc fx) = ''/rpc/v1/SampleRpc/+/+/+''"
    using fx(1,4) by (simp add: fx_ready_def Let_def subscriptionTopic_def RPC_APP_PREFIX_def)
  have o: "key_order (subscriptions (fx_fake fx)) [''/rpc/v1/SampleRpc/+/+/+'']"
    "key_order (callbackMap (clients (fx_fake fx) 0)) [''/rpc/v1/SampleRpc/+/+/+'']"
    using fx(1) unfolding t [symmetric] by (simp_all add: fx_ready_def Let_def key_order_single)
  from verify_rpc_round_trip [OF fx(1) demo_answers _ o(1), of "''Multiply''" "\<lambda>_ _. [''/rpc/v1/SampleRpc/+/+/+'']"
      demo_toJSON demo_args_map demo_fromJSON "[(''result'', JNumber (itoa 42))]"]
  show ?thesis
    using fx o(2) demo_round_trip_handled [OF fx(2,4,5)] demo_expected [OF fx(2)]
    by (auto simp: VerifyRpc_def simp del: render.simps)
qed

end
