(* ===== verification/Dir_Watcher.thy ===== *)
theory Dir_Watcher
  imports File_Path "HOL-Library.AList"
begin

text \<open>
  dirwatcher.go: a watcher keeps the files it loaded, gathers the changes the operating system
  reports and, when none came for a while, hands them to its client in one batch. The file system is
  a tree that an operation reads, the watcher of the \<open>fsnotify\<close> package the list of the paths it was
  given. The client's answers and whether \<open>fsnotify.NewWatcher\<close> succeeds are arguments.
\<close>

section \<open>Data\<close>

definition DIRWATCHER_OP_CHANGE :: nat where "DIRWATCHER_OP_CHANGE = 2"
definition DIRWATCHER_OP_REMOVE :: nat where "DIRWATCHER_OP_REMOVE = 3"

record dirWatcherOp =
  op_typ :: nat
  op_path :: string

datatype watcher_call =
    LoadFile string
  | LiveLoadFile string
  | LiveRemoveFile string

text \<open>
  An entry of a directory as \<open>ReadDir\<close> lists it: a directory with its entries in the order of their
  names, one that cannot be read, or anything else (a link is not followed here).
\<close>

datatype node =
    FileNode
  | DirNode "(string \<times> node) list"
  | BadDirNode string

text \<open>
  What an operation is run with: the answer of \<open>os.Stat\<close> (an error, or what the path leads to), the
  matching of a name with the pattern, the client's answer to a call after the calls before, and
  whether a new watcher can be made.
\<close>

record dw_env =
  env_Stat :: "string \<Rightarrow> string + node"
  env_Match :: "string \<Rightarrow> bool"
  env_Client :: "watcher_call list \<Rightarrow> watcher_call \<Rightarrow> string option"
  env_NewWatcher :: bool

text \<open>
  The state. \<open>loaded\<close> is the map from paths to whether they were given explicitly; \<open>opsByPath\<close> points
  into \<open>opList\<close>; \<open>timer\<close> is whether the reload timer runs, \<open>tick\<close> whether its channel holds a tick;
  \<open>batch\<close> is what is left of the batch the goroutine works on. Of the two locks the state has whether
  they are held by somebody who waits: \<open>initMtx\<close> by a \<open>Stop\<close> that waits for the goroutine to take its
  \<open>quit\<close>, \<open>evMtx\<close> by a \<open>Load\<close> that waits for \<open>initMtx\<close>. Everybody else releases them in the step that
  takes them.
\<close>

record dw =
  watcher :: "string list option"
  started :: bool
  loaded :: "(string \<times> bool) list"
  opsByPath :: "string \<rightharpoonup> nat"
  opList :: "dirWatcherOp list"
  timer :: bool
  tick :: bool
  batch :: "dirWatcherOp list option"
  clientCalls :: "watcher_call list"
  initMtx :: bool
  evMtx :: bool

definition NewDirWatcher :: dw where
  "NewDirWatcher =
     \<lparr>watcher = None, started = False, loaded = [], opsByPath = Map.empty, opList = [],
      timer = False, tick = False, batch = None, clientCalls = [], initMtx = False, evMtx = False\<rparr>"

section \<open>Gathering events\<close>

datatype fs_op = FsCreate | FsWrite | FsRemove | FsRename | FsChmod

record fs_event =
  ev_name :: string
  ev_op :: "fs_op set"

definition resetOps :: "dw \<Rightarrow> dw" where
  "resetOps s = s\<lparr>opsByPath := Map.empty, opList := []\<rparr>"

definition event_op :: "fs_event \<Rightarrow> nat" where
  "event_op ev =
     (if ev_op ev = {FsRemove} \<or> ev_op ev = {FsRename} then DIRWATCHER_OP_REMOVE
      else DIRWATCHER_OP_CHANGE)"

definition registerFSEvent :: "fs_event \<Rightarrow> dw \<Rightarrow> dw" where
  "registerFSEvent ev s =
     (let s =
        (case opsByPath s (ev_name ev) of
           Some i \<Rightarrow> s\<lparr>opList := (opList s)[i := (opList s ! i)\<lparr>op_typ := event_op ev\<rparr>]\<rparr>
         | None \<Rightarrow> s\<lparr>opsByPath := (opsByPath s)(ev_name ev \<mapsto> length (opList s)),
                     opList := opList s @ [\<lparr>op_typ = event_op ev, op_path = ev_name ev\<rparr>]\<rparr>)
      in s\<lparr>timer := True\<rparr>)"

section \<open>Loading\<close>

text \<open>
  \<open>startWatching\<close> runs with \<open>initMtx\<close> locked: whoever runs it (\<open>Load\<close>, or the goroutine in a change)
  first waits until the lock is free, which is a guard of the steps below.
\<close>

definition startWatching :: "dw_env \<Rightarrow> dw \<Rightarrow> dw" where
  "startWatching E s =
     (if started s then s
      else if \<not> env_NewWatcher E then s\<lparr>watcher := None\<rparr>
      else resetOps (s\<lparr>watcher := Some [], started := True\<rparr>))"

text \<open>\<open>Add\<close> of the watcher; there is none when it could not be made.\<close>

definition watch :: "string \<Rightarrow> dw \<Rightarrow> dw res" where
  "watch p s =
     (case watcher s of
        None \<Rightarrow> Inl NilDereference
      | Some ps \<Rightarrow> Inr (s\<lparr>watcher := Some (ps @ [p])\<rparr>))"

definition call_client :: "dw_env \<Rightarrow> watcher_call \<Rightarrow> dw \<Rightarrow> dw \<times> string option" where
  "call_client E k s = (s\<lparr>clientCalls := clientCalls s @ [k]\<rparr>, env_Client E (clientCalls s) k)"

definition loadFile :: "dw_env \<Rightarrow> string \<Rightarrow> bool \<Rightarrow> bool \<Rightarrow> dw \<Rightarrow> dw \<times> string option" where
  "loadFile E filePath reloaded explicit s =
     (let s = s\<lparr>loaded := AList.update filePath explicit (loaded s)\<rparr> in
      if reloaded then call_client E (LiveLoadFile filePath) s
      else call_client E (LoadFile filePath) s)"

text \<open>The errors of the entries of a directory are logged and dropped.\<close>

fun loadDir :: "dw_env \<Rightarrow> bool \<Rightarrow> string \<Rightarrow> node \<Rightarrow> dw \<Rightarrow> (dw \<times> string option) res"
  and loadEntries :: "dw_env \<Rightarrow> bool \<Rightarrow> string \<Rightarrow> (string \<times> node) list \<Rightarrow> dw \<Rightarrow> dw res" where
  "loadDir E reloaded filePath FileNode s = Inr (s, Some ''not a directory'')"
| "loadDir E reloaded filePath (BadDirNode err) s = Inr (s, Some err)"
| "loadDir E reloaded filePath (DirNode entries) s =
     bind_res (watch filePath s) (\<lambda>s.
     bind_res (loadEntries E reloaded filePath entries s) (\<lambda>s. Inr (s, None)))"
| "loadEntries E reloaded filePath [] s = Inr s"
| "loadEntries E reloaded filePath ((name, FileNode) # entries) s =
     loadEntries E reloaded filePath entries
       (if env_Match E name then fst (loadFile E (Join2 filePath name) reloaded False s) else s)"
| "loadEntries E reloaded filePath ((name, nd) # entries) s =
     bind_res (loadDir E reloaded (Join2 filePath name) nd s) (\<lambda>(s, err).
       loadEntries E reloaded filePath entries s)"

fun is_dir :: "node \<Rightarrow> bool" where
  "is_dir FileNode = False"
| "is_dir _ = True"

text \<open>The last element of a path, which \<open>os.Stat\<close> gives as the name: slashes at the end do not count.\<close>

definition Base :: "string \<Rightarrow> string" where
  "Base p =
     (let q = rev (dropWhile (\<lambda>c. c = CHR ''/'') (rev p)) in
      if p \<noteq> [] \<and> q = [] then ''/'' else last (split_on CHR ''/'' q))"

definition doLoad :: "dw_env \<Rightarrow> string \<Rightarrow> bool \<Rightarrow> bool \<Rightarrow> dw \<Rightarrow> (dw \<times> string option) res" where
  "doLoad E filePath explicit reloaded s =
     (let s = startWatching E s in
      case env_Stat E filePath of
        Inl err \<Rightarrow> Inr (s, Some err)
      | Inr nd \<Rightarrow>
          if is_dir nd then loadDir E reloaded filePath nd s
          else if explicit then
            bind_res (watch filePath s) (\<lambda>s. Inr (loadFile E filePath reloaded explicit s))
          else if env_Match E (Base filePath) then Inr (loadFile E filePath reloaded explicit s)
          else Inr (s, None))"

definition Load :: "dw_env \<Rightarrow> string \<Rightarrow> dw \<Rightarrow> (dw \<times> string option) res" where
  "Load E filePath s = doLoad E filePath True False s"

section \<open>Removing\<close>

definition is_loaded :: "dw \<Rightarrow> string \<Rightarrow> bool" where
  "is_loaded s p \<longleftrightarrow> map_of (loaded s) p \<noteq> None"

definition forget :: "dw_env \<Rightarrow> string \<Rightarrow> dw \<Rightarrow> dw" where
  "forget E filePath s =
     (let s = fst (call_client E (LiveRemoveFile filePath) s) in
      s\<lparr>loaded := AList.delete filePath (loaded s)\<rparr>)"

text \<open>The loaded paths below a path, sorted: the order in which Go walks the map does not matter.\<close>

definition subpaths :: "string \<Rightarrow> dw \<Rightarrow> string list" where
  "subpaths filePath s = sort (filter (IsSubpath filePath) (map fst (loaded s)))"

function removePath :: "dw_env \<Rightarrow> string \<Rightarrow> dw \<Rightarrow> dw"
  and removeAll :: "dw_env \<Rightarrow> string list \<Rightarrow> dw \<Rightarrow> dw" where
  "removePath E filePath s =
     (if is_loaded s filePath then forget E filePath s
      else removeAll E (subpaths filePath s) s)"
| "removeAll E [] s = s"
| "removeAll E (p # ps) s = removeAll E ps (removePath E p s)"
  by pat_completeness auto

text \<open>
  The recursion stops although the calls of the loop see the state the calls before them left: a call
  on a loaded path takes it out, and every path of the list is loaded when its turn comes. First
  what holds of a call that returns.
\<close>

lemma is_loaded_iff: "is_loaded s p \<longleftrightarrow> p \<in> set (map fst (loaded s))"
  by (auto simp: is_loaded_def map_of_eq_None_iff image_iff)

lemma forget_loaded [simp]: "loaded (forget E p s) = AList.delete p (loaded s)"
  by (simp add: forget_def call_client_def)

lemma length_delete_less: "(p, b) \<in> set xs \<Longrightarrow> length (AList.delete p xs) < length xs"
  by (induction xs) (auto simp: le_imp_less_Suc length_delete_le)

lemma remove_shrinks:
  "removePath_removeAll_dom (Inl (E, p, s)) \<Longrightarrow>
     length (loaded (removePath E p s)) \<le> length (loaded s) \<and>
     (is_loaded s p \<longrightarrow> length (loaded (removePath E p s)) < length (loaded s))"
  "removePath_removeAll_dom (Inr (E, ps, s)) \<Longrightarrow>
     length (loaded (removeAll E ps s)) \<le> length (loaded s)"
proof (induction rule: removePath_removeAll.pinduct)
  case (1 E p s)
  then show ?case
    by (auto simp: removePath.psimps length_delete_le is_loaded_iff intro: length_delete_less)
next
  case (3 E p ps s)
  then show ?case by (auto simp: removeAll.psimps)
qed (auto simp: removeAll.psimps)

text \<open>
  The measure: the loaded files, then whether the next path is a loaded one (and so will be taken
  out at once), then the length of the list.
\<close>

fun removal_rank :: "(dw_env \<times> string \<times> dw) + (dw_env \<times> string list \<times> dw) \<Rightarrow> nat" where
  "removal_rank (Inl (E, p, s)) = (if is_loaded s p then 0 else 2)"
| "removal_rank (Inr (E, [], s)) = 0"
| "removal_rank (Inr (E, p # ps, s)) = (if is_loaded s p then 1 else 3)"

fun removal_files :: "(dw_env \<times> string \<times> dw) + (dw_env \<times> string list \<times> dw) \<Rightarrow> nat" where
  "removal_files (Inl (E, p, s)) = length (loaded s)"
| "removal_files (Inr (E, ps, s)) = length (loaded s)"

fun removal_list :: "(dw_env \<times> string \<times> dw) + (dw_env \<times> string list \<times> dw) \<Rightarrow> nat" where
  "removal_list (Inl (E, p, s)) = 0"
| "removal_list (Inr (E, ps, s)) = length ps"

lemma subpaths_loaded: "p \<in> set (subpaths q s) \<Longrightarrow> is_loaded s p"
  by (auto simp: subpaths_def is_loaded_iff)

termination removePath
proof (relation "measures [removal_files, removal_rank, removal_list]")
  fix E p and s :: dw
  assume "\<not> is_loaded s p"
  then show "(Inr (E, subpaths p s, s), Inl (E, p, s)) \<in> measures [removal_files, removal_rank, removal_list]"
    using subpaths_loaded [of _ p s] by (cases "subpaths p s") auto
next
  fix E p ps and s :: dw
  show "(Inl (E, p, s), Inr (E, p # ps, s)) \<in> measures [removal_files, removal_rank, removal_list]"
    by auto
next
  fix E p ps and s :: dw
  assume "removePath_removeAll_dom (Inl (E, p, s))"
  note shrinks = remove_shrinks(1) [OF this]
  show "(Inr (E, ps, removePath E p s), Inr (E, p # ps, s))
      \<in> measures [removal_files, removal_rank, removal_list]"
  proof (cases "is_loaded s p")
    case False
    with shrinks show ?thesis by (cases ps) auto
  qed (use shrinks in auto)
qed simp

declare removePath.simps [simp del]

section \<open>The goroutine\<close>

definition processOp :: "dw_env \<Rightarrow> dirWatcherOp \<Rightarrow> dw \<Rightarrow> dw res" where
  "processOp E op s =
     (if op_typ op = DIRWATCHER_OP_CHANGE then
        (let explicit = (case map_of (loaded s) (op_path op) of None \<Rightarrow> False | Some b \<Rightarrow> b) in
         bind_res (doLoad E (op_path op) explicit True s) (\<lambda>(s, err). Inr s))
      else if op_typ op = DIRWATCHER_OP_REMOVE then Inr (removePath E (op_path op) s)
      else Inl (ExplicitPanic ''invalid loader op''))"

text \<open>
  \<open>processEvents\<close>: a tick is taken and the batch begins; each operation of it locks \<open>evMtx\<close> for itself,
  so calls of \<open>Load\<close> may come in between, and is a step of its own; then the operations are forgotten.
\<close>

definition beginBatch :: "dw \<Rightarrow> dw" where
  "beginBatch s = s\<lparr>tick := False, batch := Some (opList s)\<rparr>"

definition batchOp :: "dw_env \<Rightarrow> dw \<Rightarrow> dw res" where
  "batchOp E s =
     (case batch s of
        Some (op # ops) \<Rightarrow> processOp E op (s\<lparr>batch := Some ops\<rparr>)
      | _ \<Rightarrow> Inr s)"

definition endBatch :: "dw \<Rightarrow> dw" where
  "endBatch s = resetOps (s\<lparr>batch := None\<rparr>)"

fun processOps :: "dw_env \<Rightarrow> dirWatcherOp list \<Rightarrow> dw \<Rightarrow> dw res" where
  "processOps E [] s = Inr s"
| "processOps E (op # ops) s =
     bind_res (processOp E op (s\<lparr>batch := Some ops\<rparr>)) (processOps E ops)"

definition processEvents :: "dw_env \<Rightarrow> dw \<Rightarrow> dw res" where
  "processEvents E s =
     bind_res (processOps E (opList s) (beginBatch s)) (\<lambda>s. Inr (endBatch s))"

text \<open>
  \<open>Stop\<close> locks \<open>initMtx\<close> and keeps it while its send on \<open>quit\<close> waits for the goroutine, which receives
  only between two events; then it closes the watcher (which is not used before a new one replaces
  it) and unlocks.
\<close>

definition stopCalled :: "dw \<Rightarrow> dw" where
  "stopCalled s = (if \<not> started s then s else s\<lparr>initMtx := True\<rparr>)"

definition stopQuit :: "dw \<Rightarrow> dw" where
  "stopQuit s = s\<lparr>started := False, initMtx := False\<rparr>"

text \<open>
  The steps. An operation of a batch locks \<open>evMtx\<close>, and \<open>initMtx\<close> too when it is a change, since it
  loads; a \<open>Load\<close> called while \<open>Stop\<close> waits takes \<open>evMtx\<close> and waits with it.
\<close>

inductive dw_step :: "dw \<Rightarrow> dw \<Rightarrow> bool" where
  dw_load: "\<not> evMtx s \<Longrightarrow> \<not> initMtx s \<Longrightarrow> Load E p s = Inr (s', err) \<Longrightarrow> dw_step s s'"
| dw_load_waits: "\<not> evMtx s \<Longrightarrow> initMtx s \<Longrightarrow> dw_step s (s\<lparr>evMtx := True\<rparr>)"
| dw_load_resumes: "evMtx s \<Longrightarrow> \<not> initMtx s \<Longrightarrow> Load E p (s\<lparr>evMtx := False\<rparr>) = Inr (s', err) \<Longrightarrow> dw_step s s'"
| dw_event: "started s \<Longrightarrow> batch s = None \<Longrightarrow> dw_step s (registerFSEvent ev s)"
| dw_expire: "timer s \<Longrightarrow> dw_step s (s\<lparr>timer := False, tick := True\<rparr>)"
| dw_tick: "started s \<Longrightarrow> batch s = None \<Longrightarrow> tick s \<Longrightarrow> dw_step s (beginBatch s)"
| dw_op: "batch s = Some (op # ops) \<Longrightarrow> \<not> evMtx s \<Longrightarrow>
     (op_typ op = DIRWATCHER_OP_CHANGE \<longrightarrow> \<not> initMtx s) \<Longrightarrow> batchOp E s = Inr s' \<Longrightarrow> dw_step s s'"
| dw_end: "batch s = Some [] \<Longrightarrow> dw_step s (endBatch s)"
| dw_stop: "\<not> initMtx s \<Longrightarrow> dw_step s (stopCalled s)"
| dw_quit: "initMtx s \<Longrightarrow> batch s = None \<Longrightarrow> dw_step s (stopQuit s)"

inductive dw_reachable :: "dw \<Rightarrow> bool" where
  dw_new: "dw_reachable NewDirWatcher"
| dw_next: "dw_reachable s \<Longrightarrow> dw_step s s' \<Longrightarrow> dw_reachable s'"

inductive_simps dw_step_new: "dw_step NewDirWatcher s"
inductive_cases dw_stepE: "dw_step s s'"

end
