(* ===== verification/Dir_Watcher_Properties.thy ===== *)
theory Dir_Watcher_Properties
  imports Dir_Watcher
begin

text \<open>
  What the directory watcher does: which files a directory's loading gives to the client, which
  files a removal takes away, how changes are gathered, and that none is forgotten.
\<close>

section \<open>Loading a directory\<close>

text \<open>The files of a tree that are to be loaded, in the order of the listing, and its directories.\<close>

fun matching :: "(string \<Rightarrow> bool) \<Rightarrow> string \<Rightarrow> node \<Rightarrow> string list" where
  "matching f p (DirNode es) = concat (map (\<lambda>(n, nd).
     case nd of FileNode \<Rightarrow> if f n then [Join2 p n] else [] | _ \<Rightarrow> matching f (Join2 p n) nd) es)"
| "matching f p _ = []"

fun directories :: "string \<Rightarrow> node \<Rightarrow> string list" where
  "directories p (DirNode es) = p # concat (map (\<lambda>(n, nd). directories (Join2 p n) nd) es)"
| "directories p _ = []"

definition load_call :: "bool \<Rightarrow> string \<Rightarrow> watcher_call" where
  "load_call reloaded p = (if reloaded then LiveLoadFile p else LoadFile p)"

definition loads :: "bool \<Rightarrow> string list \<Rightarrow> string list \<Rightarrow> dw \<Rightarrow> dw" where
  "loads reloaded ds ps s =
     s\<lparr>watcher := map_option (\<lambda>ws. ws @ ds) (watcher s),
       loaded := fold (\<lambda>p. AList.update p False) ps (loaded s),
       clientCalls := clientCalls s @ map (load_call reloaded) ps\<rparr>"

lemma loads_Nil [simp]: "loads reloaded [] [] s = s"
  by (cases "watcher s") (auto simp: loads_def)

lemma loads_loads: "loads r ds' ps' (loads r ds ps s) = loads r (ds @ ds') (ps @ ps') s"
  by (cases "watcher s") (auto simp: loads_def)

lemma watcher_loads [simp]: "watcher (loads r ds ps s) = map_option (\<lambda>ws. ws @ ds) (watcher s)"
  by (simp add: loads_def)

lemma loadFile_loads: "fst (loadFile E p reloaded False s) = loads reloaded [] [p] s"
  by (cases "watcher s") (auto simp: loadFile_def call_client_def loads_def load_call_def Let_def)

lemma watch_loads: "watcher s \<noteq> None \<Longrightarrow> watch p s = Inr (loads r [p] [] s)"
  by (cases "watcher s") (auto simp: watch_def loads_def)

lemma loadDir_loads:
  "watcher s \<noteq> None \<Longrightarrow> is_dir nd \<Longrightarrow>
     loadDir E reloaded p nd s =
       Inr (loads reloaded (directories p nd) (matching (env_Match E) p nd) s,
         case nd of BadDirNode err \<Rightarrow> Some err | _ \<Rightarrow> None)"
  "watcher s \<noteq> None \<Longrightarrow>
     loadEntries E reloaded p es s =
       Inr (loads reloaded (tl (directories p (DirNode es))) (matching (env_Match E) p (DirNode es)) s)"
proof (induction E reloaded p nd s and E reloaded p es s rule: loadDir_loadEntries.induct)
  case (3 E reloaded p es s)
  then show ?case by (auto simp: watch_loads [of _ _ reloaded] loads_loads)
next
  case (5 E reloaded p n es s)
  then show ?case by (auto simp: loadFile_loads loads_loads)
qed (auto simp: loads_loads)

text \<open>
  C33. Loading a directory whose tree can be read hands to the client exactly the files of the tree
  whose names match the pattern, each by its full path, in the order of the directory listings and
  depth first; it watches exactly the readable directories of the tree; and it goes on whatever the
  client answers and whichever subdirectories cannot be read.
\<close>

theorem load_directory_spec:
  assumes "started s" "watcher s \<noteq> None" "env_Stat E p = Inr nd" "is_dir nd"
  shows "doLoad E p explicit reloaded s =
    Inr (s\<lparr>watcher := map_option (\<lambda>ws. ws @ directories p nd) (watcher s),
           loaded := fold (\<lambda>q. AList.update q False) (matching (env_Match E) p nd) (loaded s),
           clientCalls := clientCalls s @ map (load_call reloaded) (matching (env_Match E) p nd)\<rparr>,
      case nd of BadDirNode err \<Rightarrow> Some err | _ \<Rightarrow> None)"
  using assms loadDir_loads(1) [of s nd E reloaded p]
  by (simp add: doLoad_def startWatching_def loads_def)

definition demo_tree :: node where
  "demo_tree = DirNode [(''f1.js'', FileNode), (''f3.js.noload'', FileNode),
     (''subdir'', DirNode [(''f4.js'', FileNode)])]"

definition demo_fs :: dw_env where
  "demo_fs = \<lparr>env_Stat = (\<lambda>p. if p = ''/d'' then Inr demo_tree else Inl ''no such file''),
     env_Match = (\<lambda>n. take 3 (rev n) = ''sj.''), env_Client = (\<lambda>_ _. None), env_NewWatcher = True\<rparr>"

definition demo_dw :: dw where
  "demo_dw = NewDirWatcher\<lparr>watcher := Some [], started := True\<rparr>"

lemma demo_matching:
  "matching (env_Match demo_fs) ''/d'' demo_tree = [''/d/f1.js'', ''/d/subdir/f4.js'']"
  by (simp add: demo_tree_def demo_fs_def Join2_def Clean_def is_rooted_def path_of_def DOT_def DOTDOT_def)

theorem load_directory_spec_witness:
  "\<exists>s'. doLoad demo_fs ''/d'' True False demo_dw = Inr (s', None) \<and>
    clientCalls s' = [LoadFile ''/d/f1.js'', LoadFile ''/d/subdir/f4.js'']"
proof -
  have "started demo_dw" "watcher demo_dw \<noteq> None" "env_Stat demo_fs ''/d'' = Inr demo_tree"
    "is_dir demo_tree" "clientCalls demo_dw = []"
    by (simp_all add: demo_dw_def demo_fs_def demo_tree_def NewDirWatcher_def)
  with load_directory_spec [OF this(1-4), of True False] show ?thesis
    unfolding demo_matching by (simp add: load_call_def) (simp add: demo_tree_def)
qed

section \<open>Removing a path\<close>

lemma forget_simps [simp]:
  "clientCalls (forget E p s) = clientCalls s @ [LiveRemoveFile p]"
  "started (forget E p s) = started s" "watcher (forget E p s) = watcher s"
  "opsByPath (forget E p s) = opsByPath s" "opList (forget E p s) = opList s"
  "timer (forget E p s) = timer s" "tick (forget E p s) = tick s" "batch (forget E p s) = batch s"
  "initMtx (forget E p s) = initMtx s" "evMtx (forget E p s) = evMtx s"
  by (simp_all add: forget_def call_client_def)

lemma removeAll_forget:
  "distinct ps \<Longrightarrow> \<forall>p\<in>set ps. is_loaded s p \<Longrightarrow> removeAll E ps s = fold (forget E) ps s"
proof (induction ps arbitrary: s)
  case (Cons p ps)
  then have "removePath E p s = forget E p s" by (simp add: removePath.simps)
  moreover have "\<forall>q\<in>set ps. is_loaded (forget E p s) q"
    using Cons.prems by (auto simp: is_loaded_def delete_conv)
  ultimately show ?case using Cons by simp
qed simp

definition removed :: "string \<Rightarrow> dw \<Rightarrow> string list" where
  "removed p s = (if is_loaded s p then [p] else subpaths p s)"

lemma removePath_forget:
  assumes "distinct (map fst (loaded s))"
  shows "removePath E p s = fold (forget E) (removed p s) s"
proof -
  have "distinct (subpaths p s)" using assms by (simp add: subpaths_def)
  then show ?thesis
    using removeAll_forget [of "subpaths p s" s E] subpaths_loaded [of _ p s]
    by (auto simp: removed_def removePath.simps [of E p s])
qed

lemma fold_forget:
  "clientCalls (fold (forget E) ps s) = clientCalls s @ map LiveRemoveFile ps \<and>
   map_of (loaded (fold (forget E) ps s)) = (map_of (loaded s)) |` (- set ps) \<and>
   (distinct (map fst (loaded s)) \<longrightarrow> distinct (map fst (loaded (fold (forget E) ps s))))"
  by (induction ps arbitrary: s)
     (auto simp: delete_conv' distinct_delete restrict_map_def fun_eq_iff)

text \<open>
  C22. A removal terminates and is exact: a path that was loaded is reported to the client and
  forgotten; any other path counts as a directory, and the loaded paths below it, by \<open>IsSubpath\<close>, are
  reported and forgotten, each once, in the order of their names. The other files stay as they are.
\<close>

theorem remove_path_spec:
  assumes "distinct (map fst (loaded s))"
  shows "clientCalls (removePath E p s) = clientCalls s @ map LiveRemoveFile (removed p s) \<and>
    map_of (loaded (removePath E p s)) = (map_of (loaded s)) |` (- set (removed p s)) \<and>
    sorted (removed p s) \<and> distinct (removed p s) \<and>
    set (removed p s) = (if is_loaded s p then {p} else {q. is_loaded s q \<and> IsSubpath p q})"
proof -
  have "sorted (removed p s) \<and> distinct (removed p s)"
    using assms by (simp add: removed_def subpaths_def)
  moreover have "set (removed p s) = (if is_loaded s p then {p} else {q. is_loaded s q \<and> IsSubpath p q})"
    by (auto simp: removed_def subpaths_def is_loaded_iff)
  ultimately show ?thesis
    unfolding removePath_forget [OF assms] using fold_forget [of E "removed p s" s] by blast
qed

definition demo_dw2 :: dw where
  "demo_dw2 = demo_dw\<lparr>loaded := [(''/d/s/b'', False), (''/e'', True), (''/d/s/a'', False)]\<rparr>"

lemma plain_letters: "list_all plain [''d'', ''s'', ''a'', ''b'', ''e'']"
  by (simp add: plain_def DOT_def DOTDOT_def)

lemma demo_paths: "''/d/s'' = abs_path [''d'', ''s'']" "''/d/s/a'' = abs_path [''d'', ''s'', ''a'']"
  "''/d/s/b'' = abs_path [''d'', ''s'', ''b'']" "''/e'' = abs_path [''e'']"
  by (simp_all add: abs_path_def path_of_def)

lemma demo_subpaths: "IsSubpath ''/d/s'' ''/d/s/a''" "IsSubpath ''/d/s'' ''/d/s/b''" "\<not> IsSubpath ''/d/s'' ''/e''"
  unfolding demo_paths using plain_letters by (simp_all add: IsSubpath_abs_path)

theorem remove_path_spec_witness:
  "clientCalls (removePath demo_fs ''/d/s'' demo_dw2) =
     [LiveRemoveFile ''/d/s/a'', LiveRemoveFile ''/d/s/b'']"
proof -
  have l: "loaded demo_dw2 = [(''/d/s/b'', False), (''/e'', True), (''/d/s/a'', False)]"
    "clientCalls demo_dw2 = []"
    by (simp_all add: demo_dw2_def demo_dw_def NewDirWatcher_def)
  then have "removed ''/d/s'' demo_dw2 = [''/d/s/a'', ''/d/s/b'']"
    by (simp add: removed_def subpaths_def is_loaded_def demo_subpaths)
  with l remove_path_spec [of demo_dw2 demo_fs "''/d/s''"] show ?thesis by simp
qed

text \<open>
  C34. \<open>IsSubpath\<close> on absolute cleaned paths: it holds of a path and everything below it, as its comment
  says, and also of the path's own parent directory, whose relative path is \<open>..\<close> without a slash.
\<close>

theorem is_subpath_spec:
  assumes "list_all plain bs" "list_all plain ts"
  shows "IsSubpath (abs_path bs) (abs_path ts) \<longleftrightarrow>
    Sublist.prefix bs ts \<or> (bs \<noteq> [] \<and> ts = butlast bs)"
proof -
  have "(\<exists>e. bs = ts @ [e]) \<longleftrightarrow> bs \<noteq> [] \<and> ts = butlast bs"
    by (metis append_butlast_last_id butlast_snoc snoc_eq_iff_butlast)
  then show ?thesis using IsSubpath_abs_path [OF assms] by simp
qed

theorem is_subpath_spec_witness: "IsSubpath ''/d/s'' (abs_path [''d''])"
  unfolding demo_paths using is_subpath_spec [of "[''d'', ''s'']" "[''d'']"] plain_letters by simp

section \<open>Gathering changes\<close>

definition ops_ok :: "dw \<Rightarrow> bool" where
  "ops_ok s \<longleftrightarrow> distinct (map op_path (opList s)) \<and>
     (\<forall>p i. opsByPath s p = Some i \<longleftrightarrow> i < length (opList s) \<and> op_path (opList s ! i) = p) \<and>
     (\<forall>op\<in>set (opList s). op_typ op = DIRWATCHER_OP_CHANGE \<or> op_typ op = DIRWATCHER_OP_REMOVE)"

lemma ops_ok_reset [simp]: "ops_ok (resetOps s)"
  by (simp add: ops_ok_def resetOps_def)

lemma event_op_cases: "event_op ev = DIRWATCHER_OP_CHANGE \<or> event_op ev = DIRWATCHER_OP_REMOVE"
  by (simp add: event_op_def)

lemma map_op_path_update:
  "i < length ops \<Longrightarrow> map op_path (ops[i := (ops ! i)\<lparr>op_typ := t\<rparr>]) = map op_path ops"
  by (simp add: list_eq_iff_nth_eq nth_list_update)

lemma registerFSEvent_new:
  "opsByPath s (ev_name ev) = None \<Longrightarrow> registerFSEvent ev s =
     s\<lparr>opsByPath := (opsByPath s)(ev_name ev \<mapsto> length (opList s)),
       opList := opList s @ [\<lparr>op_typ = event_op ev, op_path = ev_name ev\<rparr>], timer := True\<rparr>"
  by (simp add: registerFSEvent_def)

lemma registerFSEvent_old:
  "opsByPath s (ev_name ev) = Some i \<Longrightarrow> registerFSEvent ev s =
     s\<lparr>opList := (opList s)[i := (opList s ! i)\<lparr>op_typ := event_op ev\<rparr>], timer := True\<rparr>"
  by (simp add: registerFSEvent_def)

lemma op_path_update:
  "j < length ops \<Longrightarrow> op_path (ops[i := (ops ! i)\<lparr>op_typ := t\<rparr>] ! j) = op_path (ops ! j)"
  by (cases "i = j") auto

lemma ops_ok_empty: "opList s = [] \<Longrightarrow> opsByPath s = Map.empty \<Longrightarrow> ops_ok s"
  by (simp add: ops_ok_def)

lemma registerFSEvent_ok:
  assumes "ops_ok s"
  shows "ops_ok (registerFSEvent ev s)"
proof (cases "opsByPath s (ev_name ev)")
  case None
  have at: "opsByPath s p = Some i \<longleftrightarrow> i < length (opList s) \<and> op_path (opList s ! i) = p" for p i
    using assms by (simp add: ops_ok_def)
  have new: "i < length (opList s) \<Longrightarrow> op_path (opList s ! i) \<noteq> ev_name ev" for i
    using at [of "ev_name ev" i] None by auto
  then have "ev_name ev \<notin> op_path ` set (opList s)"
    by (metis imageE in_set_conv_nth)
  with assms event_op_cases [of ev] new at show ?thesis
    by (auto simp: registerFSEvent_new [OF None] ops_ok_def nth_append less_Suc_eq)
next
  case (Some i)
  then have i: "i < length (opList s)" "op_path (opList s ! i) = ev_name ev"
    using assms by (auto simp: ops_ok_def)
  have "\<forall>op\<in>set ((opList s)[i := (opList s ! i)\<lparr>op_typ := event_op ev\<rparr>]).
      op_typ op = DIRWATCHER_OP_CHANGE \<or> op_typ op = DIRWATCHER_OP_REMOVE"
    using assms event_op_cases [of ev] set_update_subset_insert [of "opList s" i]
    by (fastforce simp: ops_ok_def)
  with i Some assms show ?thesis
    unfolding registerFSEvent_old [OF Some] ops_ok_def
    by (simp add: map_op_path_update op_path_update cong: conj_cong)
qed

text \<open>The pending operations after some events: the paths in the order of their first event.\<close>

definition first_order :: "'a list \<Rightarrow> 'a list" where
  "first_order xs = rev (remdups (rev xs))"

definition last_op :: "fs_event list \<Rightarrow> string \<Rightarrow> nat" where
  "last_op es p = event_op (last (filter (\<lambda>ev. ev_name ev = p) es))"

definition pending_ops :: "fs_event list \<Rightarrow> dirWatcherOp list" where
  "pending_ops es = map (\<lambda>p. \<lparr>op_typ = last_op es p, op_path = p\<rparr>) (first_order (map ev_name es))"

lemma first_order_snoc:
  "first_order (xs @ [x]) = (if x \<in> set xs then first_order xs else first_order xs @ [x])"
  by (simp add: first_order_def)

lemma first_order_simps [simp]:
  "set (first_order xs) = set xs" "distinct (first_order xs)" "first_order [] = []"
  by (simp_all add: first_order_def)

lemma last_op_snoc: "last_op (es @ [ev]) p = (if ev_name ev = p then event_op ev else last_op es p)"
  by (simp add: last_op_def)

lemma map_update_distinct:
  "distinct xs \<Longrightarrow> i < length xs \<Longrightarrow> (map f xs)[i := y] = map (\<lambda>x. if x = xs ! i then y else f x) xs"
  by (auto simp: list_eq_iff_nth_eq nth_list_update nth_eq_iff_index_eq)

text \<open>
  C23. Changes are gathered without loss: after any sequence of events the pending operations are one
  for each path that had an event, in the order of the first events, and each is a removal exactly
  when the last event of its path was one.
\<close>

theorem events_coalesce:
  assumes "opList s = []" "opsByPath s = Map.empty"
  shows "opList (fold registerFSEvent es s) = pending_ops es \<and> (es \<noteq> [] \<longrightarrow> timer (fold registerFSEvent es s))"
proof -
  have ok: "ops_ok (fold registerFSEvent es s)" for es
    by (rule fold_preserves) (simp_all add: ops_ok_empty assms registerFSEvent_ok)
  have "opList (fold registerFSEvent es s) = pending_ops es"
  proof (induction es rule: rev_induct)
    case Nil
    then show ?case using assms by (simp add: pending_ops_def)
  next
    case (snoc ev es)
    let ?s = "fold registerFSEvent es s" and ?ps = "first_order (map ev_name es)"
    have at: "opsByPath ?s p = Some i \<longleftrightarrow> i < length ?ps \<and> ?ps ! i = p" for p i
      using ok [of es] snoc by (auto simp: ops_ok_def pending_ops_def)
    show ?case
    proof (cases "opsByPath ?s (ev_name ev)")
      case None
      then have "ev_name ev \<notin> set ?ps" using at by (metis in_set_conv_nth option.distinct(1))
      then have new: "ev_name ev \<notin> ev_name ` set es" by simp
      have "opList (registerFSEvent ev ?s) = pending_ops es @ [\<lparr>op_typ = event_op ev, op_path = ev_name ev\<rparr>]"
        using snoc by (simp add: registerFSEvent_new [OF None])
      also have "pending_ops es = map (\<lambda>p. \<lparr>op_typ = last_op (es @ [ev]) p, op_path = p\<rparr>) ?ps"
        unfolding pending_ops_def using new by (intro map_cong) (auto simp: last_op_snoc)
      finally show ?thesis
        using new by (simp add: pending_ops_def first_order_snoc last_op_snoc)
    next
      case (Some i)
      then have i: "i < length ?ps" "?ps ! i = ev_name ev" using at by auto
      then have "ev_name ev \<in> set (map ev_name es)" using nth_mem [OF i(1)] by simp
      then have fo: "first_order (map ev_name (es @ [ev])) = ?ps" by (simp add: first_order_snoc)
      have "opList (registerFSEvent ev ?s) = (pending_ops es)[i := \<lparr>op_typ = event_op ev, op_path = ev_name ev\<rparr>]"
        using snoc i by (simp add: registerFSEvent_old [OF Some] pending_ops_def)
      also have "\<dots> = map (\<lambda>p. if p = ?ps ! i then \<lparr>op_typ = event_op ev, op_path = ev_name ev\<rparr>
          else \<lparr>op_typ = last_op es p, op_path = p\<rparr>) ?ps"
        unfolding pending_ops_def using i by (intro map_update_distinct) simp_all
      also have "\<dots> = pending_ops (es @ [ev])"
        unfolding pending_ops_def fo i(2) by (intro map_cong) (auto simp: last_op_snoc)
      finally show ?thesis by simp
    qed
  qed
  moreover have "timer (fold registerFSEvent es s)" if "es \<noteq> []"
    using that by (induction es rule: rev_induct) (auto simp: registerFSEvent_def Let_def)
  ultimately show ?thesis by blast
qed

theorem events_coalesce_witness:
  "opList (fold registerFSEvent
     [\<lparr>ev_name = ''/d/a'', ev_op = {FsCreate}\<rparr>, \<lparr>ev_name = ''/d/b'', ev_op = {FsWrite}\<rparr>,
      \<lparr>ev_name = ''/d/a'', ev_op = {FsRemove}\<rparr>] demo_dw) =
   [\<lparr>op_typ = DIRWATCHER_OP_REMOVE, op_path = ''/d/a''\<rparr>, \<lparr>op_typ = DIRWATCHER_OP_CHANGE, op_path = ''/d/b''\<rparr>]"
proof -
  have "opList demo_dw = []" "opsByPath demo_dw = Map.empty"
    by (simp_all add: demo_dw_def NewDirWatcher_def)
  note ec = conjunct1 [OF events_coalesce [OF this]]
  show ?thesis
    unfolding ec by (simp add: pending_ops_def first_order_def last_op_def event_op_def)
qed

section \<open>No change is forgotten\<close>

text \<open>What loading and removing keep: the gathered operations, the timer and the batch.\<close>

definition kept :: "dw \<Rightarrow> dw \<Rightarrow> bool" where
  "kept s s' \<longleftrightarrow> opsByPath s' = opsByPath s \<and> opList s' = opList s \<and> timer s' = timer s \<and>
     tick s' = tick s \<and> batch s' = batch s \<and> started s' = started s \<and>
     initMtx s' = initMtx s \<and> evMtx s' = evMtx s \<and>
     (watcher s \<noteq> None \<longrightarrow> watcher s' \<noteq> None) \<and>
     (distinct (map fst (loaded s)) \<longrightarrow> distinct (map fst (loaded s')))"

lemma kept_refl [simp]: "kept s s"
  by (simp add: kept_def)

lemma kept_trans: "kept s1 s2 \<Longrightarrow> kept s2 s3 \<Longrightarrow> kept s1 s3"
  by (simp add: kept_def)

lemma kept_loadFile: "kept s (fst (loadFile E p r e s))"
  by (simp add: kept_def loadFile_def call_client_def Let_def distinct_update)

lemma kept_watch: "watch p s = Inr s' \<Longrightarrow> kept s s'"
  by (auto simp: kept_def watch_def split: option.splits)

lemma kept_loadDir:
  "loadDir E r p nd s = Inr (s', err) \<Longrightarrow> kept s s'"
  "loadEntries E r p es s = Inr s' \<Longrightarrow> kept s s'"
proof (induction E r p nd s and E r p es s arbitrary: s' err and s' rule: loadDir_loadEntries.induct)
  case (3 E r p es s)
  then show ?case by (auto dest!: kept_watch intro: kept_trans)
next
  case (5 E r p n es s)
  from 5(1) [of s'] 5(2) have
    "kept (if env_Match E n then fst (loadFile E (Join2 p n) r False s) else s) s'" by simp
  then show ?case using kept_loadFile [of s E "Join2 p n" r False]
    by (auto split: if_splits intro: kept_trans)
qed (auto, (meson kept_trans)+)

lemma kept_forget: "kept s (forget E p s)"
  by (simp add: kept_def distinct_delete)

lemma kept_remove:
  "kept s (removePath E p s)" "kept s (removeAll E ps s)"
proof (induction E p s and E ps s rule: removePath_removeAll.induct)
  case (1 E p s)
  then show ?case using kept_forget by (simp add: removePath.simps [of E p s])
next
  case (3 E p ps s)
  then show ?case by (auto intro: kept_trans)
qed simp

lemma kept_doLoad:
  assumes "started s" "doLoad E p e r s = Inr (s', err)"
  shows "kept s s'"
proof -
  have st: "startWatching E s = s" using assms(1) by (simp add: startWatching_def)
  show ?thesis
  proof (cases "env_Stat E p")
    case (Inr nd)
    with assms(2) st show ?thesis
      using kept_loadFile [of _ E p r e]
      by (auto simp: doLoad_def split: if_splits dest!: kept_loadDir(1) kept_watch)
         (metis fst_conv kept_trans)+
  qed (use assms(2) st in \<open>auto simp: doLoad_def\<close>)
qed

lemma kept_processOp: "started s \<Longrightarrow> processOp E op s = Inr s' \<Longrightarrow> kept s s'"
  by (auto simp: processOp_def split: if_splits intro: kept_doLoad kept_remove)

definition dw_inv :: "dw \<Rightarrow> bool" where
  "dw_inv s \<longleftrightarrow> distinct (map fst (loaded s)) \<and>
     (started s \<longrightarrow> ops_ok s \<and> watcher s \<noteq> None \<and>
       (opList s \<noteq> [] \<and> batch s = None \<longrightarrow> timer s \<or> tick s)) \<and>
     (\<forall>ops. batch s = Some ops \<longrightarrow> started s \<and> (\<exists>before. opList s = before @ ops)) \<and>
     (initMtx s \<longrightarrow> started s)"

lemma dw_inv_kept: "dw_inv s \<Longrightarrow> kept s s' \<Longrightarrow> dw_inv s'"
  by (auto simp: dw_inv_def kept_def ops_ok_def)

lemma dw_inv_Load:
  assumes "dw_inv s" "doLoad E p e r s = Inr (s', err)"
  shows "dw_inv s'"
proof (cases "started s")
  case True
  with assms show ?thesis by (blast intro: dw_inv_kept kept_doLoad)
next
  case False
  let ?s = "startWatching E s"
  have b: "batch s = None" using assms(1) False by (cases "batch s") (auto simp: dw_inv_def)
  with False assms(1) have inv: "dw_inv ?s"
    by (auto simp: dw_inv_def startWatching_def ops_ok_def resetOps_def)
  have idem: "doLoad E p e r ?s = doLoad E p e r s" if "started ?s"
    using that by (simp add: doLoad_def startWatching_def [of E ?s])
  show ?thesis
  proof (cases "started ?s")
    case True
    with assms(2) inv idem show ?thesis by (metis dw_inv_kept kept_doLoad)
  next
    case no: False
    then have "watcher ?s = None" "\<not> started ?s"
      using False by (auto simp: startWatching_def resetOps_def split: if_splits)
    then have w: "watch q ?s = Inl NilDereference" for q by (simp add: watch_def)
    have "s' = ?s \<or> s' = fst (loadFile E p r e ?s)"
    proof (cases "env_Stat E p")
      case (Inr nd)
      with assms(2) w show ?thesis
        by (cases nd) (auto simp: doLoad_def Let_def split: if_splits dest: arg_cong [of _ _ fst])
    qed (use assms(2) in \<open>auto simp: doLoad_def\<close>)
    with inv kept_loadFile [of ?s E p r e] show ?thesis by (auto intro: dw_inv_kept)
  qed
qed

lemma dw_inv_step: "dw_step s s' \<Longrightarrow> dw_inv s \<Longrightarrow> dw_inv s'"
proof (induction rule: dw_step.induct)
  case (dw_load s E p s' err)
  then show ?case by (auto simp: Load_def intro: dw_inv_Load)
next
  case (dw_load_resumes s E p s' err)
  then have "dw_inv (s\<lparr>evMtx := False\<rparr>)" by (simp add: dw_inv_def ops_ok_def)
  with dw_load_resumes(3) show ?case by (auto simp: Load_def intro: dw_inv_Load)
next
  case (dw_event s ev)
  have "timer (registerFSEvent ev s)" "batch (registerFSEvent ev s) = batch s"
    "loaded (registerFSEvent ev s) = loaded s" "watcher (registerFSEvent ev s) = watcher s"
    "initMtx (registerFSEvent ev s) = initMtx s" "started (registerFSEvent ev s) = started s"
    by (simp_all add: registerFSEvent_def Let_def split: option.split)
  with dw_event registerFSEvent_ok [of s ev] show ?case by (simp add: dw_inv_def)
next
  case (dw_op s op ops E s')
  let ?s = "s\<lparr>batch := Some ops\<rparr>"
  from dw_op obtain before where "opList s = (before @ [op]) @ ops" "started s"
    by (auto simp: dw_inv_def)
  with dw_op(5) have "dw_inv ?s" unfolding dw_inv_def ops_ok_def by auto
  moreover have "processOp E op ?s = Inr s'" using dw_op(1,4) by (simp add: batchOp_def)
  ultimately show ?case
    using dw_inv_kept [OF _ kept_processOp [of ?s E op s']] \<open>started s\<close> by simp
qed (auto simp: dw_inv_def ops_ok_def beginBatch_def endBatch_def stopCalled_def stopQuit_def resetOps_def)

lemma dw_reachable_inv: "dw_reachable s \<Longrightarrow> dw_inv s"
  by (induction rule: dw_reachable.induct)
     (auto simp: dw_inv_step, simp add: dw_inv_def NewDirWatcher_def)

lemma doLoad_returns:
  assumes "started s" "watcher s \<noteq> None"
  shows "\<exists>s' err. doLoad E p e r s = Inr (s', err)"
proof (cases "env_Stat E p")
  case (Inr nd)
  with assms show ?thesis
    using loadDir_loads(1) [of s nd E r p]
    by (cases "watcher s") (auto simp: doLoad_def startWatching_def watch_def)
qed (use assms in \<open>simp add: doLoad_def startWatching_def\<close>)

lemma processOp_returns:
  assumes "started s" "watcher s \<noteq> None" "op_typ op = DIRWATCHER_OP_CHANGE \<or> op_typ op = DIRWATCHER_OP_REMOVE"
  shows "\<exists>s'. processOp E op s = Inr s'"
  using assms doLoad_returns [OF assms(1,2)] by (fastforce simp: processOp_def)

text \<open>Nothing ends the work on a batch: its steps, one after the other, are \<open>processOps\<close>.\<close>

lemma processOps_steps:
  assumes "dw_inv s" "batch s = Some ops" "\<not> initMtx s" "\<not> evMtx s"
  shows "\<exists>s'. processOps E ops s = Inr s' \<and> dw_step\<^sup>*\<^sup>* s s' \<and> batch s' = Some [] \<and> kept (s\<lparr>batch := Some []\<rparr>) s'"
  using assms
proof (induction ops arbitrary: s)
  case Nil
  then show ?case by (simp add: kept_def)
next
  case (Cons op ops)
  let ?s = "s\<lparr>batch := Some ops\<rparr>"
  from Cons.prems obtain before where s: "opList s = before @ op # ops" "started s" "watcher s \<noteq> None" "ops_ok s"
    by (auto simp: dw_inv_def)
  then have "op_typ op = DIRWATCHER_OP_CHANGE \<or> op_typ op = DIRWATCHER_OP_REMOVE"
    by (auto simp: ops_ok_def)
  then obtain t where t: "processOp E op ?s = Inr t"
    using processOp_returns [of ?s op E] s by auto
  then have st: "dw_step s t" using Cons.prems(2-4) by (intro dw_op) (auto simp: batchOp_def)
  have k: "kept ?s t" using kept_processOp [OF _ t] s(2) by simp
  then obtain s' where s': "processOps E ops t = Inr s'" "dw_step\<^sup>*\<^sup>* t s'" "batch s' = Some []"
    "kept (t\<lparr>batch := Some []\<rparr>) s'"
    using Cons.IH [of t] dw_inv_step [OF st Cons.prems(1)] Cons.prems(3,4) by (auto simp: kept_def)
  moreover have "kept (s\<lparr>batch := Some []\<rparr>) (t\<lparr>batch := Some []\<rparr>)" using k by (simp add: kept_def)
  ultimately show ?case
    using t st by (auto intro: kept_trans converse_rtranclp_into_rtranclp)
qed

lemma processEvents_steps:
  assumes "dw_inv s" "started s" "batch s = None" "tick s" "\<not> initMtx s" "\<not> evMtx s"
  shows "\<exists>s'. processEvents E s = Inr s' \<and> dw_step\<^sup>*\<^sup>* s s' \<and> started s' \<and> \<not> tick s' \<and> opList s' = []"
proof -
  have st: "dw_step s (beginBatch s)" using assms(2-4) by (intro dw_tick)
  obtain t where t: "processOps E (opList s) (beginBatch s) = Inr t" "dw_step\<^sup>*\<^sup>* (beginBatch s) t"
    "batch t = Some []" "kept (beginBatch s\<lparr>batch := Some []\<rparr>) t"
    using processOps_steps [OF dw_inv_step [OF st assms(1)]] assms(5,6) by (auto simp: beginBatch_def)
  moreover have "dw_step t (endBatch t)" using t(3) by (rule dw_end)
  ultimately have "dw_step\<^sup>*\<^sup>* s (endBatch t)"
    using st by (meson converse_rtranclp_into_rtranclp rtranclp.rtrancl_into_rtrancl)
  with t assms(2) show ?thesis
    by (auto simp: processEvents_def endBatch_def resetOps_def kept_def beginBatch_def)
qed

text \<open>
  A \<open>Stop\<close> that comes while the goroutine has a change left to work on: the change needs the lock that
  \<open>Stop\<close> holds, and \<open>Stop\<close> waits for the goroutine.
\<close>

definition stuck :: "dw \<Rightarrow> bool" where
  "stuck s \<longleftrightarrow> initMtx s \<and> (\<exists>op ops. batch s = Some (op # ops) \<and> op_typ op = DIRWATCHER_OP_CHANGE)"

lemma stuck_step: "dw_step s s' \<Longrightarrow> stuck s \<Longrightarrow> stuck s' \<and> batch s' = batch s"
  by (erule dw_stepE) (auto simp: stuck_def)

lemma stuck_steps: "dw_step\<^sup>*\<^sup>* s s' \<Longrightarrow> stuck s \<Longrightarrow> stuck s' \<and> batch s' = batch s"
  by (induction rule: rtranclp_induct) (auto dest: stuck_step)

text \<open>
  C9. No gathered change is forgotten: in every reachable state in which the goroutine waits for events
  and operations are gathered, the timer runs or a tick waits. Once the tick is there \<open>processEvents\<close>
  works through all of them, in order, whatever the file system and the client answer, unless a
  \<open>Stop\<close> or a \<open>Load\<close> is waiting: no panic ends it, it is a run of the goroutine's steps, and nothing
  is left to do afterwards. But a \<open>Stop\<close> called while a change of the batch is still to be loaded
  never returns, and the batch is never finished.
\<close>

theorem changes_get_processed:
  assumes "dw_reachable s" "started s"
  shows "(batch s = None \<and> opList s \<noteq> [] \<longrightarrow>
      (timer s \<or> tick s) \<and>
      (\<not> initMtx s \<and> \<not> evMtx s \<longrightarrow>
        (\<exists>s'. processEvents E (if tick s then s else s\<lparr>timer := False, tick := True\<rparr>) = Inr s' \<and>
          dw_step\<^sup>*\<^sup>* s s' \<and> started s' \<and> \<not> tick s' \<and> opList s' = []))) \<and>
    (\<forall>op ops s'. initMtx s \<and> batch s = Some (op # ops) \<and> op_typ op = DIRWATCHER_OP_CHANGE \<and>
      dw_step\<^sup>*\<^sup>* s s' \<longrightarrow> initMtx s' \<and> started s' \<and> batch s' = Some (op # ops))"
proof -
  have inv: "dw_inv s" using assms(1) by (rule dw_reachable_inv)
  let ?s = "s\<lparr>timer := False, tick := True\<rparr>"
  have t: "timer s \<or> tick s" if "batch s = None" "opList s \<noteq> []"
    using inv assms that by (simp add: dw_inv_def)
  have "\<exists>s'. processEvents E (if tick s then s else ?s) = Inr s' \<and>
      dw_step\<^sup>*\<^sup>* s s' \<and> started s' \<and> \<not> tick s' \<and> opList s' = []"
    if b: "batch s = None" "opList s \<noteq> []" "\<not> initMtx s" "\<not> evMtx s"
  proof (cases "tick s")
    case False
    with t b have st: "dw_step s ?s" by (intro dw_expire) simp
    with inv have "dw_inv ?s" by (rule dw_inv_step [rotated])
    from processEvents_steps [OF this, of E] assms b st False show ?thesis
      by (auto intro: converse_rtranclp_into_rtranclp)
  qed (use processEvents_steps [of s E] inv assms b in auto)
  moreover have "initMtx s' \<and> started s' \<and> batch s' = Some (op # ops)"
    if "initMtx s" "batch s = Some (op # ops)" "op_typ op = DIRWATCHER_OP_CHANGE" "dw_step\<^sup>*\<^sup>* s s'" for op ops s'
  proof -
    have "stuck s" using that by (auto simp: stuck_def)
    from stuck_steps [OF that(4) this] that(2) have "initMtx s'" "batch s' = Some (op # ops)"
      by (auto simp: stuck_def)
    moreover from that(4) inv have "dw_inv s'"
      by (induction rule: rtranclp_induct) (auto intro: dw_inv_step)
    ultimately show ?thesis by (simp add: dw_inv_def)
  qed
  ultimately show ?thesis using t by blast
qed

lemma demo_watch_start: "startWatching demo_fs NewDirWatcher = demo_dw"
  by (simp add: startWatching_def demo_fs_def demo_dw_def NewDirWatcher_def resetOps_def)

definition demo_gone :: fs_event where
  "demo_gone = \<lparr>ev_name = ''/d/f1.js'', ev_op = {FsRemove}\<rparr>"

definition demo_dw3 :: dw where
  "demo_dw3 = registerFSEvent demo_gone
     (loads False (directories ''/d'' demo_tree) (matching (env_Match demo_fs) ''/d'' demo_tree) demo_dw)"

lemma demo_dw3_reachable: "dw_reachable demo_dw3"
proof -
  let ?s = "loads False (directories ''/d'' demo_tree) (matching (env_Match demo_fs) ''/d'' demo_tree) demo_dw"
  have d: "started demo_dw" "watcher demo_dw \<noteq> None" "env_Stat demo_fs ''/d'' = Inr demo_tree"
    "is_dir demo_tree"
    by (simp_all add: demo_dw_def demo_fs_def demo_tree_def NewDirWatcher_def)
  have "doLoad demo_fs ''/d'' True False NewDirWatcher = doLoad demo_fs ''/d'' True False demo_dw"
    using d(1) by (simp add: doLoad_def demo_watch_start startWatching_def [of demo_fs demo_dw])
  also obtain err where "\<dots> = Inr (?s, err)"
    using load_directory_spec [OF d, of True False] by (simp add: loads_def)
  finally have "dw_step NewDirWatcher ?s"
    unfolding Load_def [symmetric] by (rule dw_load [rotated 2]) (simp_all add: NewDirWatcher_def)
  then have "dw_reachable ?s" by (rule dw_next [OF dw_new])
  then show ?thesis unfolding demo_dw3_def
    by (rule dw_next) (rule dw_event, simp_all add: loads_def demo_dw_def NewDirWatcher_def)
qed

text \<open>The file has changed instead, and \<open>Stop\<close> is called in the batch.\<close>

definition demo_dw4 :: dw where
  "demo_dw4 = stopCalled (beginBatch (registerFSEvent \<lparr>ev_name = ''/d/f1.js'', ev_op = {FsWrite}\<rparr> demo_dw3
     \<lparr>timer := False, tick := True\<rparr>))"

lemma demo_dw4_reachable: "dw_reachable demo_dw4"
proof -
  let ?ev = "\<lparr>ev_name = ''/d/f1.js'', ev_op = {FsWrite}\<rparr>"
  let ?s1 = "registerFSEvent ?ev demo_dw3" and ?s2 = "registerFSEvent ?ev demo_dw3\<lparr>timer := False, tick := True\<rparr>"
  have f: "started demo_dw3" "batch demo_dw3 = None" "\<not> initMtx demo_dw3"
    by (simp_all add: demo_dw3_def registerFSEvent_def loads_def demo_dw_def NewDirWatcher_def Let_def split: option.split)
  have s1: "started ?s1" "batch ?s1 = None" "\<not> initMtx ?s1" "timer ?s1"
    using f by (simp_all add: registerFSEvent_def Let_def split: option.split)
  have "dw_reachable ?s1" by (rule dw_next [OF demo_dw3_reachable dw_event]) (rule f)+
  then have "dw_reachable ?s2" by (rule dw_next) (rule dw_expire, rule s1)
  then have "dw_reachable (beginBatch ?s2)" by (rule dw_next) (rule dw_tick, use s1 in simp_all)
  then show ?thesis
    unfolding demo_dw4_def by (rule dw_next) (rule dw_stop, use s1 in \<open>simp add: beginBatch_def\<close>)
qed

theorem changes_get_processed_witness:
  "opList demo_dw3 = [\<lparr>op_typ = DIRWATCHER_OP_REMOVE, op_path = ''/d/f1.js''\<rparr>] \<and>
    (\<exists>s'. dw_step\<^sup>*\<^sup>* demo_dw3 s' \<and> opList s' = []) \<and>
    {s'. dw_step\<^sup>*\<^sup>* demo_dw4 s'} \<subseteq> {s'. initMtx s' \<and> batch s' \<noteq> None}"
proof -
  have s: "started demo_dw3" "batch demo_dw3 = None" "\<not> initMtx demo_dw3" "\<not> evMtx demo_dw3"
    "opList demo_dw3 = [\<lparr>op_typ = DIRWATCHER_OP_REMOVE, op_path = ''/d/f1.js''\<rparr>]"
    "opsByPath demo_dw3 ''/d/f1.js'' = Some 0"
    by (simp_all add: demo_dw3_def demo_gone_def registerFSEvent_def event_op_def loads_def demo_dw_def NewDirWatcher_def)
  have "\<exists>s'. dw_step\<^sup>*\<^sup>* demo_dw3 s' \<and> opList s' = []"
    using conjunct1 [OF changes_get_processed [OF demo_dw3_reachable s(1), of demo_fs]] s(2-5) by auto
  moreover have "initMtx s' \<and> batch s' \<noteq> None" if run: "dw_step\<^sup>*\<^sup>* demo_dw4 s'" for s'
  proof -
    let ?op = "\<lparr>op_typ = DIRWATCHER_OP_CHANGE, op_path = ''/d/f1.js''\<rparr>"
    have d: "started demo_dw4" "initMtx demo_dw4" "batch demo_dw4 = Some [?op]"
      using s by (simp_all add: demo_dw4_def stopCalled_def beginBatch_def registerFSEvent_def event_op_def)
    have "initMtx s' \<and> started s' \<and> batch s' = Some [?op]"
      using conjunct2 [OF changes_get_processed [OF demo_dw4_reachable d(1), of demo_fs],
          rule_format, of ?op "[]" s'] d run by simp
    then show ?thesis by simp
  qed
  ultimately show ?thesis using s(5) by blast
qed

end
