(* ===== verification/Deferred_List.thy ===== *)
theory Deferred_List
  imports Prelude
begin

text \<open>
  \<open>DeferredList\<close> of util.go: thunks collected until \<open>Ready\<close> and run then, in order; from then on a
  thunk goes straight to the executor. \<open>fns\<close> is a slice that \<open>Ready\<close> replaces by nil, so it is an
  optional list. A thunk is a value of the type \<open>'t\<close>: what it does is up to its owner (the driver
  runs thunks in Driver_Ops), so an operation returns the thunks to be run. The executor is only
  ever applied to the thunk at hand; the record keeps whether there is one.
\<close>

record 't DeferredList =
  fns :: "'t list option"
  executor :: bool

datatype 't dispatch = Deferred | ToExecutor 't | RunNow 't

definition NewDeferredList :: "bool \<Rightarrow> 't DeferredList" where
  "NewDeferredList ex = \<lparr>fns = Some [], executor = ex\<rparr>"

definition MaybeDefer :: "'t \<Rightarrow> 't DeferredList \<Rightarrow> 't DeferredList \<times> 't dispatch" where
  "MaybeDefer thunk dl =
     (case fns dl of
        Some fs \<Rightarrow> (dl\<lparr>fns := Some (fs @ [thunk])\<rparr>, Deferred)
      | None \<Rightarrow> (if executor dl then (dl, ToExecutor thunk) else (dl, RunNow thunk)))"

definition Ready :: "'t DeferredList \<Rightarrow> 't DeferredList \<times> 't list" where
  "Ready dl = (dl\<lparr>fns := None\<rparr>, (case fns dl of None \<Rightarrow> [] | Some fs \<Rightarrow> fs))"

section \<open>Any interleaving of its calls\<close>

text \<open>
  Both operations hold the mutex while they touch \<open>fns\<close>, so a concurrent use is a sequence of
  these two events. \<open>handed\<close> collects the thunks handed over to be run, in order.
\<close>

datatype 't dl_event = DeferEvent 't | ReadyEvent

fun dispatched :: "'t dispatch \<Rightarrow> 't list" where
  "dispatched Deferred = []"
| "dispatched (ToExecutor t) = [t]"
| "dispatched (RunNow t) = [t]"

fun dl_run :: "'t dl_event list \<Rightarrow> 't DeferredList \<Rightarrow> 't DeferredList \<times> 't list" where
  "dl_run [] dl = (dl, [])"
| "dl_run (DeferEvent t # es) dl =
     (let (dl1, r) = MaybeDefer t dl; (dl2, handed) = dl_run es dl1 in (dl2, dispatched r @ handed))"
| "dl_run (ReadyEvent # es) dl =
     (let (dl1, ts) = Ready dl; (dl2, handed) = dl_run es dl1 in (dl2, ts @ handed))"

fun submitted :: "'t dl_event list \<Rightarrow> 't list" where
  "submitted [] = []"
| "submitted (DeferEvent t # es) = t # submitted es"
| "submitted (ReadyEvent # es) = submitted es"

definition pending :: "'t DeferredList \<Rightarrow> 't list" where
  "pending dl = (case fns dl of None \<Rightarrow> [] | Some fs \<Rightarrow> fs)"

lemma pending_simps [simp]:
  "pending (NewDeferredList ex) = []"
  "pending (dl\<lparr>fns := None\<rparr>) = []"
  "pending (dl\<lparr>fns := Some fs\<rparr>) = fs"
  by (simp_all add: pending_def NewDeferredList_def)

lemma MaybeDefer_pending:
  "MaybeDefer t dl = (dl', r) \<Longrightarrow> dispatched r @ pending dl' = (if fns dl = None then [t] else pending dl @ [t])"
  by (auto simp: MaybeDefer_def pending_def split: option.splits if_splits)

lemma MaybeDefer_None: "MaybeDefer t dl = (dl', r) \<Longrightarrow> fns dl' = None \<longleftrightarrow> fns dl = None"
  by (auto simp: MaybeDefer_def split: option.splits if_splits)

lemma fns_None_idem: "fns dl = None \<Longrightarrow> dl\<lparr>fns := None\<rparr> = dl"
  by (cases dl) simp

lemma dl_run_None:
  "fns dl = None \<Longrightarrow> dl_run es dl = (dl, submitted es)"
  by (induction es rule: submitted.induct)
     (auto simp: MaybeDefer_def Ready_def fns_None_idem split: if_splits)

text \<open>Before the first \<open>Ready\<close> nothing is handed over, and the thunks wait in order.\<close>

lemma dl_run_waiting:
  assumes "fns dl = Some fs" and "ReadyEvent \<notin> set es"
  shows "dl_run es dl = (dl\<lparr>fns := Some (fs @ submitted es)\<rparr>, [])"
  using assms
  by (induction es arbitrary: dl fs rule: submitted.induct) (auto simp: MaybeDefer_def)

lemma dl_run_conserves:
  "dl_run es dl = (dl', handed) \<Longrightarrow> handed @ pending dl' = pending dl @ submitted es"
proof (induction es arbitrary: dl handed rule: submitted.induct)
  case (2 t es)
  show ?case
  proof (cases "fns dl")
    case None
    then show ?thesis using "2.prems" by (simp add: dl_run_None pending_def del: dl_run.simps)
  next
    case (Some fs)
    with 2 show ?thesis by (auto simp: MaybeDefer_def pending_def split: prod.splits)
  qed
next
  case (3 es)
  then show ?case
    by (auto simp: Ready_def dl_run_None) (auto simp: pending_def)
qed simp

lemma dl_run_ready:
  "ReadyEvent \<in> set es \<Longrightarrow> dl_run es dl = (dl', handed) \<Longrightarrow> fns dl' = None"
proof (induction es arbitrary: dl handed rule: submitted.induct)
  case (2 t es)
  then show ?case by (auto split: prod.splits)
next
  case (3 es)
  then show ?case by (auto simp: Ready_def dl_run_None)
qed simp

end
