(* ===== verification/Driver_Model.thy ===== *)
theory Driver_Model
  imports Mqtt_Interface Deferred_List "HOL-Library.Word"
begin

text \<open>
  The data of driver.go: controls, devices, the topic cache and the \<open>Driver\<close> struct.

  The model and its devices are code of the library's user, reached through the interfaces
  \<open>Model\<close>, \<open>DeviceModel\<close>, \<open>LocalDeviceModel\<close> and \<open>ExternalDeviceModel\<close>. Such code is an argument of
  the driver's operations (the record \<open>env\<close>), with a state of its own (\<open>'m\<close>). While it runs it
  may call the driver back through \<open>ModelObserver\<close> and \<open>DeviceObserver\<close>; so a method of the model
  is an interaction tree (\<open>act\<close>): it ends with the model's new state and a result, or it makes
  one observer call and goes on with what the call returned. Nothing is assumed of these trees.
\<close>

type_synonym Writability = int

text \<open>
  In the \<open>const\<close> block of driver.go \<open>DefaultWritability\<close> is the fifth constant, so its \<open>iota\<close> is
  4, and the two constants below it repeat the expression: 5 and 6.
\<close>

definition DefaultWritability :: Writability where "DefaultWritability = 4"
definition ForceReadOnly :: Writability where "ForceReadOnly = 5"
definition ForceWritable :: Writability where "ForceWritable = 6"

definition EVENT_QUEUE_LEN :: nat where "EVENT_QUEUE_LEN = 100"
definition DEFAULT_POLL_INTERVAL :: int where "DEFAULT_POLL_INTERVAL = 5 * 10 ^ 9"
definition pushButtonType :: string where "pushButtonType = ''pushbutton''"

lemmas driver_consts = DefaultWritability_def ForceReadOnly_def ForceWritable_def
  EVENT_QUEUE_LEN_def DEFAULT_POLL_INTERVAL_def pushButtonType_def

text \<open>A \<open>float64\<close> is its IEEE 754 bit pattern; the driver only parses it and prints it.\<close>

type_synonym float64 = "64 word"

record Control =
  Name :: string
  Title :: string
  Type :: string
  Value :: string
  Units :: string
  Writability :: Writability
  HasMax :: bool
  Max :: float64
  Forget :: bool
  Order :: int

definition GetType :: "Control \<Rightarrow> string" where
  "GetType c = (case index_of CHR '':'' (Type c) of Some idx \<Rightarrow> take idx (Type c) | None \<Rightarrow> Type c)"

definition GetUnits :: "Control \<Rightarrow> string" where
  "GetUnits c =
     (if Units c \<noteq> [] then Units c
      else (case index_of CHR '':'' (Type c) of Some idx \<Rightarrow> drop (idx + 1) (Type c) | None \<Rightarrow> []))"

definition Retain :: "Control \<Rightarrow> bool" where
  "Retain c \<longleftrightarrow> \<not> Forget c \<and> Type c \<noteq> pushButtonType"

text \<open>
  A device as the driver sees it: a reference (\<open>dev_ref\<close>), what its methods \<open>Name\<close> and \<open>IsVirtual\<close>
  return (constant in a device of driver.go and of testutils: no method assigns them), its \<open>Title\<close>
  at the moment the device is handed over (the only moment the driver asks for it), and which of
  the two interfaces its dynamic type implements.
\<close>

record device =
  dev_ref :: nat
  DevName :: string
  DevTitle :: string
  is_local :: bool
  is_external :: bool
  is_virtual :: bool

record driverTopic =
  ReceivedValue :: string
  DeviceName :: string
  ControlName :: string
  Dev :: "device option"
  topicReady :: bool
  Skip :: bool

definition resetDevice :: "driverTopic \<Rightarrow> driverTopic" where
  "resetDevice e = e\<lparr>Dev := None, topicReady := False, Skip := False\<rparr>"

text \<open>The driver's five message handlers.\<close>

datatype handler =
    HandleDeviceTitle
  | HandleIncomingControlValue
  | HandleExternalControlType
  | HandleExternalControlMax
  | HandleIncomingControlOnValue

text \<open>Every call the driver makes on its client, its model and the devices is kept, in order.\<close>

datatype call =
    Client "handler mqtt_call"
  | ModelObserve
  | ModelStart
  | ModelStop
  | ModelPoll
  | AddExternalDevice string
  | Observe device
  | AcceptValue device string string
  | AcceptOnValue device string string
  | DeviceSetTitle device string
  | AcceptControlType device string string
  | AcceptControlRange device string float64

record ('m, 't) driver =
  model :: 'm
  calls :: "call list"
  eventCh :: "'t list"
  handleMessageCh :: "(handler \<times> MQTTMessage) list"
  deviceMap :: "string \<rightharpoonup> device"
  nextOrder :: "string \<rightharpoonup> int"
  controlList :: "string \<rightharpoonup> string list"
  retainMap :: "string \<rightharpoonup> bool"
  topics :: "string \<rightharpoonup> driverTopic"
  autoPoll :: bool
  pollInterval :: int
  acceptsExternalDevices :: bool
  active :: bool
  ready :: bool
  whenReady :: "'t DeferredList"
  cleanupTopics :: "string list"

text \<open>The calls user code makes on the driver (\<open>ModelObserver\<close> and \<open>DeviceObserver\<close>).\<close>

datatype 't observer_call =
    OnNewDeviceCall device
  | RemoveDeviceCall device
  | OnNewControlCall device Control
  | OnValueCall device string string
  | OnErrorCall device string string
  | CallSyncCall 't
  | WhenReadyCall 't

datatype ('m, 't, 'r) act =
    Return 'm 'r
  | Observer "'t observer_call" "string \<Rightarrow> ('m, 't, 'r) act"

text \<open>
  The user's code: the methods of \<open>Model\<close>, \<open>ExtendedModel\<close> (\<open>None\<close> when the model does not
  implement it) and the device interfaces, and what running a thunk does. The last two fields are
  \<open>strconv.ParseFloat\<close> and the \<open>%v\<close> format of a \<open>float64\<close>, which the driver applies to a value it
  only passes on.
\<close>

record ('m, 't) env =
  env_Start :: "'m \<Rightarrow> ('m, 't, string option) act"
  env_Stop :: "'m \<Rightarrow> ('m, 't, unit) act"
  env_Poll :: "'m \<Rightarrow> ('m, 't, unit) act"
  env_AddExternalDevice :: "(string \<Rightarrow> 'm \<Rightarrow> ('m, 't, string + device) act) option"
  env_AcceptValue :: "device \<Rightarrow> string \<Rightarrow> string \<Rightarrow> 'm \<Rightarrow> ('m, 't, unit) act"
  env_AcceptOnValue :: "device \<Rightarrow> string \<Rightarrow> string \<Rightarrow> 'm \<Rightarrow> ('m, 't, bool) act"
  env_SetTitle :: "device \<Rightarrow> string \<Rightarrow> 'm \<Rightarrow> ('m, 't, unit) act"
  env_AcceptControlType :: "device \<Rightarrow> string \<Rightarrow> string \<Rightarrow> 'm \<Rightarrow> ('m, 't, unit) act"
  env_AcceptControlRange :: "device \<Rightarrow> string \<Rightarrow> float64 \<Rightarrow> 'm \<Rightarrow> ('m, 't, unit) act"
  env_run :: "'t \<Rightarrow> 'm \<Rightarrow> ('m, 't, unit) act"
  env_ParseFloat :: "string \<Rightarrow> float64 option"
  env_FormatFloat :: "float64 \<Rightarrow> string"

text \<open>
  \<open>NewDriver\<close>: \<open>whenReady\<close> has \<open>CallSync\<close> as its executor, and the model is given its observer.
\<close>

definition NewDriver :: "'m \<Rightarrow> ('m, 't) driver" where
  "NewDriver m =
     \<lparr>model = m, calls = [ModelObserve], eventCh = [], handleMessageCh = [],
      deviceMap = Map.empty, nextOrder = Map.empty, controlList = Map.empty,
      retainMap = Map.empty, topics = Map.empty, autoPoll = True,
      pollInterval = DEFAULT_POLL_INTERVAL, acceptsExternalDevices = False,
      active = False, ready = False, whenReady = NewDeferredList True, cleanupTopics = []\<rparr>"

section \<open>Reading the call list\<close>

fun client_call :: "call \<Rightarrow> handler mqtt_call list" where
  "client_call (Client k) = [k]"
| "client_call _ = []"

definition client_calls :: "call list \<Rightarrow> handler mqtt_call list" where
  "client_calls ks = concat (map client_call ks)"

lemma client_calls_simps [simp]:
  "client_calls [] = []"
  "client_calls (k # ks) = client_call k @ client_calls ks"
  "client_calls (ks @ ls) = client_calls ks @ client_calls ls"
  by (simp_all add: client_calls_def)

section \<open>The control type and its units\<close>

lemma GetType_GetUnits:
  "Units c = [] \<Longrightarrow> CHR '':'' \<in> set (Type c) \<Longrightarrow> Type c = GetType c @ CHR '':'' # GetUnits c"
  by (auto simp: GetType_def GetUnits_def split: option.splits dest: index_of_Some)

lemma GetType_no_colon: "CHR '':'' \<notin> set (GetType c)"
  by (auto simp: GetType_def split: option.splits dest: index_of_Some)

lemma GetType_plain: "CHR '':'' \<notin> set (Type c) \<Longrightarrow> GetType c = Type c"
  by (simp add: GetType_def)

lemma GetUnits_plain: "CHR '':'' \<notin> set (Type c) \<Longrightarrow> GetUnits c = Units c"
  by (simp add: GetUnits_def)

end
