(* ===== verification/Driver_Ops.thy ===== *)
theory Driver_Ops
  imports Driver_Model
begin

text \<open>
  The operations of \<open>Driver\<close> (driver.go), one definition per method. Methods that run no code of
  the model's return the new driver; those that do return a \<open>res\<close>, since a type assertion or an
  index may panic there and a \<open>CallSync\<close> on a full queue blocks the driver's goroutine for ever.
\<close>

section \<open>Publishing\<close>

definition client :: "handler mqtt_call \<Rightarrow> ('m, 't) driver \<Rightarrow> ('m, 't) driver" where
  "client k d = d\<lparr>calls := calls d @ [Client k]\<rparr>"

definition addCleanupTopic :: "string \<Rightarrow> ('m, 't) driver \<Rightarrow> ('m, 't) driver" where
  "addCleanupTopic t d = d\<lparr>cleanupTopics := add_once t (cleanupTopics d)\<rparr>"

definition performCleanup :: "('m, 't) driver \<Rightarrow> ('m, 't) driver" where
  "performCleanup d =
     fold (\<lambda>t. client (MPublishSync \<lparr>Topic = t, Payload = [], QoS = 1, Retained = True\<rparr>))
       (cleanupTopics d) d"

definition topic :: "device \<Rightarrow> string list \<Rightarrow> string" where
  "topic dev sub = join_with ''/'' ([''/devices'', DevName dev] @ sub)"

definition controlTopic :: "device \<Rightarrow> string \<Rightarrow> string list \<Rightarrow> string" where
  "controlTopic dev controlName sub = topic dev ([''controls'', controlName] @ sub)"

definition publish :: "string \<Rightarrow> string \<Rightarrow> nat \<Rightarrow> bool \<Rightarrow> ('m, 't) driver \<Rightarrow> ('m, 't) driver" where
  "publish t payload qos retain =
     client (MPublish \<lparr>Topic = t, Payload = payload, QoS = qos, Retained = retain\<rparr>)"

definition publishMeta :: "string \<Rightarrow> string \<Rightarrow> ('m, 't) driver \<Rightarrow> ('m, 't) driver" where
  "publishMeta t payload d = addCleanupTopic t (publish t payload 1 True d)"

definition publishValue :: "device \<Rightarrow> string \<Rightarrow> string \<Rightarrow> ('m, 't) driver \<Rightarrow> ('m, 't) driver" where
  "publishValue dev controlName v d =
     (let t = controlTopic dev controlName [];
          retain = get_or False (retainMap d) t
      in publish t v 1 retain d)"

definition publishOnValue :: "device \<Rightarrow> string \<Rightarrow> string \<Rightarrow> ('m, 't) driver \<Rightarrow> ('m, 't) driver" where
  "publishOnValue dev controlName v =
     client (MPublish \<lparr>Topic = controlTopic dev controlName [] @ ''/on'', Payload = v,
                       QoS = 1, Retained = False\<rparr>)"

text \<open>The message handler is wrapped so that it runs on the driver's goroutine (Driver_Loop).\<close>

definition subscribe :: "handler \<Rightarrow> string list \<Rightarrow> ('m, 't) driver \<Rightarrow> ('m, 't) driver" where
  "subscribe h ts = client (MSubscribe h ts)"

section \<open>Devices and controls\<close>

definition clearTopicDevCache :: "('m, 't) driver \<Rightarrow> ('m, 't) driver" where
  "clearTopicDevCache d = d\<lparr>topics := (\<lambda>t. map_option resetDevice (topics d t))\<rparr>"

definition RemoveDevice :: "device \<Rightarrow> ('m, 't) driver \<Rightarrow> ('m, 't) driver" where
  "RemoveDevice dev d =
     (let d = clearTopicDevCache d;
          name = DevName dev
      in case deviceMap d name of
           None \<Rightarrow> d
         | Some dev \<Rightarrow>
             (let d = step_if (is_local dev)
                        (fold (\<lambda>controlName. client (MUnsubscribe [controlTopic dev controlName [''on'']]))
                          (get_or [] (controlList d) name)) d
              in d\<lparr>deviceMap := (deviceMap d)(name := None),
                   nextOrder := (nextOrder d)(name := None),
                   controlList := (controlList d)(name := None)\<rparr>))"

definition OnNewDevice :: "device \<Rightarrow> ('m, 't) driver \<Rightarrow> ('m, 't) driver" where
  "OnNewDevice dev d =
     (let d = clearTopicDevCache d;
          d = RemoveDevice dev d;
          d = d\<lparr>deviceMap := (deviceMap d)(DevName dev \<mapsto> dev)\<rparr>;
          d = step_if (\<not> is_external dev)
                (\<lambda>d. publishMeta (topic dev [''meta'', ''name'']) (DevTitle dev)
                  (d\<lparr>nextOrder := (nextOrder d)(DevName dev \<mapsto> 1),
                     controlList := (controlList d)(DevName dev \<mapsto> [])\<rparr>)) d
      in d\<lparr>calls := calls d @ [Observe dev]\<rparr>)"

text \<open>The value a new control starts with: a running driver keeps a virtual device's value.\<close>

definition initialValue :: "device \<Rightarrow> Control \<Rightarrow> ('m, 't) driver \<Rightarrow> string" where
  "initialValue dev control d =
     (if active d \<and> is_virtual dev \<and> Retain control
      then (case topics d (controlTopic dev (Name control) []) of
              Some drvTopic \<Rightarrow> ReceivedValue drvTopic
            | None \<Rightarrow> Value control)
      else Value control)"

definition controlOrder :: "device \<Rightarrow> Control \<Rightarrow> ('m, 't) driver \<Rightarrow> int" where
  "controlOrder dev control d =
     (if Order control > 0 then Order control else get_or 0 (nextOrder d) (DevName dev))"

text \<open>The \<open>meta\<close> topics of a control, in the order they are published.\<close>

definition publishControlMeta ::
  "('m, 't) env \<Rightarrow> device \<Rightarrow> Control \<Rightarrow> int \<Rightarrow> ('m, 't) driver \<Rightarrow> ('m, 't) driver" where
  "publishControlMeta E dev control order d =
     (let meta = (\<lambda>k. publishMeta (controlTopic dev (Name control) [''meta'', k]));
          d = meta ''type'' (GetType control) d;
          d = step_if (Title control \<noteq> []) (meta ''name'' (Title control)) d;
          d = step_if (GetUnits control \<noteq> []) (meta ''units'' (GetUnits control)) d;
          d = (if Writability control = ForceReadOnly then meta ''readonly'' ''1'' d
               else if Writability control = ForceWritable then meta ''writable'' ''1'' d
               else d);
          d = meta ''order'' (itoa order) d
      in step_if (HasMax control) (meta ''max'' (env_FormatFloat E (Max control))) d)"

definition bumpOrder :: "string \<Rightarrow> int \<Rightarrow> ('m, 't) driver \<Rightarrow> ('m, 't) driver" where
  "bumpOrder devName order d =
     (if order \<ge> get_or 0 (nextOrder d) devName
      then d\<lparr>nextOrder := (nextOrder d)(devName \<mapsto> wrap64 (order + 1))\<rparr> else d)"

definition OnNewControl ::
  "('m, 't) env \<Rightarrow> device \<Rightarrow> Control \<Rightarrow> ('m, 't) driver \<Rightarrow> ('m, 't) driver \<times> string" where
  "OnNewControl E dev control d =
     (let ct = controlTopic dev (Name control) [];
          v = initialValue dev control d;
          devName = DevName dev;
          order = controlOrder dev control d;
          d = publishControlMeta E dev control order d;
          d = bumpOrder devName order d;
          d = d\<lparr>retainMap := (retainMap d)(ct \<mapsto> Retain control)\<rparr>;
          d = step_if (Retain control) (publishValue dev (Name control) v) d;
          d = step_if (Writability control \<noteq> ForceReadOnly)
                (subscribe HandleIncomingControlOnValue [controlTopic dev (Name control) [''on'']]) d;
          d = d\<lparr>controlList := (controlList d)
                 (devName \<mapsto> get_or [] (controlList d) devName @ [Name control])\<rparr>
      in (addCleanupTopic ct d, v))"

definition OnValue :: "device \<Rightarrow> string \<Rightarrow> string \<Rightarrow> ('m, 't) driver \<Rightarrow> ('m, 't) driver" where
  "OnValue dev controlName v d =
     (if is_external dev then publishOnValue dev controlName v d
      else publishValue dev controlName v d)"

definition OnError :: "device \<Rightarrow> string \<Rightarrow> string \<Rightarrow> ('m, 't) driver \<Rightarrow> ('m, 't) driver" where
  "OnError dev controlName v = publishMeta (controlTopic dev controlName [''meta'', ''error'']) v"

section \<open>Queues, and the model's calls back into the driver\<close>

text \<open>
  \<open>CallSync\<close> on the driver's own goroutine: that goroutine is the only receiver of \<open>eventCh\<close>, so
  a send to the full channel never returns. (Another goroutine's \<open>CallSync\<close> waits: Driver_Loop.)
\<close>

definition CallSync :: "'t \<Rightarrow> ('m, 't) driver \<Rightarrow> ('m, 't) driver res" where
  "CallSync thunk d =
     (if length (eventCh d) < EVENT_QUEUE_LEN then Inr (d\<lparr>eventCh := eventCh d @ [thunk]\<rparr>)
      else Inl BlockedForever)"

text \<open>
  \<open>NewDriver\<close> gives \<open>whenReady\<close> an executor, so \<open>MaybeDefer\<close> never runs a thunk itself
  (\<open>whenReady_executor\<close> in Driver_Invariants).
\<close>

definition WhenReady :: "'t \<Rightarrow> ('m, 't) driver \<Rightarrow> ('m, 't) driver res" where
  "WhenReady thunk d =
     (case MaybeDefer thunk (whenReady d) of
        (dl, Deferred) \<Rightarrow> Inr (d\<lparr>whenReady := dl\<rparr>)
      | (dl, ToExecutor th) \<Rightarrow> CallSync th (d\<lparr>whenReady := dl\<rparr>)
      | (dl, RunNow th) \<Rightarrow> Inl NilDereference)"

fun observe ::
  "('m, 't) env \<Rightarrow> 't observer_call \<Rightarrow> ('m, 't) driver \<Rightarrow> (('m, 't) driver \<times> string) res" where
  "observe E (OnNewDeviceCall dev) d = Inr (OnNewDevice dev d, [])"
| "observe E (RemoveDeviceCall dev) d = Inr (RemoveDevice dev d, [])"
| "observe E (OnNewControlCall dev c) d = Inr (OnNewControl E dev c d)"
| "observe E (OnValueCall dev n v) d = Inr (OnValue dev n v d, [])"
| "observe E (OnErrorCall dev n v) d = Inr (OnError dev n v d, [])"
| "observe E (CallSyncCall t) d = bind_res (CallSync t d) (\<lambda>d. Inr (d, []))"
| "observe E (WhenReadyCall t) d = bind_res (WhenReady t d) (\<lambda>d. Inr (d, []))"

primrec exec ::
  "('m, 't) env \<Rightarrow> ('m, 't, 'r) act \<Rightarrow> ('m, 't) driver \<Rightarrow> (('m, 't) driver \<times> 'r) res" where
  "exec E (Return m r) d = Inr (d\<lparr>model := m\<rparr>, r)"
| "exec E (Observer c k) d = bind_res (observe E c d) (\<lambda>(d1, s). exec E (k s) d1)"

text \<open>Calling a method of the model or of a device, and running a thunk.\<close>

definition invoke ::
  "('m, 't) env \<Rightarrow> call \<Rightarrow> ('m \<Rightarrow> ('m, 't, 'r) act) \<Rightarrow> ('m, 't) driver
     \<Rightarrow> (('m, 't) driver \<times> 'r) res" where
  "invoke E k a d = exec E (a (model d)) (d\<lparr>calls := calls d @ [k]\<rparr>)"

definition invoke_unit ::
  "('m, 't) env \<Rightarrow> call \<Rightarrow> ('m \<Rightarrow> ('m, 't, unit) act) \<Rightarrow> ('m, 't) driver \<Rightarrow> ('m, 't) driver res" where
  "invoke_unit E k a d = bind_res (invoke E k a d) (\<lambda>(d, _). Inr d)"

definition run_thunk :: "('m, 't) env \<Rightarrow> 't \<Rightarrow> ('m, 't) driver \<Rightarrow> ('m, 't) driver res" where
  "run_thunk E t d = bind_res (exec E (env_run E t (model d)) d) (\<lambda>(d1, _). Inr d1)"

fun run_thunks :: "('m, 't) env \<Rightarrow> 't list \<Rightarrow> ('m, 't) driver \<Rightarrow> ('m, 't) driver res" where
  "run_thunks E [] d = Inr d"
| "run_thunks E (t # ts) d = bind_res (run_thunk E t d) (run_thunks E ts)"

section \<open>Incoming messages\<close>

definition ensureDevice ::
  "('m, 't) env \<Rightarrow> string \<Rightarrow> ('m, 't) driver \<Rightarrow> (('m, 't) driver \<times> (string + device)) res" where
  "ensureDevice E deviceName d =
     (case deviceMap d deviceName of
        Some dev \<Rightarrow> Inr (d, Inr dev)
      | None \<Rightarrow>
          (if \<not> acceptsExternalDevices d then Inr (d, Inl (''unknown device: '' @ deviceName))
           else (case env_AddExternalDevice E of
                   None \<Rightarrow> Inl TypeAssertion
                 | Some add \<Rightarrow>
                     bind_res (invoke E (AddExternalDevice deviceName) (add deviceName) d)
                       (\<lambda>(d, r). case r of
                          Inl err \<Rightarrow> Inr (d, Inl err)
                        | Inr dev \<Rightarrow>
                            Inr (d\<lparr>deviceMap := (deviceMap d)(deviceName \<mapsto> dev)\<rparr>, Inr dev)))))"

text \<open>\<open>None\<close> is the nil device returned for a device that is not external.\<close>

definition ensureExtDevice ::
  "('m, 't) env \<Rightarrow> string \<Rightarrow> ('m, 't) driver
     \<Rightarrow> (('m, 't) driver \<times> (string + device option)) res" where
  "ensureExtDevice E deviceName d =
     bind_res (ensureDevice E deviceName d)
       (\<lambda>(d, r). case r of
          Inl err \<Rightarrow> Inr (d, Inl err)
        | Inr dev \<Rightarrow> Inr (d, Inr (if is_external dev then Some dev else None)))"

text \<open>
  The three handlers of external devices go on only when there is no error and the device they
  get is not nil, which would mean a local device.
\<close>

definition with_external ::
  "('m, 't) env \<Rightarrow> string \<Rightarrow> (device \<Rightarrow> ('m, 't) driver \<Rightarrow> ('m, 't) driver res)
     \<Rightarrow> ('m, 't) driver \<Rightarrow> ('m, 't) driver res" where
  "with_external E deviceName body d =
     bind_res (ensureExtDevice E deviceName d) (\<lambda>(d, r).
       case r of Inr (Some dev) \<Rightarrow> body dev d | _ \<Rightarrow> Inr d)"

definition handleIncomingControlOnValue ::
  "('m, 't) env \<Rightarrow> MQTTMessage \<Rightarrow> ('m, 't) driver \<Rightarrow> ('m, 't) driver res" where
  "handleIncomingControlOnValue E msg d =
     (let parts = split_on CHR ''/'' (Topic msg) in
      bind_res (index_at parts 2) (\<lambda>deviceName.
      bind_res (index_at parts 4) (\<lambda>controlName.
        case deviceMap d deviceName of
          None \<Rightarrow> Inr d
        | Some dev \<Rightarrow>
            (if \<not> is_local dev then Inl TypeAssertion
             else bind_res (invoke E (AcceptOnValue dev controlName (Payload msg))
                              (env_AcceptOnValue E dev controlName (Payload msg)) d)
                    (\<lambda>(d, echo). Inr (step_if echo (publishValue dev controlName (Payload msg)) d))))))"

definition handleDeviceTitle ::
  "('m, 't) env \<Rightarrow> MQTTMessage \<Rightarrow> ('m, 't) driver \<Rightarrow> ('m, 't) driver res" where
  "handleDeviceTitle E msg d =
     bind_res (index_at (split_on CHR ''/'' (Topic msg)) 2) (\<lambda>deviceName.
     with_external E deviceName (\<lambda>dev.
       invoke_unit E (DeviceSetTitle dev (Payload msg)) (env_SetTitle E dev (Payload msg))) d)"

text \<open>
  \<open>handleIncomingControlValue\<close> in its three steps: find or make the topic's cache entry and store
  the payload; look its device up again when it has none or \<open>ready\<close> has changed since; hand the
  value on. The entry is a pointer kept in \<open>topics\<close>, so it is updated there, and a callback of the
  model that clears the cache meanwhile changes it too.
\<close>

definition update_topic ::
  "string \<Rightarrow> (driverTopic \<Rightarrow> driverTopic) \<Rightarrow> ('m, 't) driver \<Rightarrow> ('m, 't) driver" where
  "update_topic t f d = d\<lparr>topics := (topics d)(t := map_option f (topics d t))\<rparr>"

definition storeReceivedValue :: "MQTTMessage \<Rightarrow> ('m, 't) driver \<Rightarrow> ('m, 't) driver res" where
  "storeReceivedValue msg d =
     (case topics d (Topic msg) of
        None \<Rightarrow>
          (let parts = split_on CHR ''/'' (Topic msg) in
           bind_res (index_at parts 2) (\<lambda>deviceName.
           bind_res (index_at parts 4) (\<lambda>controlName.
             Inr (d\<lparr>topics := (topics d)(Topic msg \<mapsto>
                     \<lparr>ReceivedValue = Payload msg, DeviceName = deviceName,
                      ControlName = controlName, Dev = None, topicReady = ready d,
                      Skip = False\<rparr>)\<rparr>))))
      | Some _ \<Rightarrow> Inr (update_topic (Topic msg) (\<lambda>e. e\<lparr>ReceivedValue := Payload msg\<rparr>) d))"

definition lookupTopicDevice ::
  "('m, 't) env \<Rightarrow> string \<Rightarrow> ('m, 't) driver
     \<Rightarrow> (('m, 't) driver \<times> (string + device option)) res" where
  "lookupTopicDevice E deviceName d =
     (if ready d then ensureExtDevice E deviceName d
      else bind_res (ensureDevice E deviceName d) (\<lambda>(d, r). Inr (d, map_sum id Some r)))"

definition resolveTopicDevice ::
  "('m, 't) env \<Rightarrow> string \<Rightarrow> driverTopic \<Rightarrow> ('m, 't) driver \<Rightarrow> ('m, 't) driver res" where
  "resolveTopicDevice E t e d =
     (let d = update_topic t (\<lambda>e. e\<lparr>topicReady := ready d\<rparr>) d in
      bind_res (lookupTopicDevice E (DeviceName e) d)
        (\<lambda>(d, r). Inr
          (case r of
             Inr (Some dev) \<Rightarrow>
               update_topic t (\<lambda>e. e\<lparr>Dev := Some dev,
                                    Skip := is_local dev \<and> \<not> is_virtual dev\<rparr>) d
           | _ \<Rightarrow> update_topic t (\<lambda>e. e\<lparr>Dev := None\<rparr>) d)))"

definition deliverValue ::
  "('m, 't) env \<Rightarrow> MQTTMessage \<Rightarrow> ('m, 't) driver \<Rightarrow> ('m, 't) driver res" where
  "deliverValue E msg d =
     (case topics d (Topic msg) of
        None \<Rightarrow> Inl NilDereference
      | Some e \<Rightarrow>
          (case Dev e of
             None \<Rightarrow> Inr d
           | Some dev \<Rightarrow>
               (if Skip e then Inr d
                else invoke_unit E (AcceptValue dev (ControlName e) (Payload msg))
                       (env_AcceptValue E dev (ControlName e) (Payload msg)) d)))"

definition handleIncomingControlValue ::
  "('m, 't) env \<Rightarrow> MQTTMessage \<Rightarrow> ('m, 't) driver \<Rightarrow> ('m, 't) driver res" where
  "handleIncomingControlValue E msg d =
     bind_res (storeReceivedValue msg d) (\<lambda>d.
       case topics d (Topic msg) of
         None \<Rightarrow> Inl NilDereference
       | Some e \<Rightarrow>
           bind_res
             (if Dev e = None \<or> topicReady e \<noteq> ready d
              then resolveTopicDevice E (Topic msg) e d else Inr d)
             (deliverValue E msg))"

definition handleExternalControlType ::
  "('m, 't) env \<Rightarrow> MQTTMessage \<Rightarrow> ('m, 't) driver \<Rightarrow> ('m, 't) driver res" where
  "handleExternalControlType E msg d =
     (let parts = split_on CHR ''/'' (Topic msg) in
      bind_res (index_at parts 2) (\<lambda>deviceName.
      bind_res (index_at parts 4) (\<lambda>controlName.
      with_external E deviceName (\<lambda>dev.
        invoke_unit E (AcceptControlType dev controlName (Payload msg))
          (env_AcceptControlType E dev controlName (Payload msg))) d)))"

definition handleExternalControlMax ::
  "('m, 't) env \<Rightarrow> MQTTMessage \<Rightarrow> ('m, 't) driver \<Rightarrow> ('m, 't) driver res" where
  "handleExternalControlMax E msg d =
     (let parts = split_on CHR ''/'' (Topic msg) in
      bind_res (index_at parts 2) (\<lambda>deviceName.
      bind_res (index_at parts 4) (\<lambda>controlName.
      with_external E deviceName (\<lambda>dev d.
        case env_ParseFloat E (Payload msg) of
          None \<Rightarrow> Inr d
        | Some maxv \<Rightarrow>
            invoke_unit E (AcceptControlRange dev controlName maxv)
              (env_AcceptControlRange E dev controlName maxv) d) d)))"

fun run_handler ::
  "('m, 't) env \<Rightarrow> handler \<Rightarrow> MQTTMessage \<Rightarrow> ('m, 't) driver \<Rightarrow> ('m, 't) driver res" where
  "run_handler E HandleDeviceTitle = handleDeviceTitle E"
| "run_handler E HandleIncomingControlValue = handleIncomingControlValue E"
| "run_handler E HandleExternalControlType = handleExternalControlType E"
| "run_handler E HandleExternalControlMax = handleExternalControlMax E"
| "run_handler E HandleIncomingControlOnValue = handleIncomingControlOnValue E"

section \<open>Settings, start and stop\<close>

definition SetAutoPoll :: "bool \<Rightarrow> ('m, 't) driver \<Rightarrow> ('m, 't) driver" where
  "SetAutoPoll b d = d\<lparr>autoPoll := b\<rparr>"

definition SetPollInterval :: "int \<Rightarrow> ('m, 't) driver \<Rightarrow> ('m, 't) driver" where
  "SetPollInterval i d = d\<lparr>pollInterval := i\<rparr>"

definition SetAcceptsExternalDevices :: "bool \<Rightarrow> ('m, 't) driver \<Rightarrow> ('m, 't) driver res" where
  "SetAcceptsExternalDevices accepts d =
     (if active d
      then Inl (ExplicitPanic ''trying to do SetAcceptsExternalDevices() on an active driver'')
      else Inr (d\<lparr>acceptsExternalDevices := accepts\<rparr>))"

definition subscribeExternal :: "('m, 't) driver \<Rightarrow> ('m, 't) driver" where
  "subscribeExternal d =
     (let d = subscribe HandleDeviceTitle [''/devices/+/meta/name''] d;
          d = subscribe HandleIncomingControlValue [''/devices/+/controls/+''] d;
          d = subscribe HandleExternalControlType [''/devices/+/controls/+/meta/type''] d
      in subscribe HandleExternalControlMax [''/devices/+/controls/+/meta/max''] d)"

text \<open>
  The part of \<open>Start\<close> that runs before the driver's goroutine; the result is the error of the
  model's \<open>Start\<close>, and the goroutine is started only when there is none (Driver_Loop).
  \<open>time.NewTicker\<close> panics when the interval is not positive.
\<close>

definition Start :: "('m, 't) env \<Rightarrow> ('m, 't) driver \<Rightarrow> (('m, 't) driver \<times> string option) res" where
  "Start E d =
     (if active d then Inr (d, None)
      else
        (let d = client MStart (d\<lparr>active := True\<rparr>) in
         bind_res (invoke E ModelStart (env_Start E) d) (\<lambda>(d, err).
           case err of
             Some e \<Rightarrow> Inr (d, Some e)
           | None \<Rightarrow>
               (if autoPoll d \<and> pollInterval d \<le> 0
                then Inl (ExplicitPanic ''non-positive interval for NewTicker'')
                else Inr (step_if (acceptsExternalDevices d) subscribeExternal d, None)))))"

end
