(* ===== verification/Driver_Invariants.thy ===== *)
theory Driver_Invariants
  imports Driver_Ops
begin

text \<open>
  The invariant of the driver's state, and its preservation by every operation, whatever the model
  and its devices do. Its parts:
  \<^item> \<open>cache_ok\<close>: a cached device of a topic is the registered device of that name, the cached
    \<open>Skip\<close> flag is right for it, and an entry made while ready caches external devices only;
  \<^item> \<open>names_ok\<close>: the names cached for a topic are those in the topic;
  \<^item> \<open>cleanup_ok\<close>: every topic the driver has published a retained message to is listed for cleanup;
  \<^item> \<open>calls_ok\<close>: no device that is connected to hardware was handed a value of a value topic, and
    a handler is subscribed only under its own filter;
  \<^item> \<open>queue_ok\<close>: the event queue holds at most its capacity, and \<open>whenReady\<close> has its executor.
  While a handler works on the cache entry of a topic, that entry is exempt from \<open>cache_ok\<close>; the
  first two arguments of \<open>driver_inv\<close> are the topics exempt from \<open>cache_ok\<close> and \<open>cleanup_ok\<close>.
\<close>

definition hardware :: "device \<Rightarrow> bool" where
  "hardware dev \<longleftrightarrow> is_local dev \<and> \<not> is_virtual dev"

definition entry_ok :: "(string \<rightharpoonup> device) \<Rightarrow> driverTopic \<Rightarrow> bool" where
  "entry_ok dm e \<longleftrightarrow>
     (\<forall>dev. Dev e = Some dev \<longrightarrow>
        dm (DeviceName e) = Some dev \<and> Skip e = hardware dev \<and> (topicReady e \<longrightarrow> is_external dev))"

definition cache_ok :: "string set \<Rightarrow> ('m, 't) driver \<Rightarrow> bool" where
  "cache_ok X d \<longleftrightarrow> (\<forall>t e. topics d t = Some e \<longrightarrow> t \<notin> X \<longrightarrow> entry_ok (deviceMap d) e)"

definition names_ok :: "('m, 't) driver \<Rightarrow> bool" where
  "names_ok d \<longleftrightarrow>
     (\<forall>t e. topics d t = Some e \<longrightarrow>
        index_at (split_on CHR ''/'' t) 2 = Inr (DeviceName e) \<and>
        index_at (split_on CHR ''/'' t) 4 = Inr (ControlName e))"

definition cleanup_ok :: "string set \<Rightarrow> ('m, 't) driver \<Rightarrow> bool" where
  "cleanup_ok S d \<longleftrightarrow> distinct (cleanupTopics d) \<and>
     (\<forall>m\<in>set (messages (client_calls (calls d))). Retained m \<longrightarrow> Topic m \<in> S \<union> set (cleanupTopics d)) \<and>
     (\<forall>t. retainMap d t = Some True \<longrightarrow> t \<in> S \<union> set (cleanupTopics d))"

text \<open>The filters a handler is subscribed under, and what a call may be.\<close>

fun good_filter :: "handler \<Rightarrow> string list \<Rightarrow> bool" where
  "good_filter HandleDeviceTitle ts \<longleftrightarrow> ts = [''/devices/+/meta/name'']"
| "good_filter HandleIncomingControlValue ts \<longleftrightarrow> ts = [''/devices/+/controls/+'']"
| "good_filter HandleExternalControlType ts \<longleftrightarrow> ts = [''/devices/+/controls/+/meta/type'']"
| "good_filter HandleExternalControlMax ts \<longleftrightarrow> ts = [''/devices/+/controls/+/meta/max'']"
| "good_filter HandleIncomingControlOnValue ts \<longleftrightarrow> (\<exists>dev c. ts = [controlTopic dev c [''on'']])"

lemma good_filter_on [simp]: "good_filter HandleIncomingControlOnValue [controlTopic dev c [''on'']]"
  by auto

declare good_filter.simps(5) [simp del]

fun call_ok :: "call \<Rightarrow> bool" where
  "call_ok (AcceptValue dev n v) \<longleftrightarrow> \<not> hardware dev"
| "call_ok (Client (MSubscribe h ts)) \<longleftrightarrow> good_filter h ts"
| "call_ok _ \<longleftrightarrow> True"

definition calls_ok :: "('m, 't) driver \<Rightarrow> bool" where
  "calls_ok d \<longleftrightarrow> list_all call_ok (calls d)"

definition queue_ok :: "('m, 't) driver \<Rightarrow> bool" where
  "queue_ok d \<longleftrightarrow> length (eventCh d) \<le> EVENT_QUEUE_LEN \<and> executor (whenReady d)"

definition driver_inv :: "string set \<Rightarrow> string set \<Rightarrow> ('m, 't) driver \<Rightarrow> bool" where
  "driver_inv X S d \<longleftrightarrow> cache_ok X d \<and> names_ok d \<and> cleanup_ok S d \<and> calls_ok d \<and> queue_ok d"

lemmas inv_defs = driver_inv_def cache_ok_def names_ok_def cleanup_ok_def calls_ok_def queue_ok_def

lemma driver_inv_NewDriver: "driver_inv {} {} (NewDriver m)"
  by (simp add: inv_defs NewDriver_def NewDeferredList_def)

section \<open>What the publishing operations leave alone\<close>

text \<open>
  The fields that publishing, and the operations on controls, do not touch, as one tuple: one
  lemma per operation says all of them are unchanged.
\<close>

definition core ::
  "('m, 't) driver \<Rightarrow> _" where
  "core d = (model d, eventCh d, handleMessageCh d, deviceMap d, topics d,
     (autoPoll d, pollInterval d, acceptsExternalDevices d), active d, ready d, whenReady d)"

lemma core_fields:
  assumes "core d' = core d"
  shows "model d' = model d" "eventCh d' = eventCh d" "handleMessageCh d' = handleMessageCh d"
    "deviceMap d' = deviceMap d" "topics d' = topics d" "autoPoll d' = autoPoll d"
    "pollInterval d' = pollInterval d" "acceptsExternalDevices d' = acceptsExternalDevices d"
    "active d' = active d" "ready d' = ready d" "whenReady d' = whenReady d"
  using assms by (simp_all add: core_def)

lemma core_client [simp]: "core (client k d) = core d"
  by (simp add: core_def client_def)

lemma core_addCleanupTopic [simp]: "core (addCleanupTopic t d) = core d"
  by (simp add: core_def addCleanupTopic_def)

lemma core_publish [simp]:
  "core (publish t p q r d) = core d"
  "core (publishMeta t p d) = core d"
  "core (publishValue dev n v d) = core d"
  "core (publishOnValue dev n v d) = core d"
  "core (subscribe h ts d) = core d"
  by (simp_all add: publish_def publishMeta_def publishValue_def publishOnValue_def
      subscribe_def Let_def)

lemma core_performCleanup [simp]: "core (performCleanup d) = core d"
  unfolding performCleanup_def by (rule fold_field) simp

lemma core_step_if: "(\<And>d. core (f d) = core d) \<Longrightarrow> core (step_if b f d) = core d"
  by (rule step_if_field)

lemma core_publishControlMeta [simp]: "core (publishControlMeta E dev c i d) = core d"
  by (simp add: publishControlMeta_def Let_def core_step_if)

lemma core_bumpOrder [simp]: "core (bumpOrder n i d) = core d"
  by (simp add: bumpOrder_def core_def)

lemma core_updates [simp]:
  "core (d\<lparr>retainMap := r\<rparr>) = core d"
  "core (d\<lparr>controlList := l\<rparr>) = core d"
  "core (d\<lparr>nextOrder := o'\<rparr>) = core d"
  "core (d\<lparr>calls := ks\<rparr>) = core d"
  by (simp_all add: core_def)

lemma core_OnNewControl [simp]: "core (fst (OnNewControl E dev c d)) = core d"
  by (simp add: OnNewControl_def Let_def core_step_if)

lemma core_OnValue [simp]: "core (OnValue dev n v d) = core d"
  by (simp add: OnValue_def)

lemma core_OnError [simp]: "core (OnError dev n v d) = core d"
  by (simp add: OnError_def)

lemmas OnNewControl_fields = core_fields [OF core_OnNewControl]
lemmas client_fields [simp] = core_fields [OF core_client]

text \<open>The parts of the invariant that read only these fields.\<close>

lemma core_inv_cong:
  assumes "core d' = core d"
  shows "cache_ok X d' = cache_ok X d" "names_ok d' = names_ok d" "queue_ok d' = queue_ok d"
  using assms by (simp_all add: core_def cache_ok_def names_ok_def queue_ok_def)

section \<open>Cleanup and the call list\<close>

lemma calls_ok_client [simp]: "calls_ok (client k d) \<longleftrightarrow> calls_ok d \<and> call_ok (Client k)"
  by (simp add: calls_ok_def client_def)

lemma calls_ok_addCleanupTopic [simp]: "calls_ok (addCleanupTopic t d) = calls_ok d"
  by (simp add: calls_ok_def addCleanupTopic_def)

lemma cleanup_ok_client:
  "cleanup_ok S d \<Longrightarrow>
     (\<And>m. m \<in> set (call_messages k) \<Longrightarrow> Retained m \<Longrightarrow> Topic m \<in> S \<union> set (cleanupTopics d)) \<Longrightarrow>
     cleanup_ok S (client k d)"
  by (auto simp: cleanup_ok_def client_def)

lemma cleanup_ok_mono: "cleanup_ok S d \<Longrightarrow> S \<subseteq> S' \<Longrightarrow> cleanup_ok S' d"
  by (auto simp: cleanup_ok_def)

lemma cleanup_ok_addCleanupTopic: "cleanup_ok (insert t S) d \<Longrightarrow> cleanup_ok S (addCleanupTopic t d)"
  by (auto simp: cleanup_ok_def addCleanupTopic_def)

lemma cleanup_ok_publishMeta: "cleanup_ok S d \<Longrightarrow> cleanup_ok S (publishMeta t p d)"
  unfolding publishMeta_def publish_def
  by (rule cleanup_ok_addCleanupTopic, rule cleanup_ok_client)
     (auto intro: cleanup_ok_mono)

lemma cleanup_ok_publishValue: "cleanup_ok S d \<Longrightarrow> cleanup_ok S (publishValue dev n v d)"
  unfolding publishValue_def publish_def Let_def
  by (rule cleanup_ok_client)
     (auto simp: cleanup_ok_def get_or_def split: option.splits)

lemma cleanup_ok_unretained:
  "cleanup_ok S d \<Longrightarrow> cleanup_ok S (publishOnValue dev n v d)"
  "cleanup_ok S d \<Longrightarrow> cleanup_ok S (subscribe h ts d)"
  "cleanup_ok S d \<Longrightarrow> cleanup_ok S (client (MUnsubscribe ts) d)"
  "cleanup_ok S d \<Longrightarrow> cleanup_ok S (client MStart d)"
  by (auto simp: publishOnValue_def subscribe_def intro!: cleanup_ok_client)

lemmas cleanup_ok_intros = cleanup_ok_publishMeta cleanup_ok_publishValue cleanup_ok_unretained
  step_if_preserves [where P = "cleanup_ok S" for S]

lemma cleanup_ok_publishControlMeta: "cleanup_ok S d \<Longrightarrow> cleanup_ok S (publishControlMeta E dev c i d)"
  unfolding publishControlMeta_def Let_def by (auto intro!: cleanup_ok_intros)

lemma cleanup_ok_fields:
  "cleanup_ok S (d\<lparr>controlList := l\<rparr>) = cleanup_ok S d"
  "cleanup_ok S (d\<lparr>nextOrder := o'\<rparr>) = cleanup_ok S d"
  "cleanup_ok S (d\<lparr>deviceMap := dm\<rparr>) = cleanup_ok S d"
  "cleanup_ok S (d\<lparr>topics := tp\<rparr>) = cleanup_ok S d"
  "cleanup_ok S (d\<lparr>eventCh := q\<rparr>) = cleanup_ok S d"
  "cleanup_ok S (d\<lparr>whenReady := w\<rparr>) = cleanup_ok S d"
  "cleanup_ok S (d\<lparr>model := m\<rparr>) = cleanup_ok S d"
  "cleanup_ok S (d\<lparr>active := b\<rparr>) = cleanup_ok S d"
  by (simp_all add: cleanup_ok_def)

lemma cleanup_ok_bumpOrder: "cleanup_ok S d \<Longrightarrow> cleanup_ok S (bumpOrder n i d)"
  by (simp add: bumpOrder_def cleanup_ok_fields)

lemma cleanup_ok_retainMap: "cleanup_ok S d \<Longrightarrow> t \<in> S \<Longrightarrow> cleanup_ok S (d\<lparr>retainMap := (retainMap d)(t \<mapsto> b)\<rparr>)"
  by (auto simp: cleanup_ok_def)

lemma cleanup_ok_OnNewControl:
  assumes "cleanup_ok S d"
  shows "cleanup_ok S (fst (OnNewControl E dev c d))"
proof -
  have "cleanup_ok (insert (controlTopic dev (Name c) []) S) d"
    using assms by (rule cleanup_ok_mono) auto
  then show ?thesis
    unfolding OnNewControl_def Let_def fst_conv
    by (intro cleanup_ok_addCleanupTopic cleanup_ok_fields [THEN iffD2] cleanup_ok_intros
        cleanup_ok_retainMap cleanup_ok_bumpOrder cleanup_ok_publishControlMeta) auto
qed

lemma calls_ok_fields [simp]:
  "calls_ok (d\<lparr>controlList := l\<rparr>) = calls_ok d"
  "calls_ok (d\<lparr>nextOrder := o'\<rparr>) = calls_ok d"
  "calls_ok (d\<lparr>deviceMap := dm\<rparr>) = calls_ok d"
  "calls_ok (d\<lparr>retainMap := r\<rparr>) = calls_ok d"
  "calls_ok (d\<lparr>topics := tp\<rparr>) = calls_ok d"
  "calls_ok (d\<lparr>eventCh := q\<rparr>) = calls_ok d"
  "calls_ok (d\<lparr>whenReady := w\<rparr>) = calls_ok d"
  "calls_ok (d\<lparr>model := m\<rparr>) = calls_ok d"
  "calls_ok (d\<lparr>active := b\<rparr>) = calls_ok d"
  by (simp_all add: calls_ok_def)

lemma calls_ok_publish [simp]:
  "calls_ok (publish t p q r d) = calls_ok d"
  "calls_ok (publishMeta t p d) = calls_ok d"
  "calls_ok (publishValue dev n v d) = calls_ok d"
  "calls_ok (publishOnValue dev n v d) = calls_ok d"
  "calls_ok (subscribe h ts d) \<longleftrightarrow> calls_ok d \<and> good_filter h ts"
  by (simp_all add: publish_def publishMeta_def publishValue_def publishOnValue_def
      subscribe_def Let_def)

lemma calls_ok_OnNewControl [simp]: "calls_ok (fst (OnNewControl E dev c d)) = calls_ok d"
  by (simp add: OnNewControl_def publishControlMeta_def bumpOrder_def Let_def
      step_if_field [where g = calls_ok])

section \<open>Devices come and go\<close>

definition cache_empty :: "('m, 't) driver \<Rightarrow> bool" where
  "cache_empty d \<longleftrightarrow> (\<forall>t e. topics d t = Some e \<longrightarrow> Dev e = None)"

lemma cache_empty_ok: "cache_empty d \<Longrightarrow> topics d' = topics d \<Longrightarrow> cache_ok X d'"
  by (auto simp: cache_empty_def cache_ok_def entry_ok_def)

lemma cache_empty_clear: "cache_empty (clearTopicDevCache d)"
  by (auto simp: cache_empty_def clearTopicDevCache_def resetDevice_def)

lemma names_ok_clear: "names_ok d \<Longrightarrow> names_ok (clearTopicDevCache d)"
  by (auto simp: names_ok_def clearTopicDevCache_def resetDevice_def)

lemma clear_simps [simp]:
  "deviceMap (clearTopicDevCache d) = deviceMap d"
  "nextOrder (clearTopicDevCache d) = nextOrder d"
  "controlList (clearTopicDevCache d) = controlList d"
  "retainMap (clearTopicDevCache d) = retainMap d"
  "cleanupTopics (clearTopicDevCache d) = cleanupTopics d"
  "calls (clearTopicDevCache d) = calls d"
  "ready (clearTopicDevCache d) = ready d"
  "active (clearTopicDevCache d) = active d"
  "eventCh (clearTopicDevCache d) = eventCh d"
  "whenReady (clearTopicDevCache d) = whenReady d"
  "topics (clearTopicDevCache d) = (\<lambda>t. map_option resetDevice (topics d t))"
  by (simp_all add: clearTopicDevCache_def)

definition unsubscribeControls :: "device \<Rightarrow> string list \<Rightarrow> ('m, 't) driver \<Rightarrow> ('m, 't) driver" where
  "unsubscribeControls dev =
     fold (\<lambda>n. client (MUnsubscribe [controlTopic dev n [''on'']]))"

lemma core_unsubscribeControls [simp]: "core (unsubscribeControls dev ns d) = core d"
  unfolding unsubscribeControls_def by (rule fold_field) simp

lemma calls_unsubscribeControls:
  "calls (unsubscribeControls dev ns d) =
     calls d @ map (\<lambda>n. Client (MUnsubscribe [controlTopic dev n [''on'']])) ns"
  by (induction ns arbitrary: d) (auto simp: unsubscribeControls_def client_def)

lemma calls_ok_unsubscribeControls [simp]: "calls_ok (unsubscribeControls dev ns d) = calls_ok d"
  unfolding unsubscribeControls_def by (rule fold_field) simp

lemma cleanup_ok_unsubscribeControls: "cleanup_ok S d \<Longrightarrow> cleanup_ok S (unsubscribeControls dev ns d)"
  unfolding unsubscribeControls_def by (rule fold_preserves) (auto intro: cleanup_ok_unretained)

lemma RemoveDevice_alt:
  "RemoveDevice dev d =
     (let d1 = clearTopicDevCache d; name = DevName dev in
      case deviceMap d name of
        None \<Rightarrow> d1
      | Some dev' \<Rightarrow>
          (step_if (is_local dev') (unsubscribeControls dev' (get_or [] (controlList d) name)) d1)
            \<lparr>deviceMap := (deviceMap d)(name := None), nextOrder := (nextOrder d)(name := None),
             controlList := (controlList d)(name := None)\<rparr>)"
proof -
  have same: "nextOrder (unsubscribeControls dev' ns d1) = nextOrder d1"
    "controlList (unsubscribeControls dev' ns d1) = controlList d1" for dev' ns and d1 :: "('m, 't) driver"
    unfolding unsubscribeControls_def by (rule fold_field, simp add: client_def)+
  show ?thesis
    unfolding RemoveDevice_def Let_def unsubscribeControls_def [symmetric]
    by (auto simp: step_if_def same core_fields [OF core_unsubscribeControls] split: option.splits)
qed

lemma RemoveDevice_fields [simp]:
  "topics (RemoveDevice dev d) = (\<lambda>t. map_option resetDevice (topics d t))"
  "ready (RemoveDevice dev d) = ready d"
  "active (RemoveDevice dev d) = active d"
  "eventCh (RemoveDevice dev d) = eventCh d"
  "handleMessageCh (RemoveDevice dev d) = handleMessageCh d"
  "whenReady (RemoveDevice dev d) = whenReady d"
  "acceptsExternalDevices (RemoveDevice dev d) = acceptsExternalDevices d"
  "deviceMap (RemoveDevice dev d) = (deviceMap d)(DevName dev := None)"
  "nextOrder (RemoveDevice dev d) =
     (if deviceMap d (DevName dev) = None then nextOrder d else (nextOrder d)(DevName dev := None))"
  "controlList (RemoveDevice dev d) =
     (if deviceMap d (DevName dev) = None then controlList d else (controlList d)(DevName dev := None))"
  by (auto simp: RemoveDevice_alt step_if_def core_fields [OF core_unsubscribeControls]
      clearTopicDevCache_def Let_def split: option.splits)

lemma cleanup_ok_clear: "cleanup_ok S (clearTopicDevCache d) = cleanup_ok S d"
  by (simp add: clearTopicDevCache_def cleanup_ok_fields)

lemma calls_ok_clear: "calls_ok (clearTopicDevCache d) = calls_ok d"
  by (simp add: clearTopicDevCache_def)

lemma driver_inv_clear: "driver_inv X S d \<Longrightarrow> driver_inv X S (clearTopicDevCache d)"
  using cache_empty_ok [OF cache_empty_clear [of d] refl, of X] names_ok_clear [of d]
  by (simp add: driver_inv_def cleanup_ok_clear calls_ok_clear queue_ok_def)

lemma driver_inv_RemoveDevice:
  assumes "driver_inv X S d"
  shows "driver_inv X S (RemoveDevice dev d)"
proof -
  have "cache_ok X (RemoveDevice dev d)"
    by (rule cache_empty_ok [OF cache_empty_clear [of d]]) simp
  moreover have "names_ok (RemoveDevice dev d)"
    using assms by (auto simp: driver_inv_def names_ok_def resetDevice_def)
  moreover have "cleanup_ok S (RemoveDevice dev d)" "calls_ok (RemoveDevice dev d)"
    using assms
    by (auto simp: RemoveDevice_alt driver_inv_def Let_def cleanup_ok_fields cleanup_ok_clear
        calls_ok_clear step_if_def cleanup_ok_unsubscribeControls split: option.splits)
  ultimately show ?thesis
    using assms by (simp add: driver_inv_def queue_ok_def)
qed

lemma OnNewDevice_alt:
  "OnNewDevice dev d =
     (let d1 = RemoveDevice dev (clearTopicDevCache d);
          d2 = d1\<lparr>deviceMap := (deviceMap d)(DevName dev \<mapsto> dev)\<rparr>;
          d3 = step_if (\<not> is_external dev)
            (\<lambda>d. publishMeta (topic dev [''meta'', ''name'']) (DevTitle dev)
               (d\<lparr>nextOrder := (nextOrder d)(DevName dev \<mapsto> 1),
                  controlList := (controlList d)(DevName dev \<mapsto> [])\<rparr>)) d2
      in d3\<lparr>calls := calls d3 @ [Observe dev]\<rparr>)"
  by (simp add: OnNewDevice_def Let_def)

lemma core_OnNewDevice:
  "core (OnNewDevice dev d) =
     core ((RemoveDevice dev (clearTopicDevCache d))\<lparr>deviceMap := (deviceMap d)(DevName dev \<mapsto> dev)\<rparr>)"
  by (simp add: OnNewDevice_alt Let_def step_if_def)

lemma resetDevice_idem [simp]: "resetDevice (resetDevice e) = resetDevice e"
  by (simp add: resetDevice_def)

lemma map_option_resetDevice_idem [simp]:
  "map_option resetDevice (map_option resetDevice x) = map_option resetDevice x"
  by (cases x) auto

lemma OnNewDevice_fields [simp]:
  "topics (OnNewDevice dev d) = (\<lambda>t. map_option resetDevice (topics d t))"
  "ready (OnNewDevice dev d) = ready d"
  "active (OnNewDevice dev d) = active d"
  "eventCh (OnNewDevice dev d) = eventCh d"
  "handleMessageCh (OnNewDevice dev d) = handleMessageCh d"
  "whenReady (OnNewDevice dev d) = whenReady d"
  "acceptsExternalDevices (OnNewDevice dev d) = acceptsExternalDevices d"
  "deviceMap (OnNewDevice dev d) = (deviceMap d)(DevName dev \<mapsto> dev)"
  by (simp_all add: core_fields [OF core_OnNewDevice] clearTopicDevCache_def)

lemma cleanup_ok_Observe: "cleanup_ok S (d\<lparr>calls := calls d @ [Observe dev]\<rparr>) = cleanup_ok S d"
  by (simp add: cleanup_ok_def)

lemma calls_ok_Observe: "calls_ok (d\<lparr>calls := calls d @ [Observe dev]\<rparr>) = calls_ok d"
  by (simp add: calls_ok_def)

lemma driver_inv_OnNewDevice:
  assumes "driver_inv X S d"
  shows "driver_inv X S (OnNewDevice dev d)"
proof -
  have "cache_ok X (OnNewDevice dev d)"
    by (rule cache_empty_ok [OF cache_empty_clear [of d]]) simp
  moreover have "names_ok (OnNewDevice dev d)"
    using assms by (auto simp: driver_inv_def names_ok_def resetDevice_def)
  moreover
  have "driver_inv X S (RemoveDevice dev (clearTopicDevCache d))"
    by (intro driver_inv_RemoveDevice driver_inv_clear assms)
  then have "cleanup_ok S (OnNewDevice dev d)" "calls_ok (OnNewDevice dev d)"
    by (simp_all add: OnNewDevice_alt Let_def cleanup_ok_Observe calls_ok_Observe step_if_def
        cleanup_ok_fields cleanup_ok_publishMeta driver_inv_def)
  ultimately show ?thesis
    using assms by (simp add: driver_inv_def queue_ok_def)
qed

section \<open>Whatever the model does\<close>

lemma driver_inv_core:
  assumes "driver_inv X S d" "core d' = core d"
    and "cleanup_ok S d \<Longrightarrow> cleanup_ok S d'" "calls_ok d' = calls_ok d"
  shows "driver_inv X S d'"
  using assms core_inv_cong(1) [OF assms(2), of X] core_inv_cong(2,3) [OF assms(2)]
  unfolding driver_inv_def by blast

lemma driver_inv_OnNewControl: "driver_inv X S d \<Longrightarrow> driver_inv X S (fst (OnNewControl E dev c d))"
  by (erule driver_inv_core) (simp_all add: cleanup_ok_OnNewControl)

lemma driver_inv_OnValue: "driver_inv X S d \<Longrightarrow> driver_inv X S (OnValue dev n v d)"
  by (erule driver_inv_core) (simp_all add: OnValue_def cleanup_ok_intros)

lemma driver_inv_OnError: "driver_inv X S d \<Longrightarrow> driver_inv X S (OnError dev n v d)"
  by (erule driver_inv_core) (simp_all add: OnError_def cleanup_ok_intros)

lemma driver_inv_model [simp]: "driver_inv X S (d\<lparr>model := m\<rparr>) = driver_inv X S d"
  by (simp add: driver_inv_def cache_ok_def names_ok_def queue_ok_def cleanup_ok_fields)

lemma driver_inv_active [simp]: "driver_inv X S (d\<lparr>active := b\<rparr>) = driver_inv X S d"
  by (simp add: driver_inv_def cache_ok_def names_ok_def queue_ok_def cleanup_ok_fields)

lemma driver_inv_eventCh:
  "driver_inv X S d \<Longrightarrow> length q \<le> EVENT_QUEUE_LEN \<Longrightarrow> driver_inv X S (d\<lparr>eventCh := q\<rparr>)"
  by (simp add: driver_inv_def cache_ok_def names_ok_def queue_ok_def cleanup_ok_fields)

lemma driver_inv_whenReady:
  "driver_inv X S d \<Longrightarrow> executor w \<Longrightarrow> driver_inv X S (d\<lparr>whenReady := w\<rparr>)"
  by (simp add: driver_inv_def cache_ok_def names_ok_def queue_ok_def cleanup_ok_fields)

lemma driver_inv_CallSync: "driver_inv X S d \<Longrightarrow> CallSync t d = Inr d' \<Longrightarrow> driver_inv X S d'"
  by (auto simp: CallSync_def intro!: driver_inv_eventCh split: if_splits)

lemma whenReady_executor:
  "executor (whenReady d) \<Longrightarrow>
     WhenReady t d =
       (case fns (whenReady d) of
          Some fs \<Rightarrow> Inr (d\<lparr>whenReady := (whenReady d)\<lparr>fns := Some (fs @ [t])\<rparr>\<rparr>)
        | None \<Rightarrow> CallSync t d)"
  by (auto simp: WhenReady_def MaybeDefer_def split: option.splits)

lemma driver_inv_WhenReady:
  assumes "driver_inv X S d" "WhenReady t d = Inr d'"
  shows "driver_inv X S d'"
proof -
  have "executor (whenReady d)"
    using assms(1) by (simp add: driver_inv_def queue_ok_def)
  then show ?thesis
    using assms
    by (auto simp: whenReady_executor intro!: driver_inv_whenReady intro: driver_inv_CallSync
        split: option.splits)
qed

lemma driver_inv_observe: "driver_inv X S d \<Longrightarrow> observe E c d = Inr (d', s) \<Longrightarrow> driver_inv X S d'"
proof (cases c)
  case (OnNewControlCall dev ctl)
  assume "driver_inv X S d" "observe E c d = Inr (d', s)"
  then show ?thesis
    using OnNewControlCall driver_inv_OnNewControl [of X S d E dev ctl] by simp
qed (auto simp: driver_inv_RemoveDevice driver_inv_OnNewDevice driver_inv_OnValue driver_inv_OnError
      intro: driver_inv_CallSync driver_inv_WhenReady)

lemma driver_inv_exec: "driver_inv X S d \<Longrightarrow> exec E a d = Inr (d', r) \<Longrightarrow> driver_inv X S d'"
proof (induction a arbitrary: d)
  case (Observer c k)
  then show ?case
    by (auto split: prod.splits) (metis driver_inv_observe rangeI)
qed auto

text \<open>
  What a callback of the model can change of the state a handler goes on with: the cache entries
  keep their names and values, and at most are reset.
\<close>

definition evolves :: "('m, 't) driver \<Rightarrow> ('m, 't) driver \<Rightarrow> bool" where
  "evolves d d' \<longleftrightarrow>
     ready d' = ready d \<and> active d' = active d \<and> handleMessageCh d' = handleMessageCh d \<and>
     acceptsExternalDevices d' = acceptsExternalDevices d \<and>
     (\<forall>t. topics d' t = topics d t \<or> topics d' t = map_option resetDevice (topics d t))"

lemma evolves_refl [simp]: "evolves d d"
  by (simp add: evolves_def)

lemma evolves_trans: "evolves d d1 \<Longrightarrow> evolves d1 d2 \<Longrightarrow> evolves d d2"
  unfolding evolves_def by (metis map_option_resetDevice_idem)

lemma evolves_core:
  assumes "core d' = core d"
  shows "evolves d d'"
  by (simp add: evolves_def core_fields [OF assms])

lemma evolves_reset:
  "ready d' = ready d \<Longrightarrow> active d' = active d \<Longrightarrow> handleMessageCh d' = handleMessageCh d \<Longrightarrow>
   acceptsExternalDevices d' = acceptsExternalDevices d \<Longrightarrow>
   topics d' = (\<lambda>t. map_option resetDevice (topics d t)) \<Longrightarrow> evolves d d'"
  by (simp add: evolves_def)

lemma evolves_fields [simp]:
  "evolves d (d\<lparr>model := m\<rparr>)" "evolves d (d\<lparr>eventCh := q\<rparr>)" "evolves d (d\<lparr>whenReady := w\<rparr>)"
  "evolves d (d\<lparr>whenReady := w, eventCh := q\<rparr>)" "evolves d (d\<lparr>calls := ks\<rparr>)"
  "evolves d (d\<lparr>deviceMap := dm\<rparr>)"
  by (simp_all add: evolves_def)

lemma evolves_CallSync: "CallSync t d = Inr d' \<Longrightarrow> evolves d d'"
  by (auto simp: CallSync_def split: if_splits)

lemma evolves_WhenReady: "WhenReady t d = Inr d' \<Longrightarrow> evolves d d'"
  by (auto simp: WhenReady_def CallSync_def split: if_splits prod.splits dispatch.splits)

lemma evolves_observe: "observe E c d = Inr (d', s) \<Longrightarrow> evolves d d'"
proof (cases c)
  case (OnNewControlCall dev ctl)
  assume "observe E c d = Inr (d', s)"
  then show ?thesis
    using OnNewControlCall core_OnNewControl [of E dev ctl d] by (simp add: evolves_core)
qed (auto intro: evolves_reset evolves_core evolves_CallSync evolves_WhenReady)

lemma evolves_exec: "exec E a d = Inr (d', r) \<Longrightarrow> evolves d d'"
proof (induction a arbitrary: d)
  case (Observer c k)
  then show ?case
    by (auto split: prod.splits) (metis evolves_observe evolves_trans rangeI)
qed auto

lemma evolves_topic:
  assumes "evolves d d'" "topics d t = Some e"
  shows "topics d' t = Some e \<or> topics d' t = Some (resetDevice e)"
proof -
  from assms(1) have "topics d' t = topics d t \<or> topics d' t = map_option resetDevice (topics d t)"
    unfolding evolves_def by blast
  with assms(2) show ?thesis by auto
qed

end
