(* ===== verification/Driver_Handlers.thy ===== *)
theory Driver_Handlers
  imports Driver_Invariants Topic_Match
begin

text \<open>
  The message handlers, \<open>Start\<close> and the thunks keep the driver's invariant; what a handler leaves
  in the cache; and on a message their subscription lets through the handlers panic only at the two
  type assertions the code does not check.
\<close>

section \<open>The handlers\<close>

text \<open>The calls on user code that keep the invariant.\<close>

fun user_call_ok :: "call \<Rightarrow> bool" where
  "user_call_ok (Client k) = False"
| "user_call_ok (AcceptValue dev n v) = (\<not> hardware dev)"
| "user_call_ok _ = True"

lemma user_call_ok_call_ok: "user_call_ok k \<Longrightarrow> call_ok k"
  by (cases k) auto

lemma user_call_ok_client: "user_call_ok k \<Longrightarrow> client_call k = []"
  by (cases k) auto

lemma driver_inv_calls:
  assumes "driver_inv X S d" "user_call_ok k"
  shows "driver_inv X S (d\<lparr>calls := calls d @ [k]\<rparr>)"
  using assms user_call_ok_client [OF assms(2)] user_call_ok_call_ok [OF assms(2)]
  by (simp add: driver_inv_def cache_ok_def names_ok_def queue_ok_def cleanup_ok_def calls_ok_def)

lemma invoke_preserves:
  assumes "driver_inv X S d" "invoke E k a d = Inr (d', r)" "user_call_ok k"
  shows "driver_inv X S d'" "evolves d d'"
proof -
  from assms(2) have run: "exec E (a (model d)) (d\<lparr>calls := calls d @ [k]\<rparr>) = Inr (d', r)"
    by (simp add: invoke_def)
  have "driver_inv X S (d\<lparr>calls := calls d @ [k]\<rparr>)"
    using assms(1,3) by (rule driver_inv_calls)
  then show "driver_inv X S d'"
    using run by (rule driver_inv_exec)
  show "evolves d d'"
    by (rule evolves_trans [OF _ evolves_exec [OF run]]) simp
qed

lemma cache_ok_new_device:
  assumes "cache_ok X d" "evolves d d'" "cache_ok X d'" "deviceMap d n = None"
  shows "cache_ok X (d'\<lparr>deviceMap := (deviceMap d')(n \<mapsto> dev)\<rparr>)"
proof -
  have "DeviceName e \<noteq> n \<or> Dev e = None" if "topics d' t = Some e" "t \<notin> X" for t e
  proof -
    from assms(2) have "topics d' t = topics d t \<or> topics d' t = map_option resetDevice (topics d t)"
      unfolding evolves_def by blast
    then have "topics d t = Some e \<or> Dev e = None"
      using that(1) by (elim disjE) (auto simp: resetDevice_def)
    with assms(1,4) that(2) show ?thesis
      unfolding cache_ok_def entry_ok_def by (metis option.distinct(1) option.exhaust)
  qed
  with assms(3) show ?thesis
    by (fastforce simp: cache_ok_def entry_ok_def)
qed

lemma driver_inv_deviceMap:
  "driver_inv X S d \<Longrightarrow> cache_ok X (d\<lparr>deviceMap := dm\<rparr>) \<Longrightarrow> driver_inv X S (d\<lparr>deviceMap := dm\<rparr>)"
  by (simp add: driver_inv_def names_ok_def queue_ok_def cleanup_ok_fields)

lemma ensureDevice_preserves:
  assumes inv: "driver_inv X S d" and run: "ensureDevice E n d = Inr (d', r)"
  shows "driver_inv X S d'" "evolves d d'" "r = Inr dev \<Longrightarrow> deviceMap d' n = Some dev"
proof -
  have "driver_inv X S d' \<and> evolves d d' \<and> (\<forall>dev. r = Inr dev \<longrightarrow> deviceMap d' n = Some dev)"
  proof (cases "\<exists>dev. deviceMap d n = Some dev \<or> \<not> acceptsExternalDevices d")
    case True
    with inv run show ?thesis
      by (auto simp: ensureDevice_def split: option.splits)
  next
    case False
    with run obtain f d1 r1 where
      call: "invoke E (AddExternalDevice n) (f n) d = Inr (d1, r1)" and
      res: "(case r1 of Inl err \<Rightarrow> Inr (d1, Inl err)
             | Inr dev \<Rightarrow> Inr (d1\<lparr>deviceMap := (deviceMap d1)(n \<mapsto> dev)\<rparr>, Inr dev))
           = (Inr (d', r) :: (('a, 'b) driver \<times> (string + device)) res)"
      by (auto simp: ensureDevice_def split: option.splits)
    from invoke_preserves [OF inv call] have d1: "driver_inv X S d1" "evolves d d1"
      by auto
    from False have none: "deviceMap d n = None" by auto
    have "driver_inv X S (d1\<lparr>deviceMap := (deviceMap d1)(n \<mapsto> dev)\<rparr>)" for dev
      using d1 inv none
      by (intro driver_inv_deviceMap cache_ok_new_device [of X d]) (auto simp: driver_inv_def)
    moreover have "evolves d (d1\<lparr>deviceMap := (deviceMap d1)(n \<mapsto> dev)\<rparr>)" for dev
      by (rule evolves_trans [OF d1(2)]) simp
    ultimately show ?thesis
      using res d1 by (auto split: sum.splits)
  qed
  then show "driver_inv X S d'" "evolves d d'" "r = Inr dev \<Longrightarrow> deviceMap d' n = Some dev"
    by auto
qed

lemma ensureExtDevice_Inr:
  assumes "ensureExtDevice E n d = Inr (d', r)"
  obtains r1 where "ensureDevice E n d = Inr (d', r1)"
    "\<And>dev. r = Inr (Some dev) \<Longrightarrow> r1 = Inr dev \<and> is_external dev"
proof -
  from assms obtain d1 r1 where 1: "ensureDevice E n d = Inr (d1, r1)"
    by (auto simp: ensureExtDevice_def)
  with assms have "d1 = d'" "\<And>dev. r = Inr (Some dev) \<Longrightarrow> r1 = Inr dev \<and> is_external dev"
    by (auto simp: ensureExtDevice_def split: sum.splits if_splits)
  with 1 that show thesis by blast
qed

lemma ensureExtDevice_preserves:
  assumes "driver_inv X S d" "ensureExtDevice E n d = Inr (d', r)"
  shows "driver_inv X S d'" "evolves d d'"
    "r = Inr (Some dev) \<Longrightarrow> deviceMap d' n = Some dev \<and> is_external dev"
  using ensureDevice_preserves [OF assms(1)] ensureExtDevice_Inr [OF assms(2)] by metis+

lemma lookupTopicDevice_preserves:
  assumes "driver_inv X S d" "lookupTopicDevice E n d = Inr (d', r)"
  shows "driver_inv X S d'" "evolves d d'"
    "r = Inr (Some dev) \<Longrightarrow> deviceMap d' n = Some dev \<and> (ready d \<longrightarrow> is_external dev)"
proof -
  have "driver_inv X S d' \<and> evolves d d' \<and>
    (\<forall>dev. r = Inr (Some dev) \<longrightarrow> deviceMap d' n = Some dev \<and> (ready d \<longrightarrow> is_external dev))"
  proof (cases "ready d")
    case True
    with assms(2) have "ensureExtDevice E n d = Inr (d', r)"
      by (simp add: lookupTopicDevice_def)
    with ensureExtDevice_preserves [OF assms(1) this] show ?thesis by blast
  next
    case False
    with assms(2) obtain r1 where "ensureDevice E n d = Inr (d', r1)" "r = map_sum id Some r1"
      by (auto simp: lookupTopicDevice_def)
    with False ensureDevice_preserves [OF assms(1) this(1)] show ?thesis
      by (cases r1) auto
  qed
  then show "driver_inv X S d'" "evolves d d'"
    "r = Inr (Some dev) \<Longrightarrow> deviceMap d' n = Some dev \<and> (ready d \<longrightarrow> is_external dev)"
    by auto
qed

lemma update_topic_fields [simp]:
  "ready (update_topic t f d) = ready d"
  "deviceMap (update_topic t f d) = deviceMap d"
  "topics (update_topic t f d) = (topics d)(t := map_option f (topics d t))"
  "calls (update_topic t f d) = calls d"
  "eventCh (update_topic t f d) = eventCh d"
  "whenReady (update_topic t f d) = whenReady d"
  by (simp_all add: update_topic_def)

lemma driver_inv_update_topic:
  assumes inv: "driver_inv (insert t X) S d" and "X \<subseteq> Y"
    and same: "\<And>e. DeviceName (f e) = DeviceName e" "\<And>e. ControlName (f e) = ControlName e"
    and ok: "t \<notin> Y \<Longrightarrow> (\<And>e. topics d t = Some e \<Longrightarrow> entry_ok (deviceMap d) (f e))"
  shows "driver_inv Y S (update_topic t f d)"
proof -
  have "cache_ok Y (update_topic t f d)"
    using inv \<open>X \<subseteq> Y\<close> ok by (auto simp: driver_inv_def cache_ok_def)
  moreover have "names_ok (update_topic t f d)"
    using inv same by (auto simp: driver_inv_def names_ok_def)
  ultimately show ?thesis
    using inv by (simp add: driver_inv_def update_topic_def queue_ok_def cleanup_ok_fields)
qed

lemma driver_inv_mono: "driver_inv X S d \<Longrightarrow> X \<subseteq> Y \<Longrightarrow> driver_inv Y S d"
  by (auto simp: driver_inv_def cache_ok_def)

lemma resolveTopicDevice_preserves:
  assumes inv: "driver_inv X S d" and e: "topics d t = Some e"
    and run: "resolveTopicDevice E t e d = Inr d'"
  shows "driver_inv X S d'"
proof -
  define d0 where "d0 = update_topic t (\<lambda>e. e\<lparr>topicReady := ready d\<rparr>) d"
  have inv0: "driver_inv (insert t X) S d0"
    unfolding d0_def
    by (rule driver_inv_update_topic [OF driver_inv_mono [OF inv], of _ X]) auto
  have e0: "topics d0 t = Some (e\<lparr>topicReady := ready d\<rparr>)" and r0: "ready d0 = ready d"
    using e by (simp_all add: d0_def)
  from run obtain d1 r where
    look: "lookupTopicDevice E (DeviceName e) d0 = Inr (d1, r)" and
    d': "d' = (case r of
             Inr (Some dev) \<Rightarrow>
               update_topic t (\<lambda>e. e\<lparr>Dev := Some dev, Skip := is_local dev \<and> \<not> is_virtual dev\<rparr>) d1
           | _ \<Rightarrow> update_topic t (\<lambda>e. e\<lparr>Dev := None\<rparr>) d1)"
    by (auto simp: resolveTopicDevice_def d0_def [symmetric])
  note d1 = lookupTopicDevice_preserves [OF inv0 look]
  have e1: "DeviceName e1 = DeviceName e \<and> (topicReady e1 \<longrightarrow> ready d)" if "topics d1 t = Some e1" for e1
    using evolves_topic [OF d1(2) e0] that by (auto simp: resetDevice_def)
  show ?thesis
  proof (cases "\<exists>dev. r = Inr (Some dev)")
    case True
    then obtain dev where r: "r = Inr (Some dev)" by blast
    show ?thesis
      unfolding d' r sum.case option.case
      using d1(3) [OF r] e1 r0
      by (intro driver_inv_update_topic [OF d1(1)]) (auto simp: entry_ok_def hardware_def)
  next
    case False
    then have "d' = update_topic t (\<lambda>e. e\<lparr>Dev := None\<rparr>) d1"
      by (auto simp: d' split: sum.splits option.splits)
    then show ?thesis
      by (simp add: driver_inv_update_topic [OF d1(1)] entry_ok_def)
  qed
qed

lemma driver_inv_new_entry:
  assumes inv: "driver_inv X S d" and "Dev e = None"
    and names: "index_at (split_on CHR ''/'' t) 2 = Inr (DeviceName e)"
      "index_at (split_on CHR ''/'' t) 4 = Inr (ControlName e)"
  shows "driver_inv X S (d\<lparr>topics := (topics d)(t \<mapsto> e)\<rparr>)"
proof -
  have "cache_ok X (d\<lparr>topics := (topics d)(t \<mapsto> e)\<rparr>)"
    using inv \<open>Dev e = None\<close> by (simp add: driver_inv_def cache_ok_def entry_ok_def)
  moreover have "names_ok (d\<lparr>topics := (topics d)(t \<mapsto> e)\<rparr>)"
    using inv names unfolding driver_inv_def names_ok_def by simp
  ultimately show ?thesis
    using inv by (simp add: driver_inv_def queue_ok_def cleanup_ok_fields)
qed

lemma storeReceivedValue_preserves:
  assumes inv: "driver_inv X S d" and run: "storeReceivedValue msg d = Inr d'"
  shows "driver_inv X S d'" "\<exists>e. topics d' (Topic msg) = Some e \<and> ReceivedValue e = Payload msg"
    "ready d' = ready d" "calls d' = calls d" "deviceMap d' = deviceMap d"
proof -
  have "driver_inv X S d' \<and> (\<exists>e. topics d' (Topic msg) = Some e \<and> ReceivedValue e = Payload msg) \<and>
    ready d' = ready d \<and> calls d' = calls d \<and> deviceMap d' = deviceMap d"
  proof (cases "topics d (Topic msg)")
    case None
    with run obtain e where
      d': "d' = d\<lparr>topics := (topics d)(Topic msg \<mapsto> e)\<rparr>" and
      e: "Dev e = None" "ReceivedValue e = Payload msg"
        "index_at (split_on CHR ''/'' (Topic msg)) 2 = Inr (DeviceName e)"
        "index_at (split_on CHR ''/'' (Topic msg)) 4 = Inr (ControlName e)"
      by (fastforce simp: storeReceivedValue_def Let_def)
    from driver_inv_new_entry [OF inv e(1,3,4)] e(2) show ?thesis
      by (simp add: d')
  next
    case (Some e)
    have "driver_inv X S (update_topic (Topic msg) (\<lambda>e. e\<lparr>ReceivedValue := Payload msg\<rparr>) d)"
    proof (rule driver_inv_update_topic [OF driver_inv_mono [OF inv]])
      fix e
      assume "Topic msg \<notin> X" "topics d (Topic msg) = Some e"
      with inv show "entry_ok (deviceMap d) (e\<lparr>ReceivedValue := Payload msg\<rparr>)"
        by (auto simp: driver_inv_def cache_ok_def entry_ok_def)
    qed auto
    with Some run show ?thesis by (auto simp: storeReceivedValue_def)
  qed
  then show "driver_inv X S d'" "\<exists>e. topics d' (Topic msg) = Some e \<and> ReceivedValue e = Payload msg"
    "ready d' = ready d" "calls d' = calls d" "deviceMap d' = deviceMap d"
    by auto
qed

lemma invoke_unit_preserves:
  assumes "driver_inv X S d" "invoke_unit E k a d = Inr d'" "user_call_ok k"
  shows "driver_inv X S d'"
proof -
  from assms(2) obtain u where "invoke E k a d = Inr (d', u)"
    by (auto simp: invoke_unit_def)
  from invoke_preserves(1) [OF assms(1) this assms(3)] show ?thesis .
qed

lemma deliverValue_preserves:
  assumes inv: "driver_inv {} S d" and run: "deliverValue E msg d = Inr d'"
  shows "driver_inv {} S d'"
proof -
  from run obtain e where e: "topics d (Topic msg) = Some e"
    by (auto simp: deliverValue_def split: option.splits)
  show ?thesis
  proof (cases "\<exists>dev. Dev e = Some dev \<and> \<not> Skip e")
    case False
    with run e inv show ?thesis
      by (auto simp: deliverValue_def split: option.splits if_splits)
  next
    case True
    then obtain dev where dev: "Dev e = Some dev" "\<not> Skip e" by blast
    with inv e have "\<not> hardware dev"
      by (auto simp: driver_inv_def cache_ok_def entry_ok_def)
    moreover from run e dev have
      "invoke_unit E (AcceptValue dev (ControlName e) (Payload msg))
         (env_AcceptValue E dev (ControlName e) (Payload msg)) d = Inr d'"
      by (auto simp: deliverValue_def)
    ultimately show ?thesis
      by (intro invoke_unit_preserves [OF inv]) auto
  qed
qed

lemma handleIncomingControlValue_preserves:
  assumes inv: "driver_inv {} S d" and run: "handleIncomingControlValue E msg d = Inr d'"
  shows "driver_inv {} S d'"
proof -
  from run obtain d1 e d2 where
    1: "storeReceivedValue msg d = Inr d1" and e: "topics d1 (Topic msg) = Some e" and
    2: "(if Dev e = None \<or> topicReady e \<noteq> ready d1
         then resolveTopicDevice E (Topic msg) e d1 else Inr d1) = Inr d2" and
    3: "deliverValue E msg d2 = Inr d'"
    by (auto simp: handleIncomingControlValue_def split: option.splits)
  note inv1 = storeReceivedValue_preserves(1) [OF inv 1]
  from 2 have "driver_inv {} S d2"
    using inv1 resolveTopicDevice_preserves [OF inv1 e] by (auto split: if_splits)
  then show ?thesis using 3 by (rule deliverValue_preserves)
qed

lemma handleIncomingControlOnValue_preserves:
  assumes inv: "driver_inv X S d" and run: "handleIncomingControlOnValue E msg d = Inr d'"
  shows "driver_inv X S d'"
proof (cases "deviceMap d (split_on CHR ''/'' (Topic msg) ! 2)")
  case None
  with run inv show ?thesis by (auto simp: handleIncomingControlOnValue_def Let_def)
next
  case (Some dev)
  with run obtain n d1 b where
    "invoke E (AcceptOnValue dev n (Payload msg)) (env_AcceptOnValue E dev n (Payload msg)) d
       = Inr (d1, b)"
    and d': "d' = step_if b (publishValue dev n (Payload msg)) d1"
    by (auto simp: handleIncomingControlOnValue_def Let_def split: if_splits)
  then have "driver_inv X S d1"
    using invoke_preserves [OF inv] by fastforce
  then show ?thesis
    unfolding d' by (rule step_if_preserves)
      (erule driver_inv_core, simp_all add: cleanup_ok_publishValue)
qed

text \<open>The other handlers call one method of an external device.\<close>

lemma with_external_preserves:
  assumes "driver_inv X S d" "with_external E n body d = Inr d'"
    and "\<And>dev d d'. driver_inv X S d \<Longrightarrow> body dev d = Inr d' \<Longrightarrow> driver_inv X S d'"
  shows "driver_inv X S d'"
proof -
  from assms(2) obtain d1 r where 1: "ensureExtDevice E n d = Inr (d1, r)"
    and 2: "(case r of Inr (Some dev) \<Rightarrow> body dev d1 | _ \<Rightarrow> Inr d1) = Inr d'"
    by (auto simp: with_external_def)
  from ensureExtDevice_preserves(1) [OF assms(1) 1] 2 assms(3) show ?thesis
    by (auto split: sum.splits option.splits)
qed

lemma handleDeviceTitle_preserves:
  assumes "driver_inv X S d" "handleDeviceTitle E msg d = Inr d'"
  shows "driver_inv X S d'"
proof -
  from assms(2) obtain n where
    "with_external E n (\<lambda>dev.
       invoke_unit E (DeviceSetTitle dev (Payload msg)) (env_SetTitle E dev (Payload msg))) d = Inr d'"
    by (auto simp: handleDeviceTitle_def)
  then show ?thesis
    by (rule with_external_preserves [OF assms(1)]) (erule invoke_unit_preserves, auto)
qed

lemma handleExternalControlType_preserves:
  assumes "driver_inv X S d" "handleExternalControlType E msg d = Inr d'"
  shows "driver_inv X S d'"
proof -
  from assms(2) obtain n c where
    "with_external E n (\<lambda>dev.
       invoke_unit E (AcceptControlType dev c (Payload msg))
         (env_AcceptControlType E dev c (Payload msg))) d = Inr d'"
    by (auto simp: handleExternalControlType_def Let_def)
  then show ?thesis
    by (rule with_external_preserves [OF assms(1)]) (erule invoke_unit_preserves, auto)
qed

lemma handleExternalControlMax_preserves:
  assumes "driver_inv X S d" "handleExternalControlMax E msg d = Inr d'"
  shows "driver_inv X S d'"
proof -
  from assms(2) obtain n c where
    "with_external E n (\<lambda>dev d.
        case env_ParseFloat E (Payload msg) of
          None \<Rightarrow> Inr d
        | Some maxv \<Rightarrow>
            invoke_unit E (AcceptControlRange dev c maxv)
              (env_AcceptControlRange E dev c maxv) d) d = Inr d'"
    by (auto simp: handleExternalControlMax_def Let_def)
  then show ?thesis
    by (rule with_external_preserves [OF assms(1)])
       (auto split: option.splits intro: invoke_unit_preserves)
qed

lemma run_handler_preserves:
  "driver_inv {} S d \<Longrightarrow> run_handler E h msg d = Inr d' \<Longrightarrow> driver_inv {} S d'"
  by (cases h)
     (auto intro: handleIncomingControlValue_preserves handleIncomingControlOnValue_preserves
        handleDeviceTitle_preserves handleExternalControlType_preserves
        handleExternalControlMax_preserves)

section \<open>Start, thunks and cleanup\<close>

lemma run_thunk_preserves: "driver_inv X S d \<Longrightarrow> run_thunk E t d = Inr d' \<Longrightarrow> driver_inv X S d'"
  by (auto simp: run_thunk_def dest: driver_inv_exec)

lemma run_thunks_preserves: "driver_inv X S d \<Longrightarrow> run_thunks E ts d = Inr d' \<Longrightarrow> driver_inv X S d'"
  by (induction ts arbitrary: d) (auto dest: run_thunk_preserves)

lemma core_subscribeExternal [simp]: "core (subscribeExternal d) = core d"
  by (simp add: subscribeExternal_def Let_def)

lemma subscribeExternal_preserves: "driver_inv X S d \<Longrightarrow> driver_inv X S (subscribeExternal d)"
  by (erule driver_inv_core) (simp_all add: subscribeExternal_def Let_def cleanup_ok_unretained)

lemma client_preserves:
  "driver_inv X S d \<Longrightarrow> call_messages k = [] \<Longrightarrow> call_ok (Client k) \<Longrightarrow> driver_inv X S (client k d)"
  by (erule driver_inv_core) (auto intro: cleanup_ok_client)

lemma Start_preserves:
  assumes inv: "driver_inv X S d" and run: "Start E d = Inr (d', err)"
  shows "driver_inv X S d'"
proof (cases "active d")
  case True
  with run inv show ?thesis by (simp add: Start_def)
next
  case False
  with run obtain d1 r where
    1: "invoke E ModelStart (env_Start E) (client MStart (d\<lparr>active := True\<rparr>)) = Inr (d1, r)" and
    2: "d' = (case r of Some e \<Rightarrow> d1 | None \<Rightarrow> step_if (acceptsExternalDevices d1) subscribeExternal d1)"
    by (auto simp: Start_def Let_def split: option.splits if_splits)
  have "driver_inv X S (client MStart (d\<lparr>active := True\<rparr>))"
    using inv by (intro client_preserves) auto
  from invoke_preserves(1) [OF this 1] have "driver_inv X S d1" by simp
  then show ?thesis
    unfolding 2 by (auto split: option.splits intro: step_if_preserves subscribeExternal_preserves)
qed

lemma PublishSync_preserves:
  assumes "driver_inv X S d" "t \<in> set (cleanupTopics d)"
  shows "driver_inv X S (client (MPublishSync \<lparr>Topic = t, Payload = p, QoS = q, Retained = b\<rparr>) d)"
  using assms by (elim driver_inv_core) (auto intro: cleanup_ok_client)

lemma client_calls_performCleanup:
  "client_calls (calls (performCleanup d)) = client_calls (calls d) @
     map (\<lambda>t. MPublishSync \<lparr>Topic = t, Payload = [], QoS = 1, Retained = True\<rparr>) (cleanupTopics d)"
proof -
  have "client_calls (calls (fold (\<lambda>t. client (f t)) ts d)) = client_calls (calls d) @ map f ts"
    for f ts and d :: "('m, 't) driver"
    by (induction ts arbitrary: d) (auto simp: client_def)
  then show ?thesis by (simp add: performCleanup_def)
qed

section \<open>No panic in a handler\<close>

text \<open>
  The model's own calls back can only fail by filling the event queue from the driver's
  goroutine.
\<close>

lemma WhenReady_Inl: "driver_inv X S d \<Longrightarrow> WhenReady t d = Inl e \<Longrightarrow> e = BlockedForever"
  by (auto simp: whenReady_executor driver_inv_def queue_ok_def CallSync_def split: option.splits if_splits)

lemma observe_Inl: "driver_inv X S d \<Longrightarrow> observe E c d = Inl e \<Longrightarrow> e = BlockedForever"
  by (cases c) (auto simp: bind_res_eq_Inl CallSync_def dest: WhenReady_Inl split: if_splits)

lemma exec_Inl: "driver_inv X S d \<Longrightarrow> exec E a d = Inl e \<Longrightarrow> e = BlockedForever"
proof (induction a arbitrary: d)
  case (Observer c k)
  show ?case
  proof (cases "observe E c d")
    case (Inl x)
    with Observer.prems observe_Inl [OF Observer.prems(1), of E c] show ?thesis by simp
  next
    case (Inr p)
    obtain d1 s where p: "p = (d1, s)" by (cases p)
    with Observer.prems Inr driver_inv_observe [OF Observer.prems(1)] have
      "driver_inv X S d1" "exec E (k s) d1 = Inl e" by auto
    with Observer.IH show ?thesis by blast
  qed
qed simp

lemma invoke_Inl:
  assumes "driver_inv X S d" "user_call_ok k" "invoke E k a d = Inl e"
  shows "e = BlockedForever"
  using exec_Inl [OF driver_inv_calls [OF assms(1,2)]] assms(3) by (simp add: invoke_def)

lemma invoke_unit_Inl:
  assumes "driver_inv X S d" "user_call_ok k" "invoke_unit E k a d = Inl e"
  shows "e = BlockedForever"
  using invoke_Inl [OF assms(1,2)] assms(3) by (auto simp: invoke_unit_def bind_res_eq_Inl)

text \<open>
  The assertion \<open>drv.model.(ExtendedModel)\<close> fails: a driver that accepts external devices, whose
  model does not implement the interface, asks for a device that is not registered.
\<close>

definition no_extended_model :: "('m, 't) env \<Rightarrow> string \<Rightarrow> ('m, 't) driver \<Rightarrow> abort \<Rightarrow> bool" where
  "no_extended_model E n d e \<longleftrightarrow> e = TypeAssertion \<and> acceptsExternalDevices d \<and>
     env_AddExternalDevice E = None \<and> deviceMap d n = None"

lemma no_extended_model_update_topic [simp]:
  "no_extended_model E n (update_topic t f d) e = no_extended_model E n d e"
  by (simp add: no_extended_model_def update_topic_def)

lemma ensureDevice_Inl:
  assumes "driver_inv X S d" "ensureDevice E n d = Inl e"
  shows "e = BlockedForever \<or> no_extended_model E n d e"
  using assms invoke_Inl [OF assms(1), of "AddExternalDevice n"]
  by (auto simp: ensureDevice_def no_extended_model_def bind_res_eq_Inl split: option.splits if_splits)

lemma ensureExtDevice_Inl:
  assumes "driver_inv X S d" "ensureExtDevice E n d = Inl e"
  shows "e = BlockedForever \<or> no_extended_model E n d e"
  using ensureDevice_Inl [OF assms(1)] assms(2)
  by (auto simp: ensureExtDevice_def bind_res_eq_Inl)

lemma lookupTopicDevice_Inl:
  assumes "driver_inv X S d" "lookupTopicDevice E n d = Inl e"
  shows "e = BlockedForever \<or> no_extended_model E n d e"
  using ensureDevice_Inl [OF assms(1)] ensureExtDevice_Inl [OF assms(1)] assms(2)
  by (auto simp: lookupTopicDevice_def bind_res_eq_Inl split: if_splits)


text \<open>
  A message reaches a handler only through a filter the handler was subscribed under. The filters
  of device and control names are those of the user: a name with a level \<open>#\<close> would match topics
  of any length, and is excluded here.
\<close>

definition deliverable :: "handler mqtt_call list \<Rightarrow> handler \<Rightarrow> string \<Rightarrow> bool" where
  "deliverable ks h t \<longleftrightarrow>
     (\<exists>ts pat. MSubscribe h ts \<in> set ks \<and> pat \<in> set ts \<and>
        ''#'' \<notin> set (split_on CHR ''/'' pat) \<and> topicMatch pat t)"

lemma calls_ok_subscribe:
  "calls_ok d \<Longrightarrow> MSubscribe h ts \<in> set (client_calls (calls d)) \<Longrightarrow> good_filter h ts"
proof -
  have "client_call k = [MSubscribe h ts] \<Longrightarrow> call_ok k \<Longrightarrow> good_filter h ts" for k
    by (cases k) auto
  moreover have "client_call k = [] \<or> (\<exists>c. client_call k = [c])" for k
    by (cases k) auto
  ultimately show "calls_ok d \<Longrightarrow> MSubscribe h ts \<in> set (client_calls (calls d)) \<Longrightarrow> good_filter h ts"
    by (auto simp: calls_ok_def list_all_iff client_calls_def) (metis empty_iff empty_set list.set_cases set_ConsD)
qed

lemma length_controlTopic: "6 \<le> length (split_on CHR ''/'' (controlTopic dev c [s]))"
  by (simp add: controlTopic_def topic_def length_split_on)

lemma good_filter_length:
  assumes "good_filter h ts" "pat \<in> set ts"
  shows "4 < length (split_on CHR ''/'' pat)"
proof (cases "h = HandleIncomingControlOnValue")
  case True
  with assms obtain dev c where "pat = controlTopic dev c [''on'']"
    by (auto simp: good_filter.simps(5))
  with length_controlTopic [of dev c "''on''"] show ?thesis by simp
next
  case False
  with assms show ?thesis by (cases h) auto
qed

lemma deliverable_length:
  assumes "driver_inv X S d" "deliverable (client_calls (calls d)) h t"
  shows "4 < length (split_on CHR ''/'' t)"
proof -
  from assms(2) obtain ts pat where
    sub: "MSubscribe h ts \<in> set (client_calls (calls d))" and pat: "pat \<in> set ts"
    "''#'' \<notin> set (split_on CHR ''/'' pat)" "topicMatch pat t"
    unfolding deliverable_def by blast
  from sub assms(1) have "good_filter h ts"
    by (auto simp: driver_inv_def intro: calls_ok_subscribe)
  with pat show ?thesis
    by (simp add: good_filter_length topicMatch_length)
qed

lemma with_external_Inl:
  assumes "driver_inv X S d" "with_external E n body d = Inl e"
    and "\<And>dev d e. driver_inv X S d \<Longrightarrow> body dev d = Inl e \<Longrightarrow> e = BlockedForever"
  shows "e = BlockedForever \<or> no_extended_model E n d e"
proof (cases "ensureExtDevice E n d")
  case (Inl x)
  with assms(2) ensureExtDevice_Inl [OF assms(1) Inl] show ?thesis by (simp add: with_external_def)
next
  case (Inr p)
  obtain d1 r where p: "p = (d1, r)" by (cases p)
  from ensureExtDevice_preserves(1) [OF assms(1)] Inr p have "driver_inv X S d1" by blast
  with assms(2,3) Inr p show ?thesis
    by (auto simp: with_external_def split: sum.splits option.splits)
qed

lemma resolveTopicDevice_Inl:
  assumes "driver_inv X S d" "resolveTopicDevice E t e d = Inl x"
  shows "x = BlockedForever \<or> no_extended_model E (DeviceName e) d x"
proof -
  let ?d0 = "update_topic t (\<lambda>e. e\<lparr>topicReady := ready d\<rparr>) d"
  have "driver_inv (insert t X) S ?d0"
    by (rule driver_inv_update_topic [OF driver_inv_mono [OF assms(1)]]) auto
  moreover have "lookupTopicDevice E (DeviceName e) ?d0 = Inl x"
    using assms(2) by (auto simp: resolveTopicDevice_def bind_res_eq_Inl)
  ultimately have "x = BlockedForever \<or> no_extended_model E (DeviceName e) ?d0 x"
    by (rule lookupTopicDevice_Inl)
  then show ?thesis by simp
qed

lemma resolveTopicDevice_keeps:
  assumes inv: "driver_inv X S d" and e: "topics d t = Some e"
    and run: "resolveTopicDevice E t e d = Inr d'"
  shows "\<exists>e'. topics d' t = Some e'"
proof -
  let ?d0 = "update_topic t (\<lambda>e. e\<lparr>topicReady := ready d\<rparr>) d"
  have inv0: "driver_inv (insert t X) S ?d0"
    by (rule driver_inv_update_topic [OF driver_inv_mono [OF inv]]) auto
  from run obtain d1 r where
    look: "lookupTopicDevice E (DeviceName e) ?d0 = Inr (d1, r)" and
    "d' = (case r of
             Inr (Some dev) \<Rightarrow>
               update_topic t (\<lambda>e. e\<lparr>Dev := Some dev, Skip := is_local dev \<and> \<not> is_virtual dev\<rparr>) d1
           | _ \<Rightarrow> update_topic t (\<lambda>e. e\<lparr>Dev := None\<rparr>) d1)"
    by (auto simp: resolveTopicDevice_def)
  then obtain f where d': "d' = update_topic t f d1"
    by (auto split: sum.splits option.splits)
  have "topics ?d0 t = Some (e\<lparr>topicReady := ready d\<rparr>)"
    using e by simp
  from evolves_topic [OF lookupTopicDevice_preserves(2) [OF inv0 look] this]
  show ?thesis by (auto simp: d')
qed

lemma handleIncomingControlValue_Inl:
  assumes inv: "driver_inv {} S d" and len: "4 < length (split_on CHR ''/'' (Topic msg))"
    and run: "handleIncomingControlValue E msg d = Inl x"
  shows "x = BlockedForever \<or> no_extended_model E (split_on CHR ''/'' (Topic msg) ! 2) d x"
proof -
  from len obtain d1 where 1: "storeReceivedValue msg d = Inr d1"
    by (cases "topics d (Topic msg)") (auto simp: storeReceivedValue_def Let_def index_at_def)
  note s = storeReceivedValue_preserves [OF inv 1]
  from s(2) obtain e where e: "topics d1 (Topic msg) = Some e" by blast
  have ext1: "no_extended_model E n d1 y = no_extended_model E n d y" for n y
    using 1 by (auto simp: no_extended_model_def storeReceivedValue_def update_topic_def Let_def
        bind_res_eq_Inr split: option.splits)
  have name: "DeviceName e = split_on CHR ''/'' (Topic msg) ! 2"
    using s(1) e len by (auto simp: driver_inv_def cache_ok_def names_ok_def index_at_def split: if_splits)
  let ?step = "if Dev e = None \<or> topicReady e \<noteq> ready d1
    then resolveTopicDevice E (Topic msg) e d1 else Inr d1"
  show ?thesis
  proof (cases ?step)
    case (Inl y)
    then have "resolveTopicDevice E (Topic msg) e d1 = Inl y" by (auto split: if_splits)
    from resolveTopicDevice_Inl [OF s(1) this]
    have "y = BlockedForever \<or> no_extended_model E (DeviceName e) d y" unfolding ext1 .
    moreover from run 1 e Inl have "x = y" by (simp add: handleIncomingControlValue_def)
    ultimately show ?thesis by (simp add: name)
  next
    case (Inr d2)
    then obtain e2 where e2: "topics d2 (Topic msg) = Some e2"
      using resolveTopicDevice_keeps [OF s(1) e] e by (auto split: if_splits)
    from Inr have inv2: "driver_inv {} S d2"
      using s(1) resolveTopicDevice_preserves [OF s(1) e] by (auto split: if_splits)
    with e2 have "\<not> hardware dev" if "Dev e2 = Some dev" "\<not> Skip e2" for dev
      using that by (auto simp: driver_inv_def cache_ok_def entry_ok_def)
    moreover from run 1 e Inr have "deliverValue E msg d2 = Inl x"
      by (simp add: handleIncomingControlValue_def)
    ultimately show ?thesis
      using e2
      by (auto simp: deliverValue_def split: option.splits if_splits
          elim!: invoke_unit_Inl [OF inv2, rotated])
  qed
qed

lemma handleIncomingControlOnValue_Inl:
  assumes inv: "driver_inv X S d" and len: "4 < length (split_on CHR ''/'' (Topic msg))"
    and run: "handleIncomingControlOnValue E msg d = Inl x"
  shows "x = BlockedForever \<or> x = TypeAssertion \<and>
    (\<exists>dev. deviceMap d (split_on CHR ''/'' (Topic msg) ! 2) = Some dev \<and> \<not> is_local dev)"
proof -
  let ?parts = "split_on CHR ''/'' (Topic msg)"
  have idx: "index_at ?parts 2 = Inr (?parts ! 2)" "index_at ?parts 4 = Inr (?parts ! 4)"
    using len by simp_all
  show ?thesis
  proof (cases "deviceMap d (?parts ! 2)")
    case None
    with run idx show ?thesis by (simp add: handleIncomingControlOnValue_def)
  next
    case (Some dev)
    show ?thesis
    proof (cases "is_local dev")
      case True
      with run idx Some have
        "invoke E (AcceptOnValue dev (?parts ! 4) (Payload msg))
           (env_AcceptOnValue E dev (?parts ! 4) (Payload msg)) d = Inl x"
        by (auto simp: handleIncomingControlOnValue_def bind_res_eq_Inl Let_def)
      from invoke_Inl [OF inv _ this] show ?thesis by simp
    next
      case False
      with run idx Some show ?thesis by (simp add: handleIncomingControlOnValue_def)
    qed
  qed
qed

lemma external_handlers_Inl:
  fixes E :: "('m, 't) env" and d :: "('m, 't) driver"
  assumes inv: "driver_inv X S d" and len: "4 < length (split_on CHR ''/'' (Topic msg))"
  defines "died \<equiv> \<lambda>x. x = BlockedForever \<or> no_extended_model E (split_on CHR ''/'' (Topic msg) ! 2) d x"
  shows "handleDeviceTitle E msg d = Inl x \<Longrightarrow> died x"
    "handleExternalControlType E msg d = Inl x \<Longrightarrow> died x"
    "handleExternalControlMax E msg d = Inl x \<Longrightarrow> died x"
proof -
  let ?parts = "split_on CHR ''/'' (Topic msg)"
  have idx: "index_at ?parts 2 = Inr (?parts ! 2)" "index_at ?parts 4 = Inr (?parts ! 4)"
    using len by simp_all
  show "handleDeviceTitle E msg d = Inl x \<Longrightarrow> died x"
    unfolding died_def handleDeviceTitle_def idx bind_res.simps
    by (erule with_external_Inl [OF inv]) (erule invoke_unit_Inl [rotated 2], auto)
  show "handleExternalControlType E msg d = Inl x \<Longrightarrow> died x"
    unfolding died_def handleExternalControlType_def Let_def idx bind_res.simps
    by (erule with_external_Inl [OF inv]) (erule invoke_unit_Inl [rotated 2], auto)
  show "handleExternalControlMax E msg d = Inl x \<Longrightarrow> died x"
    unfolding died_def handleExternalControlMax_def Let_def idx bind_res.simps
    by (erule with_external_Inl [OF inv])
       (auto split: option.splits elim!: invoke_unit_Inl [rotated 2])
qed

lemma run_handler_Inl:
  assumes inv: "driver_inv {} S d"
    and "deliverable (client_calls (calls d)) h (Topic msg)" and run: "run_handler E h msg d = Inl x"
  defines "n \<equiv> split_on CHR ''/'' (Topic msg) ! 2"
  shows "x = BlockedForever \<or>
    h = HandleIncomingControlOnValue \<and> x = TypeAssertion \<and>
      (\<exists>dev. deviceMap d n = Some dev \<and> \<not> is_local dev) \<or>
    h \<noteq> HandleIncomingControlOnValue \<and> no_extended_model E n d x"
proof -
  note len = deliverable_length [OF inv assms(2)]
  show ?thesis
    using run external_handlers_Inl [OF inv len] handleIncomingControlValue_Inl [OF inv len]
      handleIncomingControlOnValue_Inl [OF inv len]
    unfolding n_def by (cases h) auto
qed

end
