(* ===== verification/Driver_Growth.thy ===== *)
theory Driver_Growth
  imports Driver_Handlers
begin

text \<open>
  What the driver's operations add: calls are only ever appended, cleanup topics and a \<open>whenReady\<close>
  that has fired stay; and which methods of the user's code a handler may call, on which devices.
\<close>

definition grows :: "(call \<Rightarrow> bool) \<Rightarrow> ('m, 't) driver \<Rightarrow> ('m, 't) driver \<Rightarrow> bool" where
  "grows P d d' \<longleftrightarrow>
     (\<exists>ks. calls d' = calls d @ ks \<and> list_all P ks) \<and>
     set (cleanupTopics d) \<subseteq> set (cleanupTopics d') \<and>
     (fns (whenReady d) = None \<longrightarrow> fns (whenReady d') = None)"

lemma grows_refl [simp]: "grows P d d"
  by (simp add: grows_def)

lemma grows_trans: "grows P d d1 \<Longrightarrow> grows P d1 d2 \<Longrightarrow> grows P d d2"
  unfolding grows_def by (elim conjE exE) (auto intro: exI [of _ "_ @ _"])

lemma grows_mono: "grows P d d' \<Longrightarrow> (\<And>k. P k \<Longrightarrow> Q k) \<Longrightarrow> grows Q d d'"
  unfolding grows_def by (fastforce simp: list_all_iff)

lemma grows_step_if: "grows P d d1 \<Longrightarrow> (\<And>d. grows P d (f d)) \<Longrightarrow> grows P d (step_if b f d1)"
  by (cases b) (auto intro: grows_trans)

lemma grows_if: "(b \<Longrightarrow> grows P d x) \<Longrightarrow> (\<not> b \<Longrightarrow> grows P d y) \<Longrightarrow> grows P d (if b then x else y)"
  by simp

lemma grows_fold: "(\<And>x d. grows P d (f x d)) \<Longrightarrow> grows P d (fold f xs d)"
  by (induction xs arbitrary: d) (auto intro: grows_trans)

lemma grows_call: "P k \<Longrightarrow> grows P d (d\<lparr>calls := calls d @ [k]\<rparr>)"
  by (simp add: grows_def)

text \<open>
  The calls an operation of the driver makes itself. Only \<open>Start\<close> and the quit branch of the loop
  start and stop the client.
\<close>

fun own_call :: "call \<Rightarrow> bool" where
  "own_call (Client MStart) = False"
| "own_call (Client MStop) = False"
| "own_call (Client k) = True"
| "own_call (Observe dev) = True"
| "own_call _ = False"

abbreviation grows_own :: "('m, 't) driver \<Rightarrow> ('m, 't) driver \<Rightarrow> bool" where
  "grows_own \<equiv> grows own_call"

lemma grows_client: "P (Client k) \<Longrightarrow> grows P d (client k d)"
  by (simp add: client_def grows_call)

lemma grows_fields [simp]:
  "grows P d (d\<lparr>controlList := l\<rparr>)" "grows P d (d\<lparr>nextOrder := o'\<rparr>)"
  "grows P d (d\<lparr>deviceMap := dm\<rparr>)" "grows P d (d\<lparr>retainMap := r\<rparr>)"
  "grows P d (d\<lparr>topics := tp\<rparr>)" "grows P d (d\<lparr>eventCh := q\<rparr>)"
  "grows P d (d\<lparr>model := m\<rparr>)" "grows P d (d\<lparr>active := b\<rparr>)" "grows P d (d\<lparr>ready := b\<rparr>)"
  "grows P d (d\<lparr>handleMessageCh := q'\<rparr>)"
  by (simp_all add: grows_def)

lemma grows_addCleanupTopic: "grows P d (addCleanupTopic t d)"
  by (auto simp: grows_def addCleanupTopic_def)

lemma grows_publish:
  "grows_own d (publish t p q r d)" "grows_own d (publishMeta t p d)"
  "grows_own d (publishValue dev n v d)" "grows_own d (publishOnValue dev n v d)"
  "grows_own d (subscribe h ts d)"
proof -
  show pub: "grows_own d (publish t p q r d)" for t p q r and d :: "('a, 'b) driver"
    by (simp add: publish_def grows_client)
  show "grows_own d (publishMeta t p d)"
    unfolding publishMeta_def by (rule grows_trans [OF pub grows_addCleanupTopic])
  show "grows_own d (publishValue dev n v d)"
    by (simp add: publishValue_def Let_def pub)
qed (simp_all add: publishOnValue_def subscribe_def grows_client)

lemma grows_bumpOrder: "grows P d (bumpOrder n i d)"
  by (simp add: bumpOrder_def)

lemma grows_publishControlMeta: "grows_own d (publishControlMeta E dev c i d)"
  unfolding publishControlMeta_def Let_def
  by (intro grows_step_if grows_if grows_trans [OF _ grows_publish(2)] grows_publish(2) grows_refl)

lemma grows_OnNewControl: "grows_own d (fst (OnNewControl E dev c d))"
  unfolding OnNewControl_def Let_def fst_conv
  by (intro grows_trans [OF _ grows_addCleanupTopic] grows_trans [OF _ grows_fields(1)]
      grows_step_if grows_publish grows_trans [OF _ grows_fields(4)]
      grows_trans [OF _ grows_bumpOrder] grows_publishControlMeta)

lemma grows_clear: "grows P d (clearTopicDevCache d)"
  by (simp add: clearTopicDevCache_def)

lemma grows_RemoveDevice: "grows_own d (RemoveDevice dev d)"
proof -
  have un: "grows_own d (unsubscribeControls dev' ns d)" for dev' ns and d :: "('a, 'b) driver"
    unfolding unsubscribeControls_def by (rule grows_fold) (simp add: grows_client)
  have upd: "grows_own d (d1\<lparr>deviceMap := a, nextOrder := b, controlList := c\<rparr>)"
    if "grows_own d d1" for d1 a b c
    using that by (simp add: grows_def)
  show ?thesis
    by (auto simp: RemoveDevice_alt Let_def grows_clear split: option.splits
        intro!: upd grows_step_if un)
qed

lemma grows_OnNewDevice: "grows_own d (OnNewDevice dev d)"
proof -
  have obs: "grows_own d (d1\<lparr>calls := calls d1 @ [Observe dev]\<rparr>)" if "grows_own d d1" for d1
    by (rule grows_trans [OF that]) (simp add: grows_call)
  have pub: "grows_own d (publishMeta t p (d\<lparr>nextOrder := a, controlList := b\<rparr>))"
    for t p a b and d :: "('a, 'b) driver"
    by (rule grows_trans [OF _ grows_publish(2)]) (simp add: grows_def)
  show ?thesis
    unfolding OnNewDevice_alt Let_def
    by (intro obs grows_step_if pub grows_trans [OF _ grows_fields(3)]
        grows_trans [OF grows_clear grows_RemoveDevice])
qed

lemma grows_CallSync: "CallSync t d = Inr d' \<Longrightarrow> grows P d d'"
  by (auto simp: CallSync_def split: if_splits)

lemma grows_WhenReady: "WhenReady t d = Inr d' \<Longrightarrow> grows P d d'"
  by (auto simp: WhenReady_def MaybeDefer_def CallSync_def grows_def split: option.splits if_splits)

lemma grows_observe: "observe E c d = Inr (d', s) \<Longrightarrow> grows_own d d'"
proof (cases c)
  case (OnNewControlCall dev ctl)
  assume "observe E c d = Inr (d', s)"
  then show ?thesis
    using OnNewControlCall grows_OnNewControl [of d E dev ctl] by simp
qed (auto simp: OnValue_def OnError_def intro: grows_OnNewDevice grows_RemoveDevice grows_publish
      grows_CallSync grows_WhenReady)

lemma grows_exec: "exec E a d = Inr (d', r) \<Longrightarrow> grows_own d d'"
proof (induction a arbitrary: d)
  case (Observer c k)
  then show ?case
    by (auto split: prod.splits) (metis grows_observe grows_trans rangeI)
qed auto

lemma grows_invoke:
  assumes "invoke E k a d = Inr (d', r)" "P k" "\<And>k. own_call k \<Longrightarrow> P k"
  shows "grows P d d'"
proof -
  from assms(1) have "grows_own (d\<lparr>calls := calls d @ [k]\<rparr>) d'"
    by (auto simp: invoke_def intro: grows_exec)
  then have "grows P (d\<lparr>calls := calls d @ [k]\<rparr>) d'"
    using assms(3) by (rule grows_mono)
  with grows_call [of P k d] assms(2) show ?thesis by (blast intro: grows_trans)
qed

lemma grows_invoke_unit:
  assumes "invoke_unit E k a d = Inr d'" "P k" "\<And>k. own_call k \<Longrightarrow> P k"
  shows "grows P d d'"
proof -
  from assms(1) obtain u where "invoke E k a d = Inr (d', u)"
    by (auto simp: invoke_unit_def)
  from grows_invoke [of E k a d d' u P, OF this assms(2,3)] show ?thesis .
qed

lemma grows_run_thunk: "run_thunk E t d = Inr d' \<Longrightarrow> grows_own d d'"
  by (auto simp: run_thunk_def intro: grows_exec)

lemma grows_run_thunks: "run_thunks E ts d = Inr d' \<Longrightarrow> grows_own d d'"
  by (induction ts arbitrary: d) (auto dest: grows_run_thunk intro: grows_trans)

section \<open>What a message makes the driver do\<close>

text \<open>
  A message handler calls the client, \<open>AddExternalDevice\<close>, \<open>AcceptOnValue\<close> on local devices, the
  methods of \<open>ExternalDeviceModel\<close> on external devices, and \<open>AcceptValue\<close> on devices without
  hardware behind them; once the driver is ready (\<open>r\<close>), \<open>AcceptValue\<close> on external devices only.
\<close>

fun handler_call :: "bool \<Rightarrow> call \<Rightarrow> bool" where
  "handler_call r (AcceptValue dev n v) \<longleftrightarrow> \<not> hardware dev \<and> (r \<longrightarrow> is_external dev)"
| "handler_call r (AcceptOnValue dev n v) \<longleftrightarrow> is_local dev"
| "handler_call r (DeviceSetTitle dev v) \<longleftrightarrow> is_external dev"
| "handler_call r (AcceptControlType dev n v) \<longleftrightarrow> is_external dev"
| "handler_call r (AcceptControlRange dev n v) \<longleftrightarrow> is_external dev"
| "handler_call r (AddExternalDevice n) \<longleftrightarrow> True"
| "handler_call r (Client k) \<longleftrightarrow> own_call (Client k)"
| "handler_call r (Observe dev) \<longleftrightarrow> True"
| "handler_call r ModelObserve \<longleftrightarrow> False"
| "handler_call r ModelStart \<longleftrightarrow> False"
| "handler_call r ModelStop \<longleftrightarrow> False"
| "handler_call r ModelPoll \<longleftrightarrow> False"

lemma own_handler_call: "own_call k \<Longrightarrow> handler_call r k"
  by (cases k) auto

lemmas grows_handler_own = grows_mono [OF _ own_handler_call]

lemma ensureDevice_cases:
  assumes "ensureDevice E n d = Inr (d', r)"
  obtains "d' = d"
  | f d1 r1 where "env_AddExternalDevice E = Some f"
      "invoke E (AddExternalDevice n) (f n) d = Inr (d1, r1)"
      "d' = d1 \<or> (\<exists>dev. d' = d1\<lparr>deviceMap := (deviceMap d1)(n \<mapsto> dev)\<rparr>)"
proof (cases "deviceMap d n = None \<and> acceptsExternalDevices d")
  case False
  with assms show thesis
    by (intro that(1)) (auto simp: ensureDevice_def split: option.splits)
next
  case True
  with assms obtain f d1 r1 where
    f: "env_AddExternalDevice E = Some f" "invoke E (AddExternalDevice n) (f n) d = Inr (d1, r1)"
    and "(case r1 of Inl err \<Rightarrow> Inr (d1, Inl err)
          | Inr dev \<Rightarrow> Inr (d1\<lparr>deviceMap := (deviceMap d1)(n \<mapsto> dev)\<rparr>, Inr dev))
        = (Inr (d', r) :: (('a, 'b) driver \<times> (string + device)) res)"
    by (auto simp: ensureDevice_def split: option.splits)
  then show thesis
    by (intro that(2) [OF f]) (cases r1, auto)
qed

lemma grows_ensureDevice:
  assumes "ensureDevice E n d = Inr (d', r)"
  shows "grows (handler_call b) d d'"
  using assms
proof (cases rule: ensureDevice_cases)
  case (2 f d1 r1)
  then have "grows (handler_call b) d d1"
    by (intro grows_invoke) (auto intro: own_handler_call)
  with 2 show ?thesis by (auto intro: grows_trans)
qed simp

lemma grows_ensureExtDevice:
  "ensureExtDevice E n d = Inr (d', r) \<Longrightarrow> grows (handler_call b) d d'"
  by (erule ensureExtDevice_Inr) (rule grows_ensureDevice)

lemma grows_lookupTopicDevice:
  "lookupTopicDevice E n d = Inr (d', r) \<Longrightarrow> grows (handler_call b) d d'"
  by (auto simp: lookupTopicDevice_def intro: grows_ensureDevice grows_ensureExtDevice split: if_splits)

lemma grows_update_topic [simp]: "grows P d (update_topic t f d)"
  by (simp add: update_topic_def)

lemma grows_with_external:
  assumes "with_external E n body d = Inr d'"
    and "\<And>dev d d'. is_external dev \<Longrightarrow> body dev d = Inr d' \<Longrightarrow> grows (handler_call b) d d'"
  shows "grows (handler_call b) d d'"
proof -
  from assms(1) obtain d1 r where 1: "ensureExtDevice E n d = Inr (d1, r)"
    and 2: "(case r of Inr (Some dev) \<Rightarrow> body dev d1 | _ \<Rightarrow> Inr d1) = Inr d'"
    by (auto simp: with_external_def)
  from grows_ensureExtDevice [OF 1] have "grows (handler_call b) d d1" .
  moreover from 2 have "d' = d1 \<or> (\<exists>dev. r = Inr (Some dev) \<and> body dev d1 = Inr d')"
    by (auto split: sum.splits option.splits)
  moreover from 1 have "r = Inr (Some dev) \<Longrightarrow> is_external dev" for dev
    by (erule_tac ensureExtDevice_Inr) blast
  ultimately show ?thesis
    using assms(2) by (blast intro: grows_trans)
qed

lemma grows_external_call:
  "invoke_unit E k a d = Inr d' \<Longrightarrow> handler_call b k \<Longrightarrow> grows (handler_call b) d d'"
  by (erule grows_invoke_unit) (auto intro: own_handler_call)

lemma grows_handleDeviceTitle:
  "handleDeviceTitle E msg d = Inr d' \<Longrightarrow> grows (handler_call b) d d'"
  by (auto simp: handleDeviceTitle_def elim!: grows_with_external grows_external_call)

lemma grows_handleExternalControlType:
  "handleExternalControlType E msg d = Inr d' \<Longrightarrow> grows (handler_call b) d d'"
  by (auto simp: handleExternalControlType_def Let_def elim!: grows_with_external grows_external_call)

lemma grows_handleExternalControlMax:
  "handleExternalControlMax E msg d = Inr d' \<Longrightarrow> grows (handler_call b) d d'"
  by (auto simp: handleExternalControlMax_def Let_def elim!: grows_with_external grows_external_call
      split: option.splits)

lemma grows_handleIncomingControlOnValue:
  assumes "handleIncomingControlOnValue E msg d = Inr d'"
  shows "grows (handler_call b) d d'"
proof (cases "deviceMap d (split_on CHR ''/'' (Topic msg) ! 2)")
  case None
  with assms show ?thesis by (auto simp: handleIncomingControlOnValue_def Let_def)
next
  case (Some dev)
  with assms obtain n d1 echo where
    1: "invoke E (AcceptOnValue dev n (Payload msg)) (env_AcceptOnValue E dev n (Payload msg)) d
       = Inr (d1, echo)" and dev: "is_local dev"
    and d': "d' = step_if echo (publishValue dev n (Payload msg)) d1"
    by (auto simp: handleIncomingControlOnValue_def Let_def split: if_splits)
  from 1 dev have "grows (handler_call b) d d1"
    by (intro grows_invoke) (auto intro: own_handler_call)
  then show ?thesis
    unfolding d' by (rule grows_step_if) (rule grows_handler_own [OF grows_publish(3)])
qed

lemma storeReceivedValue_entry:
  assumes "storeReceivedValue msg d = Inr d'"
  shows "d' = d\<lparr>topics := topics d'\<rparr>"
  using assms by (auto simp: storeReceivedValue_def update_topic_def Let_def split: option.splits)

lemma resolveTopicDevice_Inr:
  assumes "resolveTopicDevice E t e d = Inr d'"
  obtains d1 r f where
    "lookupTopicDevice E (DeviceName e) (update_topic t (\<lambda>e. e\<lparr>topicReady := ready d\<rparr>) d) = Inr (d1, r)"
    "d' = update_topic t f d1" "\<And>x dev. Dev (f x) = Some dev \<Longrightarrow> r = Inr (Some dev)"
    "\<And>x. ReceivedValue (f x) = ReceivedValue x"
proof -
  from assms obtain d1 r where
    look: "lookupTopicDevice E (DeviceName e)
      (update_topic t (\<lambda>e. e\<lparr>topicReady := ready d\<rparr>) d) = Inr (d1, r)" and
    d': "d' = (case r of
             Inr (Some dev) \<Rightarrow>
               update_topic t (\<lambda>e. e\<lparr>Dev := Some dev, Skip := is_local dev \<and> \<not> is_virtual dev\<rparr>) d1
           | _ \<Rightarrow> update_topic t (\<lambda>e. e\<lparr>Dev := None\<rparr>) d1)"
    by (auto simp: resolveTopicDevice_def)
  show thesis
  proof (cases "\<exists>dev. r = Inr (Some dev)")
    case True
    then obtain dev where r: "r = Inr (Some dev)" by blast
    with d' show thesis
      by (intro that [OF look,
            of "\<lambda>e. e\<lparr>Dev := Some dev, Skip := is_local dev \<and> \<not> is_virtual dev\<rparr>"]) auto
  next
    case False
    with d' have "d' = update_topic t (\<lambda>e. e\<lparr>Dev := None\<rparr>) d1"
      by (auto split: sum.splits option.splits)
    then show thesis by (intro that [OF look, of "\<lambda>e. e\<lparr>Dev := None\<rparr>"]) auto
  qed
qed

lemma resolveTopicDevice_effect:
  assumes inv: "driver_inv X S d" and e: "topics d t = Some e"
    and run: "resolveTopicDevice E t e d = Inr d'"
  shows "grows (handler_call b) d d' \<and>
    (\<exists>e'. topics d' t = Some e' \<and> (\<forall>dev. Dev e' = Some dev \<longrightarrow> ready d \<longrightarrow> is_external dev))"
proof -
  let ?d0 = "update_topic t (\<lambda>e. e\<lparr>topicReady := ready d\<rparr>) d"
  have inv0: "driver_inv (insert t X) S ?d0"
    by (rule driver_inv_update_topic [OF driver_inv_mono [OF inv]]) auto
  from run obtain d1 r f where
    look: "lookupTopicDevice E (DeviceName e) ?d0 = Inr (d1, r)" and d': "d' = update_topic t f d1"
    and "\<And>x dev. Dev (f x) = Some dev \<Longrightarrow> r = Inr (Some dev)"
    by (erule_tac resolveTopicDevice_Inr) blast
  with lookupTopicDevice_preserves(3) [OF inv0 look]
  have f: "Dev (f x) = Some dev \<Longrightarrow> ready d \<Longrightarrow> is_external dev" for x dev
    by (auto simp: update_topic_def)
  have "topics ?d0 t = Some (e\<lparr>topicReady := ready d\<rparr>)"
    using e by simp
  from evolves_topic [OF lookupTopicDevice_preserves(2) [OF inv0 look] this]
  have "\<exists>e'. topics d' t = Some e' \<and> (\<forall>dev. Dev e' = Some dev \<longrightarrow> ready d \<longrightarrow> is_external dev)"
    using f by (auto simp: d')
  moreover have "grows (handler_call b) d d'"
    unfolding d'
    by (rule grows_trans [OF grows_update_topic
          grows_trans [OF grows_lookupTopicDevice [OF look] grows_update_topic]])
  ultimately show ?thesis by blast
qed

lemma grows_deliverValue:
  assumes inv: "driver_inv {} S d" and e: "topics d (Topic msg) = Some e"
    and ext: "\<And>dev. Dev e = Some dev \<Longrightarrow> b \<Longrightarrow> is_external dev"
    and run: "deliverValue E msg d = Inr d'"
  shows "grows (handler_call b) d d'"
proof (cases "\<exists>dev. Dev e = Some dev \<and> \<not> Skip e")
  case False
  with run e show ?thesis by (auto simp: deliverValue_def split: option.splits)
next
  case True
  then obtain dev where dev: "Dev e = Some dev" "\<not> Skip e" by blast
  with inv e have "\<not> hardware dev"
    by (auto simp: driver_inv_def cache_ok_def entry_ok_def)
  with ext dev have "handler_call b (AcceptValue dev (ControlName e) (Payload msg))"
    by simp
  moreover from run e dev have
    "invoke_unit E (AcceptValue dev (ControlName e) (Payload msg))
       (env_AcceptValue E dev (ControlName e) (Payload msg)) d = Inr d'"
    by (simp add: deliverValue_def)
  ultimately show ?thesis by (blast intro: grows_external_call)
qed

lemma grows_handleIncomingControlValue:
  assumes inv: "driver_inv {} S d" and run: "handleIncomingControlValue E msg d = Inr d'"
  shows "grows (handler_call (ready d)) d d'"
proof -
  from run obtain d1 e d2 where
    1: "storeReceivedValue msg d = Inr d1" and e: "topics d1 (Topic msg) = Some e" and
    2: "(if Dev e = None \<or> topicReady e \<noteq> ready d1
         then resolveTopicDevice E (Topic msg) e d1 else Inr d1) = Inr d2" and
    3: "deliverValue E msg d2 = Inr d'"
    by (auto simp: handleIncomingControlValue_def split: option.splits)
  note s = storeReceivedValue_preserves [OF inv 1]
  have g1: "grows (handler_call (ready d)) d d1"
    by (subst storeReceivedValue_entry [OF 1]) simp
  have "driver_inv {} S d2 \<and> grows (handler_call (ready d)) d1 d2 \<and>
    (\<exists>e2. topics d2 (Topic msg) = Some e2 \<and> (\<forall>dev. Dev e2 = Some dev \<longrightarrow> ready d \<longrightarrow> is_external dev))"
  proof (cases "Dev e = None \<or> topicReady e \<noteq> ready d1")
    case True
    with 2 have "resolveTopicDevice E (Topic msg) e d1 = Inr d2" by (simp only: if_True)
    from resolveTopicDevice_effect [OF s(1) e this] resolveTopicDevice_preserves [OF s(1) e this]
    show ?thesis by (simp add: s(3))
  next
    case False
    with 2 have "d2 = d1" by (simp del: de_Morgan_disj)
    with False e s(1,3) show ?thesis
      by (auto simp: driver_inv_def cache_ok_def entry_ok_def)
  qed
  then have "grows (handler_call (ready d)) d1 d2" "grows (handler_call (ready d)) d2 d'"
    using 3 grows_deliverValue [of S d2 msg] by blast+
  with g1 show ?thesis by (blast intro: grows_trans)
qed

lemma grows_run_handler:
  "driver_inv {} S d \<Longrightarrow> run_handler E h msg d = Inr d' \<Longrightarrow> grows (handler_call (ready d)) d d'"
  by (cases h)
     (auto intro: grows_handleIncomingControlValue grows_handleIncomingControlOnValue
        grows_handleDeviceTitle grows_handleExternalControlType grows_handleExternalControlMax)

section \<open>What a handler leaves alone\<close>

lemma evolves_only_topics: "evolves (d\<lparr>topics := tp\<rparr>) d' \<Longrightarrow> handleMessageCh d' = handleMessageCh d \<and>
    ready d' = ready d \<and> active d' = active d \<and> acceptsExternalDevices d' = acceptsExternalDevices d"
  by (simp add: evolves_def)

text \<open>The settings, the phase and the message queue, which no callback can change.\<close>

definition steady :: "('m, 't) driver \<Rightarrow> _" where
  "steady d = (handleMessageCh d, ready d, active d, acceptsExternalDevices d)"

lemma evolves_steady: "evolves d d' \<Longrightarrow> steady d' = steady d"
  by (simp add: evolves_def steady_def)

lemma core_steady: "core d' = core d \<Longrightarrow> steady d' = steady d"
  by (simp add: core_def steady_def)

lemma steady_update_topic [simp]: "steady (update_topic t f d) = steady d"
  by (simp add: steady_def update_topic_def)

lemma steady_fields [simp]:
  "steady (d\<lparr>calls := ks\<rparr>) = steady d" "steady (d\<lparr>topics := tp\<rparr>) = steady d"
  "steady (d\<lparr>deviceMap := dm\<rparr>) = steady d" "steady (d\<lparr>whenReady := w\<rparr>) = steady d"
  "steady (d\<lparr>eventCh := q\<rparr>) = steady d"
  by (simp_all add: steady_def)

lemma steady_exec: "exec E a d = Inr (d', r) \<Longrightarrow> steady d' = steady d"
  by (rule evolves_steady) (rule evolves_exec)

lemma steady_invoke: "invoke E k a d = Inr (d', r) \<Longrightarrow> steady d' = steady d"
  by (auto simp: invoke_def dest: steady_exec)

lemma steady_invoke_unit: "invoke_unit E k a d = Inr d' \<Longrightarrow> steady d' = steady d"
  by (auto simp: invoke_unit_def dest: steady_invoke)

lemma steady_run_thunk: "run_thunk E t d = Inr d' \<Longrightarrow> steady d' = steady d"
  by (auto simp: run_thunk_def dest: steady_exec)

lemma steady_run_thunks: "run_thunks E ts d = Inr d' \<Longrightarrow> steady d' = steady d"
  by (induction ts arbitrary: d) (auto dest: steady_run_thunk)

lemma steady_ensureDevice:
  assumes "ensureDevice E n d = Inr (d', r)"
  shows "steady d' = steady d"
  using assms
proof (cases rule: ensureDevice_cases)
  case (2 f d1 r1)
  with steady_invoke [OF 2(2)] show ?thesis by auto
qed simp

lemma steady_ensureExtDevice: "ensureExtDevice E n d = Inr (d', r) \<Longrightarrow> steady d' = steady d"
  by (erule ensureExtDevice_Inr) (rule steady_ensureDevice)

lemma steady_lookupTopicDevice: "lookupTopicDevice E n d = Inr (d', r) \<Longrightarrow> steady d' = steady d"
  by (auto simp: lookupTopicDevice_def dest: steady_ensureDevice steady_ensureExtDevice split: if_splits)

lemma steady_with_external:
  assumes "with_external E n body d = Inr d'" "\<And>dev d d'. body dev d = Inr d' \<Longrightarrow> steady d' = steady d"
  shows "steady d' = steady d"
proof -
  from assms(1) obtain d1 r where 1: "ensureExtDevice E n d = Inr (d1, r)"
    and 2: "(case r of Inr (Some dev) \<Rightarrow> body dev d1 | _ \<Rightarrow> Inr d1) = Inr d'"
    by (auto simp: with_external_def)
  from 2 have "steady d' = steady d1"
    by (auto split: sum.splits option.splits dest: assms(2))
  with steady_ensureExtDevice [OF 1] show ?thesis by simp
qed

lemma steady_handleIncomingControlValue:
  assumes "handleIncomingControlValue E msg d = Inr d'"
  shows "steady d' = steady d"
proof -
  from assms obtain d1 e d2 where
    1: "storeReceivedValue msg d = Inr d1" and
    2: "(if Dev e = None \<or> topicReady e \<noteq> ready d1
         then resolveTopicDevice E (Topic msg) e d1 else Inr d1) = Inr d2" and
    3: "deliverValue E msg d2 = Inr d'"
    by (auto simp: handleIncomingControlValue_def split: option.splits)
  have "steady d1 = steady d"
    by (subst storeReceivedValue_entry [OF 1]) simp
  moreover have "resolveTopicDevice E t e d1 = Inr d2 \<Longrightarrow> steady d2 = steady d1" for t
    by (erule resolveTopicDevice_Inr) (auto dest: steady_lookupTopicDevice)
  with 2 have "steady d2 = steady d1" by (simp split: if_splits)
  moreover from 3 have "steady d' = steady d2"
    by (auto simp: deliverValue_def dest: steady_invoke_unit split: option.splits if_splits)
  ultimately show ?thesis by simp
qed

lemma steady_handleIncomingControlOnValue:
  assumes "handleIncomingControlOnValue E msg d = Inr d'"
  shows "steady d' = steady d"
proof (cases "deviceMap d (split_on CHR ''/'' (Topic msg) ! 2)")
  case None
  with assms show ?thesis by (auto simp: handleIncomingControlOnValue_def Let_def)
next
  case (Some dev)
  with assms obtain n d1 echo where
    "invoke E (AcceptOnValue dev n (Payload msg)) (env_AcceptOnValue E dev n (Payload msg)) d
       = Inr (d1, echo)"
    and d': "d' = step_if echo (publishValue dev n (Payload msg)) d1"
    by (auto simp: handleIncomingControlOnValue_def Let_def split: if_splits)
  from steady_invoke [OF this(1)] have "steady d1 = steady d" .
  moreover have "steady d' = steady d1"
    by (rule core_steady) (simp add: d' core_step_if)
  ultimately show ?thesis by simp
qed

lemma steady_run_handler:
  assumes "run_handler E h msg d = Inr d'"
  shows "steady d' = steady d"
proof -
  have title: "handleDeviceTitle E msg d = Inr d' \<Longrightarrow> steady d' = steady d"
    by (auto simp: handleDeviceTitle_def elim!: steady_with_external steady_invoke_unit)
  have type: "handleExternalControlType E msg d = Inr d' \<Longrightarrow> steady d' = steady d"
    by (auto simp: handleExternalControlType_def Let_def elim!: steady_with_external steady_invoke_unit)
  have max: "handleExternalControlMax E msg d = Inr d' \<Longrightarrow> steady d' = steady d"
    by (auto simp: handleExternalControlMax_def Let_def elim!: steady_with_external
        dest: steady_invoke_unit split: option.splits)
  show ?thesis
    using assms
  proof (cases h)
    case HandleIncomingControlValue
    with assms show ?thesis by (simp add: steady_handleIncomingControlValue)
  next
    case HandleIncomingControlOnValue
    with assms show ?thesis by (simp add: steady_handleIncomingControlOnValue)
  qed (simp_all only: run_handler.simps title type max)
qed

end
