(* ===== verification/Driver_Controls.thy ===== *)
theory Driver_Controls
  imports Driver_Growth
begin

text \<open>
  What the driver's operations on devices and controls do, stated against independent
  descriptions: the exact client calls of \<open>OnNewControl\<close> and \<open>RemoveDevice\<close>, the numbering of a
  device's controls, and how the topics of a control are read back.
\<close>

section \<open>The calls of the composite operations\<close>

definition metaMessage :: "device \<Rightarrow> string \<Rightarrow> string \<Rightarrow> string \<Rightarrow> handler mqtt_call" where
  "metaMessage dev c k v =
     MPublish \<lparr>Topic = controlTopic dev c [''meta'', k], Payload = v, QoS = 1, Retained = True\<rparr>"

text \<open>
  The client calls a new control is to cause, as one list: its meta data, its value when it is
  retained, and the subscription to its \<open>on\<close> topic when it may be written.
\<close>

definition controlCalls ::
  "('m, 't) env \<Rightarrow> device \<Rightarrow> Control \<Rightarrow> int \<Rightarrow> string \<Rightarrow> handler mqtt_call list" where
  "controlCalls E dev c order v =
     (let meta = metaMessage dev (Name c) in
      [meta ''type'' (GetType c)] @
      (if Title c = [] then [] else [meta ''name'' (Title c)]) @
      (if GetUnits c = [] then [] else [meta ''units'' (GetUnits c)]) @
      (if Writability c = ForceReadOnly then [meta ''readonly'' ''1'']
       else if Writability c = ForceWritable then [meta ''writable'' ''1''] else []) @
      [meta ''order'' (itoa order)] @
      (if HasMax c then [meta ''max'' (env_FormatFloat E (Max c))] else []) @
      (if Retain c
       then [MPublish \<lparr>Topic = controlTopic dev (Name c) [], Payload = v, QoS = 1, Retained = True\<rparr>]
       else []) @
      (if Writability c = ForceReadOnly then []
       else [MSubscribe HandleIncomingControlOnValue [controlTopic dev (Name c) [''on'']]]))"

text \<open>The topics it adds to those cleaned up on \<open>Stop\<close>.\<close>

definition controlTopics :: "device \<Rightarrow> Control \<Rightarrow> string list" where
  "controlTopics dev c =
     (let meta = (\<lambda>k. controlTopic dev (Name c) [''meta'', k]) in
      [meta ''type''] @ (if Title c = [] then [] else [meta ''name'']) @
      (if GetUnits c = [] then [] else [meta ''units'']) @
      (if Writability c = ForceReadOnly then [meta ''readonly'']
       else if Writability c = ForceWritable then [meta ''writable''] else []) @
      [meta ''order''] @ (if HasMax c then [meta ''max''] else []) @
      [controlTopic dev (Name c) []])"

lemma publish_fields [simp]:
  "calls (publish t p q r d) =
     calls d @ [Client (MPublish \<lparr>Topic = t, Payload = p, QoS = q, Retained = r\<rparr>)]"
  "nextOrder (publish t p q r d) = nextOrder d"
  "controlList (publish t p q r d) = controlList d"
  "retainMap (publish t p q r d) = retainMap d"
  "cleanupTopics (publish t p q r d) = cleanupTopics d"
  by (simp_all add: publish_def client_def)

lemma publishMeta_fields [simp]:
  "calls (publishMeta t p d) =
     calls d @ [Client (MPublish \<lparr>Topic = t, Payload = p, QoS = 1, Retained = True\<rparr>)]"
  "nextOrder (publishMeta t p d) = nextOrder d"
  "controlList (publishMeta t p d) = controlList d"
  "retainMap (publishMeta t p d) = retainMap d"
  "cleanupTopics (publishMeta t p d) = add_once t (cleanupTopics d)"
  by (simp_all add: publishMeta_def addCleanupTopic_def)

lemma publishValue_fields [simp]:
  "calls (publishValue dev n v d) =
     calls d @ [Client (MPublish \<lparr>Topic = controlTopic dev n [], Payload = v, QoS = 1,
                                 Retained = get_or False (retainMap d) (controlTopic dev n [])\<rparr>)]"
  "nextOrder (publishValue dev n v d) = nextOrder d"
  "controlList (publishValue dev n v d) = controlList d"
  "retainMap (publishValue dev n v d) = retainMap d"
  "cleanupTopics (publishValue dev n v d) = cleanupTopics d"
  by (simp_all add: publishValue_def Let_def)

lemma subscribe_fields [simp]:
  "calls (subscribe h ts d) = calls d @ [Client (MSubscribe h ts)]"
  "nextOrder (subscribe h ts d) = nextOrder d"
  "controlList (subscribe h ts d) = controlList d"
  "retainMap (subscribe h ts d) = retainMap d"
  "cleanupTopics (subscribe h ts d) = cleanupTopics d"
  by (simp_all add: subscribe_def client_def)

lemma addCleanupTopic_fields [simp]:
  "calls (addCleanupTopic t d) = calls d" "nextOrder (addCleanupTopic t d) = nextOrder d"
  "controlList (addCleanupTopic t d) = controlList d"
  "retainMap (addCleanupTopic t d) = retainMap d"
  "cleanupTopics (addCleanupTopic t d) = add_once t (cleanupTopics d)"
  by (simp_all add: addCleanupTopic_def)

lemma bumpOrder_fields [simp]:
  "calls (bumpOrder n i d) = calls d" "controlList (bumpOrder n i d) = controlList d"
  "retainMap (bumpOrder n i d) = retainMap d" "cleanupTopics (bumpOrder n i d) = cleanupTopics d"
  "nextOrder (bumpOrder n i d) =
     (if i \<ge> get_or 0 (nextOrder d) n then (nextOrder d)(n \<mapsto> wrap64 (i + 1)) else nextOrder d)"
  by (simp_all add: bumpOrder_def)

lemma publishControlMeta_fields [simp]:
  "nextOrder (publishControlMeta E dev c i d) = nextOrder d"
  "controlList (publishControlMeta E dev c i d) = controlList d"
  "retainMap (publishControlMeta E dev c i d) = retainMap d"
  by (simp_all add: publishControlMeta_def Let_def step_if_def)

lemma OnNewControl_calls:
  "calls (fst (OnNewControl E dev c d)) =
     calls d @ map Client (controlCalls E dev c (controlOrder dev c d) (initialValue dev c d))"
  by (simp add: OnNewControl_def publishControlMeta_def controlCalls_def metaMessage_def Let_def
      step_if_def)

lemma OnNewControl_result: "snd (OnNewControl E dev c d) = initialValue dev c d"
  by (simp add: OnNewControl_def Let_def)

lemma OnNewControl_controlList:
  "controlList (fst (OnNewControl E dev c d)) =
     (controlList d)(DevName dev \<mapsto> get_or [] (controlList d) (DevName dev) @ [Name c])"
  by (simp add: OnNewControl_def Let_def step_if_def)

lemma OnNewControl_retainMap:
  "retainMap (fst (OnNewControl E dev c d)) = (retainMap d)(controlTopic dev (Name c) [] \<mapsto> Retain c)"
  by (simp add: OnNewControl_def Let_def step_if_def)

lemma OnNewControl_nextOrder:
  "nextOrder (fst (OnNewControl E dev c d)) =
     (let i = controlOrder dev c d in
      if i \<ge> get_or 0 (nextOrder d) (DevName dev)
      then (nextOrder d)(DevName dev \<mapsto> wrap64 (i + 1)) else nextOrder d)"
  by (simp add: OnNewControl_def Let_def step_if_def)

lemma set_step_if_cleanup:
  "set (cleanupTopics (step_if b f d)) = (if b then set (cleanupTopics (f d)) else set (cleanupTopics d))"
  by (cases b) auto

lemma OnNewControl_cleanupTopics:
  "set (cleanupTopics (fst (OnNewControl E dev c d))) =
     set (cleanupTopics d) \<union> set (controlTopics dev c)"
  by (auto simp: OnNewControl_def publishControlMeta_def controlTopics_def Let_def
      set_step_if_cleanup)

lemma RemoveDevice_calls:
  "calls (RemoveDevice dev d) =
     calls d @ (case deviceMap d (DevName dev) of
                  Some dev' \<Rightarrow>
                    if is_local dev'
                    then map (\<lambda>n. Client (MUnsubscribe [controlTopic dev' n [''on'']]))
                           (get_or [] (controlList d) (DevName dev))
                    else []
                | None \<Rightarrow> [])"
  by (auto simp: RemoveDevice_alt Let_def step_if_def calls_unsubscribeControls split: option.splits)

section \<open>Numbering\<close>

text \<open>Registering a list of controls of a device, and the orders they get.\<close>

fun newControls :: "('m, 't) env \<Rightarrow> device \<Rightarrow> Control list \<Rightarrow> ('m, 't) driver \<Rightarrow> ('m, 't) driver" where
  "newControls E dev [] d = d"
| "newControls E dev (c # cs) d = newControls E dev cs (fst (OnNewControl E dev c d))"

fun controlOrders :: "('m, 't) env \<Rightarrow> device \<Rightarrow> Control list \<Rightarrow> ('m, 't) driver \<Rightarrow> int list" where
  "controlOrders E dev [] d = []"
| "controlOrders E dev (c # cs) d =
     controlOrder dev c d # controlOrders E dev cs (fst (OnNewControl E dev c d))"

abbreviation next_order :: "device \<Rightarrow> ('m, 't) driver \<Rightarrow> int" where
  "next_order dev d \<equiv> get_or 0 (nextOrder d) (DevName dev)"

lemma next_order_OnNewControl:
  "next_order dev (fst (OnNewControl E dev c d)) =
     (if controlOrder dev c d \<ge> next_order dev d then wrap64 (controlOrder dev c d + 1)
      else next_order dev d)"
  by (simp add: OnNewControl_nextOrder Let_def)

lemma wrap64_succ: "0 \<le> i \<Longrightarrow> i < 2 ^ 63 - 1 \<Longrightarrow> wrap64 (i + 1) = i + 1"
  by (simp add: wrap64_def)

lemma controlOrder_nonneg: "0 \<le> next_order dev d \<Longrightarrow> 0 \<le> controlOrder dev c d"
  by (simp add: controlOrder_def)

lemma next_order_step:
  assumes "0 \<le> next_order dev d" "controlOrder dev c d < 2 ^ 63 - 1"
  shows "next_order dev d \<le> next_order dev (fst (OnNewControl E dev c d))"
    "controlOrder dev c d < next_order dev (fst (OnNewControl E dev c d))"
proof -
  from assms controlOrder_nonneg [OF assms(1)]
  have "wrap64 (controlOrder dev c d + 1) = controlOrder dev c d + 1" by (intro wrap64_succ)
  then show "next_order dev d \<le> next_order dev (fst (OnNewControl E dev c d))"
    "controlOrder dev c d < next_order dev (fst (OnNewControl E dev c d))"
    by (simp_all add: next_order_OnNewControl)
qed

text \<open>A control without an order of its own comes after all the controls before it.\<close>

lemma controlOrders_auto:
  assumes "0 \<le> next_order dev d" "\<forall>i\<in>set (controlOrders E dev cs d). i < 2 ^ 63 - 1"
    and "k < length cs" "Order (cs ! k) \<le> 0"
  shows "next_order dev d \<le> controlOrders E dev cs d ! k \<and>
    (\<forall>j<k. controlOrders E dev cs d ! j < controlOrders E dev cs d ! k)"
  using assms
proof (induction cs arbitrary: d k)
  case (Cons c cs)
  let ?d1 = "fst (OnNewControl E dev c d)"
  note step = next_order_step [OF Cons.prems(1), of c E]
  show ?case
  proof (cases k)
    case 0
    with Cons.prems(4) show ?thesis by (simp add: controlOrder_def)
  next
    case (Suc k')
    have "next_order dev ?d1 \<le> controlOrders E dev cs ?d1 ! k' \<and>
      (\<forall>j<k'. controlOrders E dev cs ?d1 ! j < controlOrders E dev cs ?d1 ! k')"
      using Cons.prems Suc step by (intro Cons.IH) auto
    with Cons.prems(2) step Suc show ?thesis
      by (auto simp: nth_Cons split: nat.splits)
  qed
qed simp

section \<open>Topics and the names in them\<close>

abbreviation slash_free :: "string \<Rightarrow> bool" where
  "slash_free s \<equiv> CHR ''/'' \<notin> set s"

lemma controlTopic_split:
  assumes "slash_free (DevName dev)" "slash_free c" "\<forall>s\<in>set sub. slash_free s"
  shows "split_on CHR ''/'' (controlTopic dev c sub) =
    ['''', ''devices'', DevName dev, ''controls'', c] @ sub"
proof -
  let ?parts = "['''', ''devices'', DevName dev, ''controls'', c] @ sub"
  have "controlTopic dev c sub = join_with ''/'' ?parts"
    by (simp add: controlTopic_def topic_def)
  moreover have "split_on CHR ''/'' (join_with ''/'' ?parts) = ?parts"
    by (rule split_join) (use assms in auto)
  ultimately show ?thesis by (simp only:)
qed

lemma controlTopic_inj:
  assumes "slash_free (DevName dev)" "slash_free c" "slash_free (DevName dev')" "slash_free c'"
    and "controlTopic dev c [] = controlTopic dev' c' []"
  shows "DevName dev = DevName dev' \<and> c = c'"
  using assms(5) controlTopic_split [OF assms(1,2), of "[]"] controlTopic_split [OF assms(3,4), of "[]"]
  by simp

end
