(* ===== verification/Fake_Model.thy ===== *)
theory Fake_Model
  imports Driver_Controls "HOL-Library.AList"
begin

text \<open>
  testutils/fake_model.go: the model with fake devices that drivers are tested with, as code of a
  driver's environment: an instance of \<open>env\<close>. A device is an object the driver and the test go on
  holding; its place among the objects is the driver's \<open>dev_ref\<close>. The items the model records are kept
  in the order they are written; a write waits while the test has not read the thousand items before it.
\<close>

section \<open>Data\<close>

record FakeDev =
  fd_name :: string
  fd_title :: string
  fd_local :: bool
  fd_virtual :: bool
  paramTypes :: "(string \<times> string) list"
  paramValues :: "(string \<times> string) list"

record FakeModel =
  items :: "string list"
  fm_devices :: "(string \<times> nat) list"
  fm_objects :: "FakeDev list"
  fm_started :: bool

definition NewFakeModel :: FakeModel where
  "NewFakeModel = \<lparr>items = [], fm_devices = [], fm_objects = [], fm_started = False\<rparr>"

type_synonym ('t, 'r) fake_act = "(FakeModel, 't, 'r) act"

text \<open>A device as its observer sees it.\<close>

definition as_device :: "nat \<Rightarrow> FakeDev \<Rightarrow> device" where
  "as_device p dev =
     \<lparr>dev_ref = p, DevName = fd_name dev, DevTitle = fd_title dev, is_local = fd_local dev,
      is_external = \<not> fd_local dev, is_virtual = fd_local dev \<and> fd_virtual dev\<rparr>"

definition device_at :: "FakeModel \<Rightarrow> nat \<Rightarrow> device" where
  "device_at m p = as_device p (fm_objects m ! p)"

text \<open>Reading a map of strings gives the empty string for a missing key.\<close>

definition param :: "(string \<times> string) list \<Rightarrow> string \<Rightarrow> string" where
  "param ps k = get_or [] (map_of ps) k"

definition fm_rec :: "string \<Rightarrow> FakeModel \<Rightarrow> FakeModel" where
  "fm_rec item m = m\<lparr>items := items m @ [item]\<rparr>"

definition update_dev :: "nat \<Rightarrow> (FakeDev \<Rightarrow> FakeDev) \<Rightarrow> FakeModel \<Rightarrow> FakeModel" where
  "update_dev p f m = m\<lparr>fm_objects := (fm_objects m)[p := f (fm_objects m ! p)]\<rparr>"

text \<open>Calls on the observer whose results are not used, one after the other.\<close>

fun observe_all :: "'t observer_call list \<Rightarrow> ('m, 't, 'r) act \<Rightarrow> ('m, 't, 'r) act" where
  "observe_all [] a = a"
| "observe_all (c # cs) a = Observer c (\<lambda>_. observe_all cs a)"

section \<open>The model\<close>

definition fakePoll :: "FakeModel \<Rightarrow> ('t, unit) fake_act" where
  "fakePoll m = Return (fm_rec ''poll'' m) ()"

text \<open>The controls of a local device, in the order of their names.\<close>

definition fake_control :: "FakeDev \<Rightarrow> string \<Rightarrow> Control" where
  "fake_control dev k =
     \<lparr>Name = k, Title = [], Type = param (paramTypes dev) k, Value = param (paramValues dev) k, Units = [],
      Writability = 0, HasMax = False, Max = 0, Forget = False, Order = 0\<rparr>"

definition QueryParams :: "FakeModel \<Rightarrow> nat \<Rightarrow> 't observer_call list" where
  "QueryParams m p =
     (let dev = fm_objects m ! p in
      map (\<lambda>k. OnNewControlCall (device_at m p) (fake_control dev k)) (sort (map fst (paramTypes dev))))"

definition announce_device :: "FakeModel \<Rightarrow> nat \<Rightarrow> 't observer_call list" where
  "announce_device m p = OnNewDeviceCall (device_at m p) # QueryParams m p"

definition fakeStart :: "FakeModel \<Rightarrow> ('t, string option) fake_act" where
  "fakeStart m =
     observe_all
       (concat (map (\<lambda>name. case map_of (fm_devices m) name of
           None \<Rightarrow> []
         | Some p \<Rightarrow> if fd_local (fm_objects m ! p) then announce_device m p else [])
         (sort (map fst (fm_devices m)))))
       (Return (m\<lparr>fm_started := True\<rparr>) None)"

definition newFakeDevice :: "string \<Rightarrow> string \<Rightarrow> FakeDev" where
  "newFakeDevice name title =
     \<lparr>fd_name = name, fd_title = title, fd_local = False, fd_virtual = False, paramTypes = [], paramValues = []\<rparr>"

definition add_device :: "string \<Rightarrow> FakeDev \<Rightarrow> FakeModel \<Rightarrow> FakeModel" where
  "add_device name dev m =
     m\<lparr>fm_devices := AList.update name (length (fm_objects m)) (fm_devices m), fm_objects := fm_objects m @ [dev]\<rparr>"

text \<open>\<open>types\<close> is the map of the parameters in the order Go walks it.\<close>

definition makeLocalDevice ::
  "string \<Rightarrow> string \<Rightarrow> (string \<times> string) list \<Rightarrow> bool \<Rightarrow> FakeModel \<Rightarrow> ('t, nat) fake_act" where
  "makeLocalDevice name title types virtual m =
     (let dev = (newFakeDevice name title)\<lparr>fd_local := True, fd_virtual := virtual\<rparr>;
          dev = fold (\<lambda>(k, v) dev. dev\<lparr>paramTypes := AList.update k v (paramTypes dev),
                  paramValues := AList.update k ''0'' (paramValues dev)\<rparr>) types dev;
          p = length (fm_objects m);
          m = add_device name dev m
      in observe_all (if fm_started m then announce_device m p else []) (Return m p))"

definition MakeLocalDevice where
  "MakeLocalDevice name title types = makeLocalDevice name title types False"

definition MakeLocalVirtualDevice where
  "MakeLocalVirtualDevice name title types = makeLocalDevice name title types True"

definition fakeAddExternalDevice :: "string \<Rightarrow> FakeModel \<Rightarrow> ('t, string + device) fake_act" where
  "fakeAddExternalDevice name m =
     (let m' = add_device name (newFakeDevice name name) m
      in Return m' (Inr (device_at m' (length (fm_objects m)))))"

definition HasDevice :: "FakeModel \<Rightarrow> string \<Rightarrow> bool" where
  "HasDevice m name \<longleftrightarrow> map_of (fm_devices m) name \<noteq> None"

text \<open>\<open>None\<close> where the test fails.\<close>

definition GetDevice :: "FakeModel \<Rightarrow> string \<Rightarrow> nat option" where
  "GetDevice m name = map_of (fm_devices m) name"

section \<open>The devices\<close>

text \<open>A parameter that was not there is of type \<open>text\<close>.\<close>

definition set_param :: "string \<Rightarrow> string \<Rightarrow> FakeDev \<Rightarrow> FakeDev" where
  "set_param n v dev =
     dev\<lparr>paramTypes := (if map_of (paramTypes dev) n = None then AList.update n ''text'' (paramTypes dev)
           else paramTypes dev),
         paramValues := AList.update n v (paramValues dev)\<rparr>"

definition value_item :: "string \<Rightarrow> device \<Rightarrow> string \<Rightarrow> string \<Rightarrow> string" where
  "value_item what dev n v = what @ '': '' @ DevName dev @ ''.'' @ n @ '' = '' @ v"

definition fakeAcceptValue :: "device \<Rightarrow> string \<Rightarrow> string \<Rightarrow> FakeModel \<Rightarrow> ('t, unit) fake_act" where
  "fakeAcceptValue dev n v m =
     Return (fm_rec (value_item ''AcceptValue'' dev n v) (update_dev (dev_ref dev) (set_param n v) m)) ()"

definition fakeAcceptOnValue :: "device \<Rightarrow> string \<Rightarrow> string \<Rightarrow> FakeModel \<Rightarrow> ('t, bool) fake_act" where
  "fakeAcceptOnValue dev n v m =
     Return (fm_rec (value_item ''AcceptOnValue'' dev n v) (update_dev (dev_ref dev) (set_param n v) m)) True"

text \<open>\<open>ReceiveValue\<close>: a test has the device send a value; \<open>None\<close> where the test fails.\<close>

definition ReceiveValue :: "nat \<Rightarrow> string \<Rightarrow> string \<Rightarrow> FakeModel \<Rightarrow> ('t, unit) fake_act option" where
  "ReceiveValue p n v m =
     (if map_of (paramValues (fm_objects m ! p)) n = None then None
      else
        (let m = update_dev p (\<lambda>dev. dev\<lparr>paramValues := AList.update n v (paramValues dev)\<rparr>) m in
         Some (Observer (OnValueCall (device_at m p) n v) (\<lambda>_. Return m ()))))"

definition fakeGetValue :: "FakeModel \<Rightarrow> nat \<Rightarrow> string \<Rightarrow> string" where
  "fakeGetValue m p n = param (paramValues (fm_objects m ! p)) n"

definition fakeGetType :: "FakeModel \<Rightarrow> nat \<Rightarrow> string \<Rightarrow> string" where
  "fakeGetType m p n = param (paramTypes (fm_objects m ! p)) n"

definition fakeAcceptControlType :: "device \<Rightarrow> string \<Rightarrow> string \<Rightarrow> FakeModel \<Rightarrow> ('t, unit) fake_act" where
  "fakeAcceptControlType dev n ty m =
     Return (fm_rec (''the type of '' @ DevName dev @ ''.'' @ n @ '' is: '' @ ty)
       (update_dev (dev_ref dev) (\<lambda>d. d\<lparr>paramTypes := AList.update n ty (paramTypes d)\<rparr>) m)) ()"

definition fakeAcceptControlRange ::
  "(float64 \<Rightarrow> string) \<Rightarrow> device \<Rightarrow> string \<Rightarrow> float64 \<Rightarrow> FakeModel \<Rightarrow> ('t, unit) fake_act" where
  "fakeAcceptControlRange fmt dev n maxv m =
     Return (fm_rec (''max value for '' @ DevName dev @ ''.'' @ n @ '' is: '' @ fmt maxv) m) ()"

definition fakeSetTitle :: "device \<Rightarrow> string \<Rightarrow> FakeModel \<Rightarrow> ('t, unit) fake_act" where
  "fakeSetTitle dev title m = Return (update_dev (dev_ref dev) (\<lambda>d. d\<lparr>fd_title := title\<rparr>) m) ()"

section \<open>The environment of a driver\<close>

text \<open>
  What thunks do is up to the test, and the two functions on \<open>float64\<close> are the library's. \<open>Stop\<close> is the
  one of \<open>ModelBase\<close>.
\<close>

definition fake_env ::
  "('t \<Rightarrow> FakeModel \<Rightarrow> ('t, unit) fake_act) \<Rightarrow> (string \<Rightarrow> float64 option) \<Rightarrow> (float64 \<Rightarrow> string)
     \<Rightarrow> (FakeModel, 't) env" where
  "fake_env run parse fmt =
     \<lparr>env_Start = fakeStart, env_Stop = (\<lambda>m. Return m ()), env_Poll = fakePoll,
      env_AddExternalDevice = Some fakeAddExternalDevice, env_AcceptValue = fakeAcceptValue,
      env_AcceptOnValue = fakeAcceptOnValue, env_SetTitle = fakeSetTitle,
      env_AcceptControlType = fakeAcceptControlType, env_AcceptControlRange = fakeAcceptControlRange fmt,
      env_run = run, env_ParseFloat = parse, env_FormatFloat = fmt\<rparr>"

end
