(* ===== verification/Driver_Loop.thy ===== *)
theory Driver_Loop
  imports Driver_Growth
begin

text \<open>
  The driver as a running system: \<open>Start\<close>, the goroutine it starts (the \<open>select\<close> loop of
  driver.go), \<open>Stop\<close>, and the goroutines around it, as a step relation. A \<open>select\<close> may take any
  of its ready branches, so each branch is a rule of its own; the code of a branch runs on the
  driver's goroutine and is one step. \<open>Stop\<close> runs on its caller's goroutine: it clears \<open>active\<close>,
  publishes an empty message to each cleanup topic of the moment it was called, one by one, while
  the loop goes on, and only then asks the loop to quit. \<open>Start\<close> and \<open>Stop\<close> are called one after
  the other, by the owner of the driver.
\<close>

section \<open>The system's state\<close>

datatype stopper = NotStopping | Cleaning "string list" | Quitting

record ('m, 't) world =
  drv :: "('m, 't) driver"
  looping :: bool
  waiting :: bool
  ticker :: bool
  stopper :: stopper

definition NewWorld :: "'m \<Rightarrow> ('m, 't) world" where
  "NewWorld m =
     \<lparr>drv = NewDriver m, looping = False, waiting = False, ticker = False, stopper = NotStopping\<rparr>"

text \<open>The branches of the \<open>select\<close>, as functions of the driver.\<close>

definition onReady :: "('m, 't) env \<Rightarrow> ('m, 't) driver \<Rightarrow> ('m, 't) driver res" where
  "onReady E d =
     (let (dl, ts) = Ready (whenReady d)
      in bind_res (run_thunks E ts (d\<lparr>whenReady := dl\<rparr>)) (\<lambda>d. Inr (d\<lparr>ready := True\<rparr>)))"

definition onPoll :: "('m, 't) env \<Rightarrow> ('m, 't) driver \<Rightarrow> ('m, 't) driver res" where
  "onPoll E = invoke_unit E ModelPoll (env_Poll E)"

definition onQuit :: "('m, 't) env \<Rightarrow> ('m, 't) driver \<Rightarrow> ('m, 't) driver res" where
  "onQuit E d = bind_res (invoke_unit E ModelStop (env_Stop E) d) (\<lambda>d. Inr (client MStop d))"

definition HandleMessageSync :: "handler \<Rightarrow> MQTTMessage \<Rightarrow> ('m, 't) driver \<Rightarrow> ('m, 't) driver" where
  "HandleMessageSync h msg d = d\<lparr>handleMessageCh := handleMessageCh d @ [(h, msg)]\<rparr>"

definition publishClean :: "string \<Rightarrow> ('m, 't) driver \<Rightarrow> ('m, 't) driver" where
  "publishClean t = client (MPublishSync \<lparr>Topic = t, Payload = [], QoS = 1, Retained = True\<rparr>)"

section \<open>The steps\<close>

inductive step :: "('m, 't) env \<Rightarrow> ('m, 't) world \<Rightarrow> ('m, 't) world \<Rightarrow> bool" for E where
  start: "stopper w = NotStopping \<Longrightarrow> \<not> active (drv w) \<Longrightarrow> Start E (drv w) = Inr (d, None) \<Longrightarrow>
     step E w (w\<lparr>drv := d, looping := True, waiting := True, ticker := autoPoll d\<rparr>)"
| start_failed: "stopper w = NotStopping \<Longrightarrow> Start E (drv w) = Inr (d, Some err) \<Longrightarrow>
     step E w (w\<lparr>drv := d\<rparr>)"
| start_again: "stopper w = NotStopping \<Longrightarrow> active (drv w) \<Longrightarrow> step E w w"
| on_ready: "looping w \<Longrightarrow> waiting w \<Longrightarrow> onReady E (drv w) = Inr d \<Longrightarrow>
     step E w (w\<lparr>drv := d, waiting := False\<rparr>)"
| on_poll: "looping w \<Longrightarrow> onPoll E (drv w) = Inr d \<Longrightarrow> step E w (w\<lparr>drv := d\<rparr>)"
| on_message: "looping w \<Longrightarrow> handleMessageCh (drv w) = (h, msg) # q \<Longrightarrow>
     run_handler E h msg ((drv w)\<lparr>handleMessageCh := q\<rparr>) = Inr d \<Longrightarrow> step E w (w\<lparr>drv := d\<rparr>)"
| on_event: "looping w \<Longrightarrow> eventCh (drv w) = t # q \<Longrightarrow>
     run_thunk E t ((drv w)\<lparr>eventCh := q\<rparr>) = Inr d \<Longrightarrow> step E w (w\<lparr>drv := d\<rparr>)"
| on_quit: "looping w \<Longrightarrow> stopper w = Quitting \<Longrightarrow> onQuit E (drv w) = Inr d \<Longrightarrow>
     step E w (w\<lparr>drv := d, looping := False, waiting := False, ticker := False,
                stopper := NotStopping\<rparr>)"
| stop: "stopper w = NotStopping \<Longrightarrow> active (drv w) \<Longrightarrow>
     step E w (w\<lparr>drv := (drv w)\<lparr>active := False\<rparr>, stopper := Cleaning (cleanupTopics (drv w))\<rparr>)"
| stop_again: "stopper w = NotStopping \<Longrightarrow> \<not> active (drv w) \<Longrightarrow> step E w w"
| clean: "stopper w = Cleaning (t # ts) \<Longrightarrow>
     step E w (w\<lparr>drv := publishClean t (drv w), stopper := Cleaning ts\<rparr>)"
| cleaned: "stopper w = Cleaning [] \<Longrightarrow> step E w (w\<lparr>stopper := Quitting\<rparr>)"
| incoming: "deliverable (client_calls (calls (drv w))) h (Topic msg) \<Longrightarrow>
     length (handleMessageCh (drv w)) < EVENT_QUEUE_LEN \<Longrightarrow>
     step E w (w\<lparr>drv := HandleMessageSync h msg (drv w)\<rparr>)"
| call_sync: "CallSync t (drv w) = Inr d \<Longrightarrow> step E w (w\<lparr>drv := d\<rparr>)"
| when_ready: "WhenReady t (drv w) = Inr d \<Longrightarrow> step E w (w\<lparr>drv := d\<rparr>)"
| set_auto_poll: "step E w (w\<lparr>drv := SetAutoPoll b (drv w)\<rparr>)"
| set_poll_interval: "step E w (w\<lparr>drv := SetPollInterval i (drv w)\<rparr>)"
| set_external: "SetAcceptsExternalDevices b (drv w) = Inr d \<Longrightarrow> step E w (w\<lparr>drv := d\<rparr>)"

inductive reachable :: "('m, 't) env \<Rightarrow> 'm \<Rightarrow> ('m, 't) world \<Rightarrow> bool" for E m where
  new: "reachable E m (NewWorld m)"
| more: "reachable E m w \<Longrightarrow> step E w w' \<Longrightarrow> reachable E m w'"

text \<open>A run: any number of steps from a given state.\<close>

inductive steps :: "('m, 't) env \<Rightarrow> ('m, 't) world \<Rightarrow> ('m, 't) world \<Rightarrow> bool" for E where
  none: "steps E w w"
| one_more: "steps E w w1 \<Longrightarrow> step E w1 w2 \<Longrightarrow> steps E w w2"

text \<open>The loop dies when a branch panics or blocks: what may happen to its goroutine.\<close>

inductive dies :: "('m, 't) env \<Rightarrow> ('m, 't) world \<Rightarrow> abort \<Rightarrow> bool" for E where
  ready_dies: "looping w \<Longrightarrow> waiting w \<Longrightarrow> onReady E (drv w) = Inl e \<Longrightarrow> dies E w e"
| poll_dies: "looping w \<Longrightarrow> onPoll E (drv w) = Inl e \<Longrightarrow> dies E w e"
| message_dies: "looping w \<Longrightarrow> handleMessageCh (drv w) = (h, msg) # q \<Longrightarrow>
     run_handler E h msg ((drv w)\<lparr>handleMessageCh := q\<rparr>) = Inl e \<Longrightarrow> dies E w e"
| event_dies: "looping w \<Longrightarrow> eventCh (drv w) = t # q \<Longrightarrow>
     run_thunk E t ((drv w)\<lparr>eventCh := q\<rparr>) = Inl e \<Longrightarrow> dies E w e"
| quit_dies: "looping w \<Longrightarrow> stopper w = Quitting \<Longrightarrow> onQuit E (drv w) = Inl e \<Longrightarrow> dies E w e"

inductive_cases stepE: "step E w w'"
inductive_cases stepsE: "steps E w w'"
inductive_cases diesE: "dies E w e"

section \<open>The invariant of the running system\<close>

text \<open>
  Besides the driver's own invariant: the waiting messages reached the driver through a
  subscription and fit in the queue; what is left to clean is listed; the loop is what waits for
  the client, and once it has stopped waiting the driver is ready; and \<open>whenReady\<close> has fired when
  it is.
\<close>

definition mail_ok :: "('m, 't) driver \<Rightarrow> bool" where
  "mail_ok d \<longleftrightarrow>
     (\<forall>(h, msg)\<in>set (handleMessageCh d). deliverable (client_calls (calls d)) h (Topic msg)) \<and>
     length (handleMessageCh d) \<le> EVENT_QUEUE_LEN"

definition fired_ok :: "('m, 't) driver \<Rightarrow> bool" where
  "fired_ok d \<longleftrightarrow> (ready d \<longrightarrow> fns (whenReady d) = None)"

definition phase_ok :: "('m, 't) world \<Rightarrow> bool" where
  "phase_ok w \<longleftrightarrow>
     (case stopper w of Cleaning ts \<Rightarrow> set ts \<subseteq> set (cleanupTopics (drv w)) | _ \<Rightarrow> True) \<and>
     (waiting w \<longrightarrow> looping w) \<and> (looping w \<and> \<not> waiting w \<longrightarrow> ready (drv w))"

definition world_inv :: "('m, 't) world \<Rightarrow> bool" where
  "world_inv w \<longleftrightarrow> driver_inv {} {} (drv w) \<and> mail_ok (drv w) \<and> fired_ok (drv w) \<and> phase_ok w"

lemma deliverable_mono: "deliverable ks h t \<Longrightarrow> set ks \<subseteq> set ls \<Longrightarrow> deliverable ls h t"
  unfolding deliverable_def by blast

lemma mail_ok_grows:
  assumes "mail_ok d" "grows P d d'" "set (handleMessageCh d') \<subseteq> set (handleMessageCh d)"
    "length (handleMessageCh d') \<le> length (handleMessageCh d)"
  shows "mail_ok d'"
proof -
  have "set (client_calls (calls d)) \<subseteq> set (client_calls (calls d'))"
    using assms(2) by (auto simp: grows_def)
  note more = deliverable_mono [OF _ this]
  have "deliverable (client_calls (calls d')) h (Topic msg)"
    if "(h, msg) \<in> set (handleMessageCh d')" for h msg
  proof (rule more)
    show "deliverable (client_calls (calls d)) h (Topic msg)"
      using that assms(1,3) by (auto simp: mail_ok_def)
  qed
  with assms(1,4) show ?thesis by (auto simp: mail_ok_def)
qed

lemma fired_ok_grows: "fired_ok d \<Longrightarrow> grows P d d' \<Longrightarrow> ready d' = ready d \<Longrightarrow> fired_ok d'"
  by (simp add: fired_ok_def grows_def)

text \<open>A change of the driver that keeps the world's phase.\<close>

lemma world_inv_drv:
  assumes "world_inv w" "driver_inv {} {} d" "grows P (drv w) d"
    "handleMessageCh d = handleMessageCh (drv w)" "ready d = ready (drv w)"
  shows "world_inv (w\<lparr>drv := d\<rparr>)"
proof -
  have "mail_ok d"
    using assms(1) by (intro mail_ok_grows [OF _ assms(3)]) (simp_all add: world_inv_def assms(4))
  moreover have "fired_ok d"
    using assms(1) by (intro fired_ok_grows [OF _ assms(3,5)]) (simp add: world_inv_def)
  moreover have "phase_ok (w\<lparr>drv := d\<rparr>)"
  proof -
    have "set (cleanupTopics (drv w)) \<subseteq> set (cleanupTopics d)"
      using assms(3) by (simp add: grows_def)
    moreover have "phase_ok w" using assms(1) by (simp add: world_inv_def)
    ultimately show ?thesis
      unfolding phase_ok_def by (cases "stopper w") (auto simp: assms(5))
  qed
  ultimately show ?thesis
    using assms(2) by (simp add: world_inv_def)
qed

lemma world_inv_steady:
  assumes "world_inv w" "driver_inv {} {} d" "grows P (drv w) d" "steady d = steady (drv w)"
  shows "world_inv (w\<lparr>drv := d\<rparr>)"
  using world_inv_drv [OF assms(1-3)] assms(4) by (simp add: steady_def)

lemma world_inv_pop_message:
  "world_inv w \<Longrightarrow> handleMessageCh (drv w) = m # q \<Longrightarrow>
     world_inv (w\<lparr>drv := (drv w)\<lparr>handleMessageCh := q\<rparr>\<rparr>)"
  by (auto simp: world_inv_def mail_ok_def fired_ok_def phase_ok_def driver_inv_def cache_ok_def
      names_ok_def cleanup_ok_def calls_ok_def queue_ok_def split: stopper.splits)

lemma world_inv_pop_event:
  "world_inv w \<Longrightarrow> eventCh (drv w) = t # q \<Longrightarrow> world_inv (w\<lparr>drv := (drv w)\<lparr>eventCh := q\<rparr>\<rparr>)"
  by (auto simp: world_inv_def mail_ok_def fired_ok_def phase_ok_def driver_inv_def cache_ok_def
      names_ok_def cleanup_ok_def calls_ok_def queue_ok_def split: stopper.splits)

lemma world_inv_new: "world_inv (NewWorld m)"
proof -
  have "mail_ok (NewDriver m :: ('a, 'b) driver)" "fired_ok (NewDriver m :: ('a, 'b) driver)"
    by (simp_all add: NewDriver_def mail_ok_def fired_ok_def)
  then show ?thesis
    by (simp add: world_inv_def NewWorld_def driver_inv_NewDriver phase_ok_def)
qed

section \<open>Every step keeps it\<close>

lemma Start_effect:
  assumes run: "Start E d = Inr (d', err)"
  shows "grows (\<lambda>k. own_call k \<or> k = ModelStart \<or> k = Client MStart) d d'" "handleMessageCh d' = handleMessageCh d"
    "ready d' = ready d" "active d'"
proof -
  let ?P = "\<lambda>k. own_call k \<or> k = ModelStart \<or> k = Client MStart"
  have "grows ?P d d' \<and> handleMessageCh d' = handleMessageCh d \<and> ready d' = ready d \<and> active d'"
  proof (cases "active d")
    case True
    with run show ?thesis by (simp add: Start_def)
  next
    case False
    let ?d0 = "client MStart (d\<lparr>active := True\<rparr>)"
    from False run obtain d1 r where
      1: "invoke E ModelStart (env_Start E) ?d0 = Inr (d1, r)" and
      2: "d' = (case r of Some e \<Rightarrow> d1
                | None \<Rightarrow> step_if (acceptsExternalDevices d1) subscribeExternal d1)"
      by (auto simp: Start_def Let_def split: option.splits if_splits)
    have sub: "grows ?P d2 (subscribeExternal d2)" for d2 :: "('a, 'b) driver"
      unfolding subscribeExternal_def Let_def subscribe_def
      by (intro grows_trans [OF _ grows_client] grows_refl) auto
    have "grows ?P d ?d0"
      by (rule grows_trans [OF grows_fields(8) grows_client]) simp
    moreover from 1 have "grows ?P ?d0 d1" by (rule grows_invoke) auto
    moreover have "grows ?P d1 d'"
      unfolding 2 by (auto split: option.splits intro: grows_step_if sub)
    ultimately have "grows ?P d d'" by (blast intro: grows_trans)
    moreover have "steady ?d0 = steady (d\<lparr>active := True\<rparr>)"
      by (rule core_steady) simp
    moreover have "steady d' = steady d1"
      unfolding 2 by (auto split: option.splits intro!: core_steady core_step_if)
    ultimately show ?thesis
      using steady_invoke [OF 1] by (simp add: steady_def)
  qed
  then show "grows ?P d d'" "handleMessageCh d' = handleMessageCh d" "ready d' = ready d" "active d'"
    by auto
qed

lemma world_inv_start:
  assumes inv: "world_inv w" and "stopper w = NotStopping" and run: "Start E (drv w) = Inr (d, None)"
  shows "world_inv (w\<lparr>drv := d, looping := True, waiting := True, ticker := b\<rparr>)"
proof -
  have "driver_inv {} {} d"
    using inv run by (auto simp: world_inv_def intro: Start_preserves)
  from world_inv_drv [OF inv this] Start_effect [OF run] have "world_inv (w\<lparr>drv := d\<rparr>)" by blast
  with assms(2) show ?thesis by (simp add: world_inv_def phase_ok_def)
qed

lemma world_inv_start_failed:
  assumes inv: "world_inv w" and run: "Start E (drv w) = Inr (d, err)"
  shows "world_inv (w\<lparr>drv := d\<rparr>)"
proof -
  have "driver_inv {} {} d"
    using inv run by (auto simp: world_inv_def intro: Start_preserves)
  from world_inv_drv [OF inv this] Start_effect [OF run] show ?thesis by blast
qed

lemma driver_inv_ready [simp]: "driver_inv X S (d\<lparr>ready := b\<rparr>) = driver_inv X S d"
  by (simp add: inv_defs)

lemma world_inv_on_ready:
  assumes inv: "world_inv w" and "looping w" and run: "onReady E (drv w) = Inr d"
  shows "world_inv (w\<lparr>drv := d, waiting := False\<rparr>)"
proof -
  let ?d0 = "(drv w)\<lparr>whenReady := (whenReady (drv w))\<lparr>fns := None\<rparr>\<rparr>"
  from run obtain ts d1 where ts: "run_thunks E ts ?d0 = Inr d1" and d: "d = d1\<lparr>ready := True\<rparr>"
    by (auto simp: onReady_def Ready_def)
  have inv0: "driver_inv {} {} ?d0"
    using inv by (intro driver_inv_whenReady) (auto simp: world_inv_def driver_inv_def queue_ok_def)
  from run_thunks_preserves [OF this ts] have inv1: "driver_inv {} {} d1" .
  have g0: "grows own_call (drv w) ?d0" by (simp add: grows_def)
  note g1 = grows_run_thunks [OF ts]
  have "steady d1 = steady (drv w)"
    using steady_run_thunks [OF ts] by simp
  then have w1: "world_inv (w\<lparr>drv := d1\<rparr>)"
    by (rule world_inv_steady [OF inv inv1 grows_trans [OF g0 g1]])
  moreover have "fns (whenReady d1) = None"
    using g1 by (simp add: grows_def)
  ultimately show ?thesis
    using \<open>looping w\<close>
    by (auto simp: d world_inv_def mail_ok_def fired_ok_def phase_ok_def split: stopper.splits)
qed

lemma world_inv_invoke_unit:
  assumes "world_inv w" "invoke_unit E k a (drv w) = Inr d" "user_call_ok k"
  shows "world_inv (w\<lparr>drv := d\<rparr>)"
proof -
  have "driver_inv {} {} d"
    using assms by (auto simp: world_inv_def intro: invoke_unit_preserves)
  moreover have "grows (\<lambda>_. True) (drv w) d"
    using assms(2) by (rule grows_invoke_unit) auto
  ultimately show ?thesis
    using assms(1,2) by (blast intro: world_inv_steady steady_invoke_unit)
qed

lemma world_inv_client:
  assumes "world_inv w" "call_messages k = []" "call_ok (Client k)"
  shows "world_inv (w\<lparr>drv := client k (drv w)\<rparr>)"
proof (rule world_inv_steady [OF assms(1)])
  show "driver_inv {} {} (client k (drv w))"
    using assms by (intro client_preserves) (auto simp: world_inv_def)
  show "grows (\<lambda>_. True) (drv w) (client k (drv w))" by (rule grows_client) simp
qed (auto intro: core_steady)

lemma world_inv_on_quit:
  assumes inv: "world_inv w" and run: "onQuit E (drv w) = Inr d"
  shows "world_inv (w\<lparr>drv := d, looping := False, waiting := False, ticker := False,
    stopper := NotStopping\<rparr>)"
proof -
  from run obtain d1 where
    1: "invoke_unit E ModelStop (env_Stop E) (drv w) = Inr d1" and d: "d = client MStop d1"
    by (auto simp: onQuit_def)
  from world_inv_invoke_unit [OF inv 1] have "world_inv (w\<lparr>drv := d1\<rparr>)" by simp
  from world_inv_client [OF this, of MStop] have "world_inv (w\<lparr>drv := d\<rparr>)" by (simp add: d)
  then show ?thesis by (simp add: world_inv_def phase_ok_def)
qed

lemma world_inv_on_message:
  assumes inv: "world_inv w" and q: "handleMessageCh (drv w) = (h, msg) # q"
    and run: "run_handler E h msg ((drv w)\<lparr>handleMessageCh := q\<rparr>) = Inr d"
  shows "world_inv (w\<lparr>drv := d\<rparr>)"
proof -
  let ?w = "w\<lparr>drv := (drv w)\<lparr>handleMessageCh := q\<rparr>\<rparr>"
  have inv': "world_inv ?w" using inv q by (rule world_inv_pop_message)
  then have d: "driver_inv {} {} (drv ?w)" by (simp add: world_inv_def)
  have run': "run_handler E h msg (drv ?w) = Inr d" using run by simp
  have "world_inv (?w\<lparr>drv := d\<rparr>)"
    by (rule world_inv_steady [OF inv' run_handler_preserves [OF d run'] grows_run_handler [OF d run']])
       (rule steady_run_handler [OF run'])
  then show ?thesis by simp
qed

lemma world_inv_on_event:
  assumes inv: "world_inv w" and q: "eventCh (drv w) = t # q"
    and run: "run_thunk E t ((drv w)\<lparr>eventCh := q\<rparr>) = Inr d"
  shows "world_inv (w\<lparr>drv := d\<rparr>)"
proof -
  let ?w = "w\<lparr>drv := (drv w)\<lparr>eventCh := q\<rparr>\<rparr>"
  have inv': "world_inv ?w" using inv q by (rule world_inv_pop_event)
  then have d: "driver_inv {} {} (drv ?w)" by (simp add: world_inv_def)
  have run': "run_thunk E t (drv ?w) = Inr d" using run by simp
  have "world_inv (?w\<lparr>drv := d\<rparr>)"
    by (rule world_inv_steady [OF inv' run_thunk_preserves [OF d run'] grows_run_thunk [OF run']])
       (rule steady_run_thunk [OF run'])
  then show ?thesis by simp
qed

lemma world_inv_clean:
  assumes inv: "world_inv w" and st: "stopper w = Cleaning (t # ts)"
  shows "world_inv (w\<lparr>drv := publishClean t (drv w), stopper := Cleaning ts\<rparr>)"
proof -
  have "driver_inv {} {} (publishClean t (drv w))"
    using inv st unfolding publishClean_def
    by (intro PublishSync_preserves) (auto simp: world_inv_def phase_ok_def)
  then have "world_inv (w\<lparr>drv := publishClean t (drv w)\<rparr>)"
    by (rule world_inv_steady [OF inv, where P = own_call])
       (auto simp: publishClean_def intro: grows_client core_steady)
  with st show ?thesis by (simp add: world_inv_def phase_ok_def)
qed

lemma world_inv_HandleMessageSync:
  assumes "world_inv w" "deliverable (client_calls (calls (drv w))) h (Topic msg)"
    and "length (handleMessageCh (drv w)) < EVENT_QUEUE_LEN"
  shows "world_inv (w\<lparr>drv := HandleMessageSync h msg (drv w)\<rparr>)"
  using assms
  by (auto simp: world_inv_def mail_ok_def fired_ok_def phase_ok_def HandleMessageSync_def inv_defs
      split: stopper.splits)

lemma world_inv_settings:
  assumes "world_inv w"
  shows "world_inv (w\<lparr>drv := SetAutoPoll b (drv w)\<rparr>)"
    "world_inv (w\<lparr>drv := SetPollInterval i (drv w)\<rparr>)"
    "SetAcceptsExternalDevices b (drv w) = Inr d \<Longrightarrow> world_inv (w\<lparr>drv := d\<rparr>)"
  using assms
  by (auto simp: world_inv_def mail_ok_def fired_ok_def phase_ok_def inv_defs SetAutoPoll_def
      SetPollInterval_def SetAcceptsExternalDevices_def split: stopper.splits if_splits)

lemma world_inv_stop:
  "world_inv w \<Longrightarrow>
     world_inv (w\<lparr>drv := (drv w)\<lparr>active := False\<rparr>, stopper := Cleaning (cleanupTopics (drv w))\<rparr>)"
  by (auto simp: world_inv_def mail_ok_def fired_ok_def phase_ok_def)

lemma world_inv_queue:
  assumes inv: "world_inv w"
  shows "CallSync t (drv w) = Inr d \<Longrightarrow> world_inv (w\<lparr>drv := d\<rparr>)"
    "WhenReady t (drv w) = Inr d \<Longrightarrow> world_inv (w\<lparr>drv := d\<rparr>)"
proof -
  have d: "driver_inv {} {} (drv w)" using inv by (simp add: world_inv_def)
  show "CallSync t (drv w) = Inr d \<Longrightarrow> world_inv (w\<lparr>drv := d\<rparr>)"
    by (rule world_inv_steady [OF inv, where P = own_call])
       (auto intro: driver_inv_CallSync [OF d] grows_CallSync evolves_steady evolves_CallSync)
  show "WhenReady t (drv w) = Inr d \<Longrightarrow> world_inv (w\<lparr>drv := d\<rparr>)"
    by (rule world_inv_steady [OF inv, where P = own_call])
       (auto intro: driver_inv_WhenReady [OF d] grows_WhenReady evolves_steady evolves_WhenReady)
qed

lemma world_inv_step: "step E w w' \<Longrightarrow> world_inv w \<Longrightarrow> world_inv w'"
proof (induction rule: step.induct)
  case (on_poll w d)
  then show ?case
    by (auto simp: onPoll_def intro: world_inv_invoke_unit)
next
  case (cleaned w)
  then show ?case by (simp add: world_inv_def phase_ok_def)
qed (auto intro: world_inv_start world_inv_start_failed world_inv_on_ready world_inv_on_message
      world_inv_on_event world_inv_on_quit world_inv_stop world_inv_clean world_inv_HandleMessageSync
      world_inv_queue world_inv_settings)

lemma reachable_world_inv: "reachable E m w \<Longrightarrow> world_inv w"
  by (induction rule: reachable.induct) (auto intro: world_inv_new world_inv_step)

lemma reachable_steps: "steps E w w' \<Longrightarrow> reachable E m w \<Longrightarrow> reachable E m w'"
  by (induction rule: steps.induct) (auto intro: reachable.more)

end
