(* ===== verification/Driver_Demo.thy ===== *)
theory Driver_Demo
  imports Driver_Loop Driver_Controls
begin

text \<open>
  A small concrete system: a model with one local virtual device and one control, which accepts
  external devices. Its states are what the witnesses of the driver's properties are stated at.
\<close>

definition demo_dev :: device where
  "demo_dev = \<lparr>dev_ref = 1, DevName = ''d'', DevTitle = ''D'', is_local = True,
     is_external = False, is_virtual = True\<rparr>"

definition demo_ext :: device where
  "demo_ext = \<lparr>dev_ref = 2, DevName = ''x'', DevTitle = ''x'', is_local = False,
     is_external = True, is_virtual = False\<rparr>"

definition demo_control :: Control where
  "demo_control = \<lparr>Name = ''c'', Title = [], Type = ''value:lux'', Value = ''0'', Units = [],
     Writability = 0, HasMax = False, Max = 0, Forget = False, Order = 0\<rparr>"

text \<open>An external device that takes the local device's name when a thunk is run.\<close>

definition demo_swap :: device where
  "demo_swap = \<lparr>dev_ref = 3, DevName = ''d'', DevTitle = ''E'', is_local = False,
     is_external = True, is_virtual = False\<rparr>"

definition demo_env :: "(unit, unit) env" where
  "demo_env =
     \<lparr>env_Start = (\<lambda>m. Observer (OnNewDeviceCall demo_dev)
        (\<lambda>_. Observer (OnNewControlCall demo_dev demo_control) (\<lambda>_. Return () None))),
      env_Stop = (\<lambda>m. Return () ()),
      env_Poll = (\<lambda>m. Observer (OnValueCall demo_dev ''c'' ''5'') (\<lambda>_. Return () ())),
      env_AddExternalDevice = Some (\<lambda>n m. Return () (Inr demo_ext)),
      env_AcceptValue = (\<lambda>dev n v m. Return () ()),
      env_AcceptOnValue = (\<lambda>dev n v m. Return () True),
      env_SetTitle = (\<lambda>dev v m. Return () ()),
      env_AcceptControlType = (\<lambda>dev n v m. Return () ()),
      env_AcceptControlRange = (\<lambda>dev n v m. Return () ()),
      env_run = (\<lambda>t m. Observer (OnNewDeviceCall demo_swap) (\<lambda>_. Return () ())),
      env_ParseFloat = (\<lambda>s. None), env_FormatFloat = (\<lambda>f. [])\<rparr>"

definition demo_d1 :: "(unit, unit) driver" where
  "demo_d1 = (NewDriver ())\<lparr>acceptsExternalDevices := True\<rparr>"

text \<open>The driver as the model's \<open>Start\<close> leaves it, and with the external subscriptions.\<close>

definition demo_d2 :: "(unit, unit) driver" where
  "demo_d2 = subscribeExternal (fst (OnNewControl demo_env demo_dev demo_control
     (OnNewDevice demo_dev
       (demo_d1\<lparr>active := True, calls := [ModelObserve, Client MStart, ModelStart]\<rparr>))))"

definition demo_msg :: MQTTMessage where
  "demo_msg = \<lparr>Topic = ''/devices/x/controls/t'', Payload = ''7'', QoS = 1, Retained = True\<rparr>"

definition demo_d3 :: "(unit, unit) driver" where
  "demo_d3 = HandleMessageSync HandleIncomingControlValue demo_msg demo_d2"

text \<open>The message makes the model add the external device, which then gets the value.\<close>

definition demo_entry :: driverTopic where
  "demo_entry = \<lparr>ReceivedValue = ''7'', DeviceName = ''x'', ControlName = ''t'', Dev = Some demo_ext,
     topicReady = False, Skip = False\<rparr>"

definition demo_d4 :: "(unit, unit) driver" where
  "demo_d4 = demo_d2\<lparr>topics := (topics demo_d2)(''/devices/x/controls/t'' \<mapsto> demo_entry),
     deviceMap := (deviceMap demo_d2)(''x'' \<mapsto> demo_ext),
     calls := calls demo_d2 @ [AddExternalDevice ''x'', AcceptValue demo_ext ''t'' ''7'']\<rparr>"

lemma model_unit [simp]: "d\<lparr>model := m\<rparr> = d" for d :: "(unit, 't) driver"
  by (cases d) simp

lemma demo_set: "SetAcceptsExternalDevices True (NewDriver ()) = Inr demo_d1"
  by (simp add: SetAcceptsExternalDevices_def demo_d1_def NewDriver_def)

lemma demo_start: "Start demo_env demo_d1 = Inr (demo_d2, None)"
proof -
  have "active demo_d1 = False" "calls demo_d1 = [ModelObserve]" "autoPoll demo_d1"
    "pollInterval demo_d1 > 0" "acceptsExternalDevices demo_d1"
    by (simp_all add: demo_d1_def NewDriver_def DEFAULT_POLL_INTERVAL_def)
  moreover obtain d where d: "d = fst (OnNewControl demo_env demo_dev demo_control
     (OnNewDevice demo_dev (demo_d1\<lparr>active := True, calls := [ModelObserve, Client MStart, ModelStart]\<rparr>)))"
    by blast
  moreover have "core d = core (OnNewDevice demo_dev (demo_d1\<lparr>active := True,
      calls := [ModelObserve, Client MStart, ModelStart]\<rparr>))"
    by (simp add: d)
  from core_fields [OF this] have "autoPoll d = autoPoll demo_d1" "pollInterval d = pollInterval demo_d1"
    "acceptsExternalDevices d = acceptsExternalDevices demo_d1"
    by (simp_all add: core_fields [OF core_OnNewDevice] core_fields [OF core_unsubscribeControls]
        RemoveDevice_alt clearTopicDevCache_def Let_def step_if_def split: option.splits)
  ultimately show ?thesis
    by (simp add: Start_def invoke_def client_def demo_env_def [THEN arg_cong, of env_Start]
        demo_d2_def Let_def case_prod_beta)
qed


definition demo_world :: "(unit, unit) driver \<Rightarrow> (unit, unit) world" where
  "demo_world d = \<lparr>drv = d, looping = True, waiting = True, ticker = True, stopper = NotStopping\<rparr>"

lemma demo_d2_fields [simp]:
  "active demo_d2" "\<not> ready demo_d2" "autoPoll demo_d2" "acceptsExternalDevices demo_d2"
  "handleMessageCh demo_d2 = []" "eventCh demo_d2 = []" "topics demo_d2 = Map.empty"
  "deviceMap demo_d2 = [''d'' \<mapsto> demo_dev]"
  by (simp_all add: demo_d2_def core_fields [OF core_subscribeExternal] OnNewControl_fields
      core_fields [OF core_OnNewDevice] core_fields [OF core_unsubscribeControls] demo_d1_def
      NewDriver_def RemoveDevice_alt clearTopicDevCache_def Let_def step_if_def demo_dev_def
      split: option.splits)

lemma demo_d2_calls:
  "set (client_calls (calls demo_d2)) \<supseteq>
     {MSubscribe HandleIncomingControlValue [''/devices/+/controls/+''],
      MSubscribe HandleIncomingControlOnValue [controlTopic demo_dev ''c'' [''on'']]}"
proof -
  have "Writability demo_control \<noteq> ForceReadOnly" "Name demo_control = ''c''"
    by (simp_all add: demo_control_def ForceReadOnly_def)
  then show ?thesis
    by (simp add: demo_d2_def subscribeExternal_def OnNewControl_calls controlCalls_def Let_def
        client_calls_def metaMessage_def)
qed

lemma demo_reach2: "reachable demo_env () (demo_world demo_d2)"
proof -
  let ?w1 = "(NewWorld ())\<lparr>drv := demo_d1\<rparr>"
  have "reachable demo_env () ?w1"
    using reachable.more [OF reachable.new step.set_external [of True]] demo_set
    by (simp add: NewWorld_def)
  moreover have "step demo_env ?w1
    (?w1\<lparr>drv := demo_d2, looping := True, waiting := True, ticker := autoPoll demo_d2\<rparr>)"
    by (rule step.start) (simp_all add: NewWorld_def demo_start, simp add: demo_d1_def NewDriver_def)
  ultimately have "reachable demo_env ()
    (?w1\<lparr>drv := demo_d2, looping := True, waiting := True, ticker := autoPoll demo_d2\<rparr>)"
    by (rule reachable.more)
  then show ?thesis by (simp add: NewWorld_def demo_world_def)
qed

lemma demo_deliverable:
  "deliverable (client_calls (calls demo_d2)) HandleIncomingControlValue (Topic demo_msg)"
proof -
  have "MSubscribe HandleIncomingControlValue [''/devices/+/controls/+''] \<in> set (client_calls (calls demo_d2))"
    using demo_d2_calls by simp
  moreover have "''#'' \<notin> set (split_on CHR ''/'' ''/devices/+/controls/+'')"
    "topicMatch ''/devices/+/controls/+'' (Topic demo_msg)"
    by (simp_all add: topicMatch_def demo_msg_def)
  ultimately show ?thesis
    unfolding deliverable_def by (intro exI conjI) auto
qed

lemma demo_reach3: "reachable demo_env () (demo_world demo_d3)"
proof -
  from demo_deliverable have "step demo_env (demo_world demo_d2) (demo_world demo_d3)"
    using step.incoming [of "demo_world demo_d2" HandleIncomingControlValue demo_msg demo_env]
    by (simp add: demo_world_def demo_d3_def EVENT_QUEUE_LEN_def)
  with demo_reach2 show ?thesis by (rule reachable.more)
qed

lemma demo_mail: "handleMessageCh demo_d3 = [(HandleIncomingControlValue, demo_msg)]"
  by (simp add: demo_d3_def HandleMessageSync_def)

lemma demo_rest: "demo_d3\<lparr>handleMessageCh := []\<rparr> = demo_d2"
  by (simp add: demo_d3_def HandleMessageSync_def)

lemma demo_handle:
  "run_handler demo_env HandleIncomingControlValue demo_msg (demo_d3\<lparr>handleMessageCh := []\<rparr>) = Inr demo_d4"
  unfolding demo_rest
  by (simp add: handleIncomingControlValue_def storeReceivedValue_def resolveTopicDevice_def
      lookupTopicDevice_def ensureDevice_def deliverValue_def update_topic_def invoke_def
      invoke_unit_def demo_msg_def demo_env_def demo_dev_def demo_ext_def demo_d4_def
      demo_entry_def index_at_def Let_def case_prod_beta)

lemma demo_reach4: "reachable demo_env () (demo_world demo_d4)"
proof -
  have "step demo_env (demo_world demo_d3) ((demo_world demo_d3)\<lparr>drv := demo_d4\<rparr>)"
  proof (rule step.on_message)
    show "looping (demo_world demo_d3)"
      "handleMessageCh (drv (demo_world demo_d3)) = (HandleIncomingControlValue, demo_msg) # []"
      by (simp_all add: demo_world_def demo_mail)
    show "run_handler demo_env HandleIncomingControlValue demo_msg
        ((drv (demo_world demo_d3))\<lparr>handleMessageCh := []\<rparr>) = Inr demo_d4"
      using demo_handle by (simp only: demo_world_def world.select_convs)
  qed
  from reachable.more [OF demo_reach3 this] show ?thesis by (simp add: demo_world_def)
qed

lemma demo_call: "AcceptValue demo_ext ''t'' ''7'' \<in> set (calls demo_d4)"
  by (simp add: demo_d4_def)


section \<open>A message for a device that is gone\<close>

definition demo_on :: MQTTMessage where
  "demo_on = \<lparr>Topic = ''/devices/d/controls/c/on'', Payload = ''1'', QoS = 1, Retained = False\<rparr>"

definition demo_d5 :: "(unit, unit) driver" where
  "demo_d5 = HandleMessageSync HandleIncomingControlOnValue demo_on demo_d2"

definition demo_d6 :: "(unit, unit) driver" where
  "demo_d6 = demo_d5\<lparr>eventCh := [()]\<rparr>"

definition demo_d7 :: "(unit, unit) driver" where
  "demo_d7 = OnNewDevice demo_swap demo_d5"

lemma demo_reach5: "reachable demo_env () (demo_world demo_d5)"
proof -
  have topic: "controlTopic demo_dev ''c'' [''on''] = Topic demo_on"
    by (simp add: controlTopic_def topic_def demo_dev_def demo_on_def)
  have "''#'' \<notin> set (split_on CHR ''/'' (Topic demo_on))"
    by (simp add: demo_on_def)
  with demo_d2_calls have "deliverable (client_calls (calls demo_d2)) HandleIncomingControlOnValue (Topic demo_on)"
    unfolding deliverable_def topic topicMatch_def
    by (intro exI [of _ "[Topic demo_on]"] exI [of _ "Topic demo_on"]) (auto simp: topicPartsMatch_refl)
  then have "step demo_env (demo_world demo_d2) (demo_world demo_d5)"
    using step.incoming [of "demo_world demo_d2" HandleIncomingControlOnValue demo_on demo_env]
    by (simp add: demo_world_def demo_d5_def EVENT_QUEUE_LEN_def)
  with demo_reach2 show ?thesis by (rule reachable.more)
qed

lemma demo_d5_fields [simp]:
  "eventCh demo_d5 = []" "deviceMap demo_d5 = [''d'' \<mapsto> demo_dev]"
  "handleMessageCh demo_d5 = [(HandleIncomingControlOnValue, demo_on)]"
  by (simp_all add: demo_d5_def HandleMessageSync_def)

lemma demo_reach7: "reachable demo_env () (demo_world demo_d7)"
proof -
  have "step demo_env (demo_world demo_d5) (demo_world demo_d6)"
    using step.call_sync [of "()" "demo_world demo_d5" demo_d6 demo_env]
    by (simp add: demo_world_def demo_d6_def CallSync_def EVENT_QUEUE_LEN_def)
  with demo_reach5 have "reachable demo_env () (demo_world demo_d6)" by (rule reachable.more)
  moreover have "step demo_env (demo_world demo_d6) ((demo_world demo_d6)\<lparr>drv := demo_d7\<rparr>)"
  proof (rule step.on_event)
    show "looping (demo_world demo_d6)" "eventCh (drv (demo_world demo_d6)) = () # []"
      by (simp_all add: demo_world_def demo_d6_def)
    have "demo_d6\<lparr>eventCh := []\<rparr> = demo_d5"
      by (simp add: demo_d6_def)
    then show "run_thunk demo_env () ((drv (demo_world demo_d6))\<lparr>eventCh := []\<rparr>) = Inr demo_d7"
      by (simp add: demo_world_def run_thunk_def demo_env_def demo_d7_def)
  qed
  ultimately have "reachable demo_env () ((demo_world demo_d6)\<lparr>drv := demo_d7\<rparr>)"
    by (rule reachable.more)
  then show ?thesis by (simp add: demo_world_def)
qed

text \<open>
  The local device is replaced by an external one of the same name while a message for its control
  waits in the queue: handling that message is a failed type assertion.
\<close>

lemma stale_on_message_dies: "dies demo_env (demo_world demo_d7) TypeAssertion"
proof (rule dies.message_dies)
  show "looping (demo_world demo_d7)"
    "handleMessageCh (drv (demo_world demo_d7)) = (HandleIncomingControlOnValue, demo_on) # []"
    by (simp_all add: demo_world_def demo_d7_def)
  show "run_handler demo_env HandleIncomingControlOnValue demo_on
      ((drv (demo_world demo_d7))\<lparr>handleMessageCh := []\<rparr>) = Inl TypeAssertion"
    by (simp add: demo_world_def demo_d7_def handleIncomingControlOnValue_def demo_on_def
        index_at_def demo_swap_def)
qed

end
