(* ===== verification/Fake_Model_Properties.thy ===== *)
theory Fake_Model_Properties
  imports Fake_Model Driver_Demo
begin

text \<open>
  A driver on the fake model: what starting it makes the client do, to the last message, and what
  becomes of a message to an \<open>on\<close> topic of one of its devices.
\<close>

section \<open>A device and its controls are announced\<close>

definition fake_controls :: "FakeModel \<Rightarrow> nat \<Rightarrow> Control list" where
  "fake_controls m p = map (fake_control (fm_objects m ! p)) (sort (map fst (paramTypes (fm_objects m ! p))))"

text \<open>The client calls that announce_device a device: its title, then its controls, numbered from 1.\<close>

definition device_calls :: "('m, 't) env \<Rightarrow> device \<Rightarrow> Control list \<Rightarrow> handler mqtt_call list" where
  "device_calls E dev cs =
     MPublish \<lparr>Topic = topic dev [''meta'', ''name''], Payload = DevTitle dev, QoS = 1, Retained = True\<rparr> #
       concat (map (\<lambda>(i, c). controlCalls E dev c (int i) (Value c)) (enumerate 1 cs))"

lemma enumerate_snoc: "enumerate n (xs @ [x]) = enumerate n xs @ [(n + length xs, x)]"
  by (simp add: enumerate_append_eq)

text \<open>What the controls of one device leave alone: other devices, and all but the client calls.\<close>

lemma newControls_core [simp]: "core (newControls E dev cs d) = core d"
  by (induction cs arbitrary: d) simp_all

lemma newControls_other:
  "name \<noteq> DevName dev \<Longrightarrow>
     controlList (newControls E dev cs d) name = controlList d name"
  by (induction cs arbitrary: d) (simp_all add: OnNewControl_controlList)

lemma newControls_calls:
  assumes "\<forall>c\<in>set cs. Order c = 0" "topics d = Map.empty" "nextOrder d (DevName dev) = Some (int i)"
    "i + length cs < 2 ^ 63 - 1"
  shows "client_calls (calls (newControls E dev cs d)) =
      client_calls (calls d) @ concat (map (\<lambda>(i, c). controlCalls E dev c (int i) (Value c)) (enumerate i cs))"
  using assms
proof (induction cs arbitrary: d i)
  case (Cons c cs)
  let ?d = "fst (OnNewControl E dev c d)"
  have o: "controlOrder dev c d = int i" using Cons.prems by (simp add: controlOrder_def)
  have v: "initialValue dev c d = Value c" using Cons.prems(2) by (simp add: initialValue_def)
  have "nextOrder ?d (DevName dev) = Some (int (Suc i))"
    using Cons.prems(3,4) wrap64_succ [of "int i"] by (simp add: OnNewControl_nextOrder o)
  moreover have "topics ?d = Map.empty" using Cons.prems(2) by (simp add: OnNewControl_fields)
  moreover have "client_calls (map Client ks) = ks" for ks :: "handler mqtt_call list"
    by (induction ks) auto
  ultimately show ?case
    using Cons.IH [of ?d "Suc i"] Cons.prems by (simp add: OnNewControl_calls o v)
qed simp

lemma newControls_controlList:
  "controlList d (DevName dev) = Some ns \<Longrightarrow>
     controlList (newControls E dev cs d) (DevName dev) = Some (ns @ map Name cs)"
proof (induction cs arbitrary: d ns)
  case (Cons c cs)
  then show ?case by (simp add: OnNewControl_controlList)
qed simp

text \<open>A device that was not there before, with its controls.\<close>

definition new_device :: "('m, 't) env \<Rightarrow> device \<Rightarrow> Control list \<Rightarrow> ('m, 't) driver \<Rightarrow> ('m, 't) driver" where
  "new_device E dev cs d = newControls E dev cs (OnNewDevice dev d)"

lemma OnNewDevice_new:
  assumes "deviceMap d (DevName dev) = None" "\<not> is_external dev"
  shows "client_calls (calls (OnNewDevice dev d)) = client_calls (calls d) @
      [MPublish \<lparr>Topic = topic dev [''meta'', ''name''], Payload = DevTitle dev, QoS = 1, Retained = True\<rparr>]"
    "nextOrder (OnNewDevice dev d) (DevName dev) = Some 1"
    "controlList (OnNewDevice dev d) = (controlList d)(DevName dev \<mapsto> [])"
    "model (OnNewDevice dev d) = model d" "autoPoll (OnNewDevice dev d) = autoPoll d"
    "pollInterval (OnNewDevice dev d) = pollInterval d"
  using assms
  by (simp_all add: OnNewDevice_alt Let_def RemoveDevice_calls clearTopicDevCache_def RemoveDevice_alt
      core_fields [OF core_unsubscribeControls] core_fields [OF core_publish(2)])

lemma new_device_effect:
  assumes "deviceMap d (DevName dev) = None" "\<not> is_external dev" "topics d = Map.empty"
    and "\<forall>c\<in>set cs. Order c = 0" "length cs < 2 ^ 63 - 2"
  shows "client_calls (calls (new_device E dev cs d)) = client_calls (calls d) @ device_calls E dev cs"
    "deviceMap (new_device E dev cs d) = (deviceMap d)(DevName dev \<mapsto> dev)"
    "controlList (new_device E dev cs d) (DevName dev) = Some (map Name cs)"
    "name \<noteq> DevName dev \<Longrightarrow> controlList (new_device E dev cs d) name = controlList d name"
    "topics (new_device E dev cs d) = Map.empty" "model (new_device E dev cs d) = model d"
    "autoPoll (new_device E dev cs d) = autoPoll d" "pollInterval (new_device E dev cs d) = pollInterval d"
    "acceptsExternalDevices (new_device E dev cs d) = acceptsExternalDevices d"
    "active (new_device E dev cs d) = active d"
proof -
  note new = OnNewDevice_new [OF assms(1,2)] and core = core_fields [OF newControls_core]
  have t: "topics (OnNewDevice dev d) = Map.empty" using assms(3) by auto
  show "client_calls (calls (new_device E dev cs d)) = client_calls (calls d) @ device_calls E dev cs"
    using newControls_calls [OF assms(4) t, of dev 1] assms(5)
    by (simp add: new_device_def device_calls_def new)
  show "controlList (new_device E dev cs d) (DevName dev) = Some (map Name cs)"
    using newControls_controlList [of "OnNewDevice dev d" dev "[]"] by (simp add: new_device_def new)
  show "controlList (new_device E dev cs d) name = controlList d name" if "name \<noteq> DevName dev"
    using that by (simp add: new_device_def newControls_other new)
qed (use assms(3) in \<open>auto simp: new_device_def core_fields [OF newControls_core] OnNewDevice_new [OF assms(1,2)]\<close>)

section \<open>Running the model's code\<close>

lemma exec_observe_controls:
  "exec E (observe_all (map (OnNewControlCall dev) cs) a) d = exec E a (newControls E dev cs d)"
  by (induction cs arbitrary: d) (auto simp: case_prod_beta)

lemma observe_all_append: "observe_all (cs @ ds) a = observe_all cs (observe_all ds a)"
  by (induction cs) auto

lemma QueryParams_eq: "QueryParams m p = map (OnNewControlCall (device_at m p)) (fake_controls m p)"
  by (simp add: QueryParams_def fake_controls_def Let_def)

lemma exec_announce:
  "exec E (observe_all (announce_device m p @ cs) a) d =
     exec E (observe_all cs a) (new_device E (device_at m p) (fake_controls m p) d)"
  by (simp add: announce_device_def observe_all_append exec_observe_controls new_device_def QueryParams_eq)

text \<open>The local devices of the model, in the order of their names.\<close>

definition local_devices :: "FakeModel \<Rightarrow> nat list" where
  "local_devices m =
     filter (\<lambda>p. fd_local (fm_objects m ! p)) (List.map_filter (map_of (fm_devices m)) (sort (map fst (fm_devices m))))"

definition add_devices :: "('m, 't) env \<Rightarrow> FakeModel \<Rightarrow> nat list \<Rightarrow> ('m, 't) driver \<Rightarrow> ('m, 't) driver" where
  "add_devices E m ps d = fold (\<lambda>p. new_device E (device_at m p) (fake_controls m p)) ps d"

lemma exec_announcements:
  "exec E (observe_all (concat (map (\<lambda>name. case map_of (fm_devices m) name of
         None \<Rightarrow> []
       | Some p \<Rightarrow> if fd_local (fm_objects m ! p) then announce_device m p else []) ns)) a) d =
     exec E a (add_devices E m
       (filter (\<lambda>p. fd_local (fm_objects m ! p)) (List.map_filter (map_of (fm_devices m)) ns)) d)"
proof (induction ns arbitrary: d)
  case Nil
  show ?case by (simp add: add_devices_def)
next
  case (Cons n ns)
  show ?case
  proof (cases "map_of (fm_devices m) n")
    case None
    then show ?thesis using Cons by simp
  next
    case (Some p)
    then show ?thesis
      using Cons by (simp add: exec_announce) (simp add: add_devices_def)
  qed
qed

lemma exec_fakeStart:
  "exec E (fakeStart m) d = Inr ((add_devices E m (local_devices m) d)\<lparr>model := m\<lparr>fm_started := True\<rparr>\<rparr>, None)"
  unfolding fakeStart_def by (simp only: exec_announcements local_devices_def [symmetric]) simp

section \<open>Starting a driver on the fake model\<close>

text \<open>What the operations of the model keep: its map of devices leads to devices of that name.\<close>

definition fm_ok :: "FakeModel \<Rightarrow> bool" where
  "fm_ok m \<longleftrightarrow> distinct (map fst (fm_devices m)) \<and>
     (\<forall>name p. map_of (fm_devices m) name = Some p \<longrightarrow> p < length (fm_objects m) \<and> fd_name (fm_objects m ! p) = name)"

lemma device_at_fields [simp]:
  "DevName (device_at m p) = fd_name (fm_objects m ! p)" "DevTitle (device_at m p) = fd_title (fm_objects m ! p)"
  "is_local (device_at m p) = fd_local (fm_objects m ! p)"
  "is_external (device_at m p) = (\<not> fd_local (fm_objects m ! p))" "dev_ref (device_at m p) = p"
  by (simp_all add: device_at_def as_device_def)

lemma fake_control_fields [simp]:
  "Name (fake_control dev k) = k" "Order (fake_control dev k) = 0"
  "Value (fake_control dev k) = param (paramValues dev) k"
  by (simp_all add: fake_control_def)

lemma names_of_devices:
  assumes "fm_ok m" "set ns \<subseteq> set (map fst (fm_devices m))"
  shows "map (\<lambda>p. fd_name (fm_objects m ! p)) (List.map_filter (map_of (fm_devices m)) ns) = ns"
  using assms(2)
proof (induction ns)
  case (Cons n ns)
  then obtain p where "map_of (fm_devices m) n = Some p"
    by (cases "map_of (fm_devices m) n") (auto simp: map_of_eq_None_iff)
  with Cons assms(1) show ?case by (simp add: fm_ok_def)
qed simp

lemma distinct_local_devices:
  assumes "fm_ok m"
  shows "distinct (map (\<lambda>p. fd_name (fm_objects m ! p)) (local_devices m))"
proof -
  have "distinct (map (\<lambda>p. fd_name (fm_objects m ! p))
      (List.map_filter (map_of (fm_devices m)) (sort (map fst (fm_devices m)))))"
    using assms by (subst names_of_devices) (simp_all add: fm_ok_def)
  then show ?thesis by (simp add: local_devices_def distinct_map_filter)
qed

lemma set_map_filter: "set (List.map_filter f xs) = {y. \<exists>x\<in>set xs. f x = Some y}"
  by (induction xs) (auto split: option.split)

lemma local_devices_iff:
  "p \<in> set (local_devices m) \<longleftrightarrow> fd_local (fm_objects m ! p) \<and> (\<exists>name. map_of (fm_devices m) name = Some p)"
proof -
  have "name \<in> set (map fst (fm_devices m))" if "map_of (fm_devices m) name = Some p" for name
    using map_of_SomeD [OF that] by force
  then show ?thesis unfolding local_devices_def set_map_filter set_filter set_sort by blast
qed

lemma add_devices_effect:
  assumes "distinct (map (\<lambda>p. fd_name (fm_objects m ! p)) ps)" "topics d = Map.empty"
    and "\<forall>p\<in>set ps. fd_local (fm_objects m ! p) \<and> deviceMap d (fd_name (fm_objects m ! p)) = None \<and>
      length (fake_controls m p) < 2 ^ 63 - 2"
  shows "client_calls (calls (add_devices E m ps d)) = client_calls (calls d) @
      concat (map (\<lambda>p. device_calls E (device_at m p) (fake_controls m p)) ps) \<and>
    (\<forall>p\<in>set ps. deviceMap (add_devices E m ps d) (fd_name (fm_objects m ! p)) = Some (device_at m p) \<and>
      controlList (add_devices E m ps d) (fd_name (fm_objects m ! p)) = Some (map Name (fake_controls m p))) \<and>
    (\<forall>name. (\<forall>p\<in>set ps. fd_name (fm_objects m ! p) \<noteq> name) \<longrightarrow>
      deviceMap (add_devices E m ps d) name = deviceMap d name \<and>
      controlList (add_devices E m ps d) name = controlList d name) \<and>
    autoPoll (add_devices E m ps d) = autoPoll d \<and> pollInterval (add_devices E m ps d) = pollInterval d \<and>
    acceptsExternalDevices (add_devices E m ps d) = acceptsExternalDevices d"
  using assms
proof (induction ps arbitrary: d)
  case (Cons p ps)
  let ?d = "new_device E (device_at m p) (fake_controls m p) d"
  have zero: "\<forall>c\<in>set (fake_controls m p). Order c = 0" by (simp add: fake_controls_def)
  note new = new_device_effect [of d "device_at m p" "fake_controls m p", OF _ _ _ zero]
  have p: "deviceMap d (fd_name (fm_objects m ! p)) = None" "fd_local (fm_objects m ! p)"
    "length (fake_controls m p) < 2 ^ 63 - 2" "topics d = Map.empty"
    using Cons.prems by auto
  have n: "\<forall>q\<in>set ps. fd_name (fm_objects m ! q) \<noteq> fd_name (fm_objects m ! p)"
  proof
    fix q
    assume "q \<in> set ps"
    then have "fd_name (fm_objects m ! q) \<in> set (map (\<lambda>p. fd_name (fm_objects m ! p)) ps)" by simp
    with Cons.prems(1) show "fd_name (fm_objects m ! q) \<noteq> fd_name (fm_objects m ! p)"
      by (metis distinct.simps(2) list.simps(9))
  qed
  have "add_devices E m (p # ps) d = add_devices E m ps ?d" by (simp add: add_devices_def)
  moreover note Cons.IH [of ?d]
  moreover have "\<forall>q\<in>set ps. fd_local (fm_objects m ! q) \<and> deviceMap ?d (fd_name (fm_objects m ! q)) = None \<and>
      length (fake_controls m q) < 2 ^ 63 - 2"
    using Cons.prems(3) n p by (auto simp: new)
  moreover have "controlList ?d (fd_name (fm_objects m ! p)) = Some (map Name (fake_controls m p))"
    using new(3) p by simp
  ultimately show ?case
    using Cons.prems(1) p n by (simp add: new)
qed (simp add: add_devices_def)

text \<open>The subscriptions of a driver that accepts external devices.\<close>

definition external_subscriptions :: "handler mqtt_call list" where
  "external_subscriptions =
     [MSubscribe HandleDeviceTitle [''/devices/+/meta/name''],
      MSubscribe HandleIncomingControlValue [''/devices/+/controls/+''],
      MSubscribe HandleExternalControlType [''/devices/+/controls/+/meta/type''],
      MSubscribe HandleExternalControlMax [''/devices/+/controls/+/meta/max'']]"

text \<open>
  C14. Starting a driver on the fake model succeeds and makes exactly these calls on the client: it is
  started; every local device, in the order of the names, publishes its title and then, in the order
  of their names and numbered from 1, its controls with their types, values and subscriptions; then
  come the subscriptions for external devices, if they are accepted. The driver knows the devices
  and their controls afterwards, and the model knows that it was started.
\<close>

theorem fake_model_is_announced:
  fixes run :: "'t \<Rightarrow> FakeModel \<Rightarrow> ('t, unit) fake_act"
  assumes "fm_ok m" "\<forall>p\<in>set (local_devices m). length (paramTypes (fm_objects m ! p)) < 2 ^ 63 - 2"
  shows "\<exists>d. Start (fake_env run parse fmt) ((NewDriver m)\<lparr>acceptsExternalDevices := ext\<rparr>) = Inr (d, None) \<and>
    client_calls (calls d) = MStart #
      concat (map (\<lambda>p. device_calls (fake_env run parse fmt) (device_at m p) (fake_controls m p)) (local_devices m)) @
      (if ext then external_subscriptions else []) \<and>
    (\<forall>p\<in>set (local_devices m). deviceMap d (fd_name (fm_objects m ! p)) = Some (device_at m p) \<and>
      controlList d (fd_name (fm_objects m ! p)) = Some (sort (map fst (paramTypes (fm_objects m ! p))))) \<and>
    model d = m\<lparr>fm_started := True\<rparr>"
proof -
  let ?E = "fake_env run parse fmt"
  define d1 :: "(FakeModel, 't) driver" where
    "d1 = (client MStart ((NewDriver m)\<lparr>acceptsExternalDevices := ext, active := True\<rparr>))\<lparr>calls :=
       [ModelObserve, Client MStart, ModelStart]\<rparr>"
  let ?d2 = "add_devices ?E m (local_devices m) d1"
  have d1: "topics d1 = Map.empty" "deviceMap d1 = Map.empty" "client_calls (calls d1) = [MStart]"
    "autoPoll d1" "pollInterval d1 > 0" "acceptsExternalDevices d1 = ext"
    by (simp_all add: d1_def NewDriver_def client_def DEFAULT_POLL_INTERVAL_def)
  have "\<forall>p\<in>set (local_devices m). fd_local (fm_objects m ! p) \<and> deviceMap d1 (fd_name (fm_objects m ! p)) = None \<and>
      length (fake_controls m p) < 2 ^ 63 - 2"
    using assms(2) d1(2) by (auto simp: local_devices_iff fake_controls_def)
  note eff = add_devices_effect [OF distinct_local_devices [OF assms(1)] d1(1) this, of ?E]
  define d where "d = step_if ext subscribeExternal (?d2\<lparr>model := m\<lparr>fm_started := True\<rparr>\<rparr>)"
  have "env_Start ?E = fakeStart" by (simp add: fake_env_def)
  then have "Start ?E ((NewDriver m)\<lparr>acceptsExternalDevices := ext\<rparr>) = Inr (d, None)"
    using eff d1(4-6)
    by (simp add: Start_def invoke_def exec_fakeStart d_def)
       (simp add: d1_def NewDriver_def client_def exec_fakeStart)
  moreover have "client_calls (calls d) = client_calls (calls ?d2) @ (if ext then external_subscriptions else [])"
    by (simp add: d_def subscribeExternal_def Let_def external_subscriptions_def step_if_def)
  moreover have "deviceMap d = deviceMap ?d2" "controlList d = controlList ?d2" "model d = m\<lparr>fm_started := True\<rparr>"
    by (simp_all add: d_def step_if_def core_fields [OF core_subscribeExternal]) (simp add: subscribeExternal_def Let_def)
  moreover have "map Name (fake_controls m p) = sort (map fst (paramTypes (fm_objects m ! p)))" for p
    by (simp add: fake_controls_def comp_def)
  ultimately show ?thesis using eff d1(3) by (intro exI [of _ d]) simp
qed

section \<open>What the model keeps\<close>

lemma fm_ok_new: "fm_ok NewFakeModel"
  by (simp add: fm_ok_def NewFakeModel_def)

lemma fm_ok_add_device:
  assumes "fm_ok m" "fd_name dev = name"
  shows "fm_ok (add_device name dev m)"
  using assms by (auto simp: fm_ok_def add_device_def distinct_update update_conv nth_append less_SucI split: if_splits)

lemma fm_ok_update_dev:
  assumes "fm_ok m" "\<And>dev. fd_name (f dev) = fd_name dev"
  shows "fm_ok (update_dev p f m)"
proof -
  have "fd_name ((fm_objects m)[p := f (fm_objects m ! p)] ! q) = fd_name (fm_objects m ! q)" for q
    using assms(2) by (cases "q = p"; cases "q < length (fm_objects m)") (simp_all add: list_update_beyond)
  with assms(1) show ?thesis by (simp add: fm_ok_def update_dev_def)
qed

lemma makeLocalDevice_adds:
  "\<exists>dev. fd_name dev = name \<and> fd_local dev \<and> fd_virtual dev = virtual \<and> makeLocalDevice name title types virtual m =
     observe_all (if fm_started m then announce_device (add_device name dev m) (length (fm_objects m)) else [])
       (Return (add_device name dev m) (length (fm_objects m)))"
proof -
  define dev where "dev = fold (\<lambda>(k, v) dev. dev\<lparr>paramTypes := AList.update k v (paramTypes dev),
      paramValues := AList.update k ''0'' (paramValues dev)\<rparr>) types
      ((newFakeDevice name title)\<lparr>fd_local := True, fd_virtual := virtual\<rparr>)"
  have "fd_name dev = name" unfolding dev_def by (subst fold_field) (auto simp: newFakeDevice_def)
  moreover have "fd_local dev" unfolding dev_def by (subst fold_field) (auto simp: newFakeDevice_def)
  moreover have "fd_virtual dev = virtual" unfolding dev_def by (subst fold_field) (auto simp: newFakeDevice_def)
  ultimately show ?thesis
    unfolding makeLocalDevice_def Let_def dev_def [symmetric]
    by (intro exI [of _ dev]) (simp add: add_device_def)
qed

lemma fm_ok_makeLocalDevice:
  assumes "fm_ok m" "\<not> fm_started m"
  shows "\<exists>m'. (makeLocalDevice name title types virtual m :: ('t, nat) fake_act) = Return m' (length (fm_objects m)) \<and>
    fm_ok m' \<and> \<not> fm_started m' \<and> fm_devices m' = AList.update name (length (fm_objects m)) (fm_devices m)"
proof -
  obtain dev where dev: "fd_name dev = name" "(makeLocalDevice name title types virtual m :: ('t, nat) fake_act) =
      observe_all (if fm_started m then announce_device (add_device name dev m) (length (fm_objects m)) else [])
        (Return (add_device name dev m) (length (fm_objects m)))"
    using makeLocalDevice_adds by blast
  with assms fm_ok_add_device [OF assms(1) dev(1)] show ?thesis
    by (intro exI [of _ "add_device name dev m"]) (simp add: add_device_def)
qed

text \<open>A device that a test makes once the model runs is announced to the driver at once.\<close>

lemma exec_makeLocalDevice:
  fixes E :: "(FakeModel, 't) env"
  assumes "fm_started m" "fm_ok m"
  shows "\<exists>m' p. exec E (makeLocalDevice name title types virtual m) d =
      Inr ((new_device E (device_at m' p) (fake_controls m' p) d)\<lparr>model := m'\<rparr>, p) \<and>
    fm_ok m' \<and> GetDevice m' name = Some p \<and> p \<in> set (local_devices m') \<and>
    (is_virtual (device_at m' p) \<longleftrightarrow> virtual)"
proof -
  obtain dev where dev: "fd_name dev = name" "fd_local dev" "fd_virtual dev = virtual"
    "(makeLocalDevice name title types virtual m :: ('t, nat) fake_act) =
      observe_all (announce_device (add_device name dev m) (length (fm_objects m)) @ [])
        (Return (add_device name dev m) (length (fm_objects m)))"
    using makeLocalDevice_adds [of name virtual title types m] assms(1) by auto
  let ?m = "add_device name dev m" and ?p = "length (fm_objects m)"
  have "map_of (fm_devices ?m) name = Some ?p" "fm_objects ?m ! ?p = dev"
    by (simp_all add: add_device_def update_conv')
  then have "GetDevice ?m name = Some ?p" "?p \<in> set (local_devices ?m)"
    "is_virtual (device_at ?m ?p) \<longleftrightarrow> virtual"
    using dev(2,3) by (auto simp: GetDevice_def local_devices_iff device_at_def as_device_def)
  moreover have "exec E (makeLocalDevice name title types virtual m) d =
      Inr ((new_device E (device_at ?m ?p) (fake_controls ?m ?p) d)\<lparr>model := ?m\<rparr>, ?p)"
    unfolding dev(4) exec_announce by simp
  ultimately show ?thesis using fm_ok_add_device [OF assms(2) dev(1)] by blast
qed

text \<open>The witness: a model with one device of two parameters.\<close>

definition demo_fake_model :: FakeModel where
  "demo_fake_model =
     (case makeLocalDevice ''lamp'' ''Lamp'' [(''power'', ''switch''), (''level'', ''range'')] False NewFakeModel
         :: (unit, nat) fake_act of
        Return m p \<Rightarrow> m | Observer c k \<Rightarrow> NewFakeModel)"

lemma demo_fake_model_eq:
  "demo_fake_model = \<lparr>items = [], fm_devices = [(''lamp'', 0)],
     fm_objects = [\<lparr>fd_name = ''lamp'', fd_title = ''Lamp'', fd_local = True, fd_virtual = False,
       paramTypes = [(''power'', ''switch''), (''level'', ''range'')],
       paramValues = [(''power'', ''0''), (''level'', ''0'')]\<rparr>], fm_started = False\<rparr>"
  by (simp add: demo_fake_model_def makeLocalDevice_def NewFakeModel_def newFakeDevice_def add_device_def Let_def)

lemma demo_fake_model_ok: "fm_ok demo_fake_model"
  by (simp add: demo_fake_model_eq fm_ok_def)

lemma demo_local_devices: "local_devices demo_fake_model = [0]"
  by (simp add: local_devices_def demo_fake_model_eq)

lemma fake_model_is_announced_witness:
  "\<exists>d :: (FakeModel, unit) driver.
    Start (fake_env (\<lambda>t m. Return m ()) (\<lambda>s. None) (\<lambda>f. [])) (NewDriver demo_fake_model) = Inr (d, None) \<and>
    controlList d ''lamp'' = Some [''level'', ''power''] \<and> length (client_calls (calls d)) = 10"
proof -
  define E :: "(FakeModel, unit) env" where "E = fake_env (\<lambda>t m. Return m ()) (\<lambda>s. None) (\<lambda>f. [])"
  have sorted: "sort [''power'', ''level''] = [''level'', ''power'']" by simp
  have dev: "fm_objects demo_fake_model ! 0 = \<lparr>fd_name = ''lamp'', fd_title = ''Lamp'', fd_local = True,
      fd_virtual = False, paramTypes = [(''power'', ''switch''), (''level'', ''range'')],
      paramValues = [(''power'', ''0''), (''level'', ''0'')]\<rparr>"
    by (simp add: demo_fake_model_eq)
  have "\<forall>p\<in>set (local_devices demo_fake_model). length (paramTypes (fm_objects demo_fake_model ! p)) < 2 ^ 63 - 2"
    by (simp add: demo_local_devices dev)
  from fake_model_is_announced [OF demo_fake_model_ok this, of "\<lambda>t m. Return m ()" "\<lambda>s. None" "\<lambda>f. []" False]
  obtain d where d: "Start E ((NewDriver demo_fake_model)\<lparr>acceptsExternalDevices := False\<rparr>) = Inr (d, None)"
    "client_calls (calls d) = MStart # device_calls E (device_at demo_fake_model 0) (fake_controls demo_fake_model 0)"
    "controlList d ''lamp'' = Some [''level'', ''power'']"
    unfolding E_def by (auto simp: demo_local_devices dev sorted simp del: sort_key_simps)
  have "(NewDriver demo_fake_model)\<lparr>acceptsExternalDevices := False\<rparr> = (NewDriver demo_fake_model :: (FakeModel, unit) driver)"
    by (simp add: NewDriver_def)
  moreover have "length (device_calls E (device_at demo_fake_model 0) (fake_controls demo_fake_model 0)) = 9"
    by (simp add: device_calls_def fake_controls_def dev sorted controlCalls_def Let_def fake_control_def GetUnits_def
        param_def Retain_def pushButtonType_def ForceReadOnly_def ForceWritable_def)
  ultimately show ?thesis using d unfolding E_def [symmetric] by auto
qed

section \<open>Values for a device\<close>

text \<open>
  C35. A message to the \<open>on\<close> topic of a control of a fake device is taken: that parameter of that
  device has the payload as its value and no other has changed, the test finds one item for it, and
  the driver publishes the value back on the control's topic, and nothing else.
\<close>

theorem fake_device_takes_on_value:
  assumes "Topic msg = controlTopic dev n [''on'']" "CHR ''/'' \<notin> set (DevName dev)" "CHR ''/'' \<notin> set n"
    and "deviceMap d (DevName dev) = Some dev" "is_local dev" "dev_ref dev < length (fm_objects (model d))"
  shows "\<exists>d'. handleIncomingControlOnValue (fake_env run parse fmt) msg d = Inr d' \<and>
    fakeGetValue (model d') (dev_ref dev) n = Payload msg \<and>
    (\<forall>q k. q \<noteq> dev_ref dev \<or> k \<noteq> n \<longrightarrow> fakeGetValue (model d') q k = fakeGetValue (model d) q k) \<and>
    items (model d') = items (model d) @ [''AcceptOnValue: '' @ DevName dev @ ''.'' @ n @ '' = '' @ Payload msg] \<and>
    client_calls (calls d') = client_calls (calls d) @
      [MPublish \<lparr>Topic = controlTopic dev n [], Payload = Payload msg, QoS = 1,
         Retained = get_or False (retainMap d) (controlTopic dev n [])\<rparr>]"
proof -
  let ?m = "fm_rec (value_item ''AcceptOnValue'' dev n (Payload msg))
    (update_dev (dev_ref dev) (set_param n (Payload msg)) (model d))"
  define d' where "d' = publishValue dev n (Payload msg)
    (d\<lparr>calls := calls d @ [AcceptOnValue dev n (Payload msg)], model := ?m\<rparr>)"
  have "split_on CHR ''/'' (Topic msg) = ['''', ''devices'', DevName dev, ''controls'', n, ''on'']"
    using controlTopic_split [OF assms(2,3), of "[''on'']"] assms(1) by simp
  then have "handleIncomingControlOnValue (fake_env run parse fmt) msg d = Inr d'"
    using assms(4,5)
    by (simp add: handleIncomingControlOnValue_def index_at_def fake_env_def invoke_def fakeAcceptOnValue_def d'_def)
  moreover have "model d' = ?m" by (simp add: d'_def core_fields [OF core_publish(3)])
  moreover have "fakeGetValue ?m q k =
      (if q = dev_ref dev \<and> k = n then Payload msg else fakeGetValue (model d) q k)" for q k
    using assms(6)
    by (cases "q = dev_ref dev")
       (simp_all add: fakeGetValue_def fm_rec_def update_dev_def set_param_def param_def get_or_def update_conv')
  moreover have "items ?m = items (model d) @ [''AcceptOnValue: '' @ DevName dev @ ''.'' @ n @ '' = '' @ Payload msg]"
    by (simp add: fm_rec_def update_dev_def value_item_def)
  ultimately show ?thesis by (intro exI [of _ d']) (simp add: d'_def)
qed

definition lamp_message :: MQTTMessage where
  "lamp_message = \<lparr>Topic = ''/devices/lamp/controls/power/on'', Payload = ''1'', QoS = 1, Retained = False\<rparr>"

definition demo_lamp :: device where
  "demo_lamp = device_at demo_fake_model 0"

definition lamp_driver :: "(FakeModel, unit) driver" where
  "lamp_driver = (NewDriver demo_fake_model)\<lparr>deviceMap := [''lamp'' \<mapsto> demo_lamp]\<rparr>"

lemma fake_device_takes_on_value_witness:
  "\<exists>d'. handleIncomingControlOnValue (fake_env (\<lambda>t m. Return m ()) (\<lambda>s. None) (\<lambda>f. [])) lamp_message lamp_driver = Inr d' \<and>
    fakeGetValue (model d') 0 ''power'' = ''1'' \<and> fakeGetValue (model d') 0 ''level'' = ''0'' \<and>
    items (model d') = [''AcceptOnValue: lamp.power = 1'']"
proof -
  have dev: "demo_lamp = \<lparr>dev_ref = 0, DevName = ''lamp'', DevTitle = ''Lamp'', is_local = True,
      is_external = False, is_virtual = False\<rparr>"
    by (simp add: demo_lamp_def device_at_def as_device_def demo_fake_model_eq)
  have m: "model lamp_driver = demo_fake_model" "deviceMap lamp_driver = [''lamp'' \<mapsto> demo_lamp]"
    by (simp_all add: lamp_driver_def NewDriver_def)
  have t: "Topic lamp_message = controlTopic demo_lamp ''power'' [''on'']" "Payload lamp_message = ''1''"
    by (simp_all add: lamp_message_def dev controlTopic_def topic_def)
  have h: "CHR ''/'' \<notin> set (DevName demo_lamp)" "CHR ''/'' \<notin> set ''power''"
    "deviceMap lamp_driver (DevName demo_lamp) = Some demo_lamp" "is_local demo_lamp"
    "dev_ref demo_lamp < length (fm_objects (model lamp_driver))"
    by (simp_all add: m dev demo_fake_model_eq)
  have v: "fakeGetValue demo_fake_model 0 ''level'' = ''0''" "items demo_fake_model = []"
    by (simp_all add: fakeGetValue_def param_def demo_fake_model_eq)
  obtain d' where d': "handleIncomingControlOnValue (fake_env (\<lambda>t m. Return m ()) (\<lambda>s. None) (\<lambda>f. []))
      lamp_message lamp_driver = Inr d'"
    "fakeGetValue (model d') (dev_ref demo_lamp) ''power'' = ''1''"
    "\<forall>q k. q \<noteq> dev_ref demo_lamp \<or> k \<noteq> ''power'' \<longrightarrow>
       fakeGetValue (model d') q k = fakeGetValue (model lamp_driver) q k"
    "items (model d') = items (model lamp_driver) @
       [''AcceptOnValue: '' @ DevName demo_lamp @ ''.'' @ ''power'' @ '' = '' @ ''1'']"
    using fake_device_takes_on_value [OF t(1) h, of "\<lambda>t m. Return m ()" "\<lambda>s. None" "\<lambda>f. []"] unfolding t(2) by blast
  have "fakeGetValue (model d') 0 ''level'' = ''0''" using d'(3) v(1) by (simp add: m)
  with d' v(2) show ?thesis by (intro exI [of _ d']) (simp add: m dev)
qed

end
