(* ===== verification/Driver_Values.thy ===== *)
theory Driver_Values
  imports Driver_Loop Driver_Controls
begin

text \<open>
  The last value the driver has heard on each topic of a control: every step of the running system
  keeps it, but for the handling of a value, which sets it. With it, the value a control starts with
  can be said without a word on the cache of topics.
\<close>

section \<open>What the cache remembers\<close>

definition heard :: "('m, 't) driver \<Rightarrow> string \<Rightarrow> string option" where
  "heard d t = map_option ReceivedValue (topics d t)"

lemma heard_cong: "topics d' = topics d \<Longrightarrow> heard d' = heard d"
  by (simp add: heard_def fun_eq_iff)

lemma heard_evolves: "evolves d d' \<Longrightarrow> heard d' = heard d"
proof
  fix t
  assume "evolves d d'"
  then have "topics d' t = topics d t \<or> topics d' t = map_option resetDevice (topics d t)"
    unfolding evolves_def by blast
  then show "heard d' t = heard d t"
    by (auto simp: heard_def resetDevice_def option.map_comp comp_def)
qed

lemma heard_core: "core d' = core d \<Longrightarrow> heard d' = heard d"
  by (rule heard_cong) (rule core_fields)

lemma heard_fields [simp]:
  "heard (d\<lparr>calls := ks\<rparr>) = heard d" "heard (d\<lparr>deviceMap := dm\<rparr>) = heard d"
  "heard (d\<lparr>handleMessageCh := q\<rparr>) = heard d" "heard (d\<lparr>eventCh := q'\<rparr>) = heard d"
  "heard (d\<lparr>whenReady := wr\<rparr>) = heard d" "heard (d\<lparr>ready := b\<rparr>) = heard d"
  "heard (d\<lparr>active := b\<rparr>) = heard d" "heard (client k d) = heard d"
  "heard (d\<lparr>autoPoll := b\<rparr>) = heard d" "heard (d\<lparr>pollInterval := i\<rparr>) = heard d"
  by (simp_all add: heard_def fun_eq_iff client_def)

lemma heard_update_topic [simp]:
  "(\<And>e. ReceivedValue (f e) = ReceivedValue e) \<Longrightarrow> heard (update_topic t f d) = heard d"
  by (auto simp: heard_def update_topic_def fun_eq_iff option.map_comp comp_def)

lemma heard_exec: "exec E a d = Inr (d', r) \<Longrightarrow> heard d' = heard d"
  by (rule heard_evolves) (rule evolves_exec)

lemma heard_invoke: "invoke E k a d = Inr (d', r) \<Longrightarrow> heard d' = heard d"
  by (auto simp: invoke_def dest: heard_exec)

lemma heard_invoke_unit: "invoke_unit E k a d = Inr d' \<Longrightarrow> heard d' = heard d"
  by (auto simp: invoke_unit_def dest: heard_invoke)

lemma heard_run_thunk: "run_thunk E t d = Inr d' \<Longrightarrow> heard d' = heard d"
  by (auto simp: run_thunk_def dest: heard_exec)

lemma heard_run_thunks: "run_thunks E ts d = Inr d' \<Longrightarrow> heard d' = heard d"
  by (induction ts arbitrary: d) (auto dest: heard_run_thunk)

lemma heard_ensureDevice:
  assumes "ensureDevice E n d = Inr (d', r)"
  shows "heard d' = heard d"
  using assms
proof (cases rule: ensureDevice_cases)
  case (2 f d1 r1)
  with heard_invoke [OF 2(2)] show ?thesis by auto
qed simp

lemma heard_ensureExtDevice: "ensureExtDevice E n d = Inr (d', r) \<Longrightarrow> heard d' = heard d"
  by (erule ensureExtDevice_Inr) (rule heard_ensureDevice)

lemma heard_lookupTopicDevice: "lookupTopicDevice E n d = Inr (d', r) \<Longrightarrow> heard d' = heard d"
  by (auto simp: lookupTopicDevice_def dest: heard_ensureDevice heard_ensureExtDevice split: if_splits)

lemma heard_resolveTopicDevice:
  assumes "resolveTopicDevice E t e d = Inr d'"
  shows "heard d' = heard d"
  using assms
proof (cases rule: resolveTopicDevice_Inr)
  case (1 d1 r f)
  from heard_lookupTopicDevice [OF 1(1)] 1(2,4) show ?thesis by simp
qed

lemma heard_storeReceivedValue:
  "storeReceivedValue msg d = Inr d' \<Longrightarrow> heard d' = (heard d)(Topic msg \<mapsto> Payload msg)"
  by (auto simp: storeReceivedValue_def heard_def update_topic_def Let_def fun_eq_iff
      split: option.splits)

lemma heard_handleIncomingControlValue:
  assumes "handleIncomingControlValue E msg d = Inr d'"
  shows "heard d' = (heard d)(Topic msg \<mapsto> Payload msg)"
proof -
  from assms obtain d1 e d2 where
    1: "storeReceivedValue msg d = Inr d1" and
    2: "(if Dev e = None \<or> topicReady e \<noteq> ready d1
         then resolveTopicDevice E (Topic msg) e d1 else Inr d1) = Inr d2" and
    3: "deliverValue E msg d2 = Inr d'"
    by (auto simp: handleIncomingControlValue_def split: option.splits)
  from 3 have "heard d' = heard d2"
    by (auto simp: deliverValue_def dest: heard_invoke_unit split: option.splits if_splits)
  moreover have "heard d2 = heard d1"
    using 2 heard_resolveTopicDevice [of E "Topic msg" e d1 d2] by (auto split: if_splits)
  ultimately have "heard d' = heard d1" by simp
  with heard_storeReceivedValue [OF 1] show ?thesis by simp
qed

lemma heard_with_external:
  assumes "with_external E n body d = Inr d'" "\<And>dev d d'. body dev d = Inr d' \<Longrightarrow> heard d' = heard d"
  shows "heard d' = heard d"
proof -
  from assms(1) obtain d1 r where 1: "ensureExtDevice E n d = Inr (d1, r)"
    and 2: "(case r of Inr (Some dev) \<Rightarrow> body dev d1 | _ \<Rightarrow> Inr d1) = Inr d'"
    by (auto simp: with_external_def)
  from 2 have "heard d' = heard d1"
    by (auto split: sum.splits option.splits dest: assms(2))
  with heard_ensureExtDevice [OF 1] show ?thesis by simp
qed

lemma heard_handleIncomingControlOnValue:
  assumes "handleIncomingControlOnValue E msg d = Inr d'"
  shows "heard d' = heard d"
proof (cases "deviceMap d (split_on CHR ''/'' (Topic msg) ! 2)")
  case None
  with assms show ?thesis by (auto simp: handleIncomingControlOnValue_def Let_def)
next
  case (Some dev)
  with assms obtain n d1 echo where
    "invoke E (AcceptOnValue dev n (Payload msg)) (env_AcceptOnValue E dev n (Payload msg)) d
       = Inr (d1, echo)"
    and d': "d' = step_if echo (publishValue dev n (Payload msg)) d1"
    by (auto simp: handleIncomingControlOnValue_def Let_def split: if_splits)
  from heard_invoke [OF this(1)] have "heard d1 = heard d" .
  moreover have "heard d' = heard d1"
    by (rule heard_core) (simp add: d' core_step_if)
  ultimately show ?thesis by simp
qed

lemma heard_run_handler:
  assumes "run_handler E h msg d = Inr d'"
  shows "heard d' = (if h = HandleIncomingControlValue
    then (heard d)(Topic msg \<mapsto> Payload msg) else heard d)"
proof -
  have title: "handleDeviceTitle E msg d = Inr d' \<Longrightarrow> heard d' = heard d"
    by (auto simp: handleDeviceTitle_def elim!: heard_with_external heard_invoke_unit)
  have type: "handleExternalControlType E msg d = Inr d' \<Longrightarrow> heard d' = heard d"
    by (auto simp: handleExternalControlType_def Let_def elim!: heard_with_external heard_invoke_unit)
  have max: "handleExternalControlMax E msg d = Inr d' \<Longrightarrow> heard d' = heard d"
    by (auto simp: handleExternalControlMax_def Let_def elim!: heard_with_external
        dest: heard_invoke_unit split: option.splits)
  show ?thesis
    using assms heard_handleIncomingControlValue heard_handleIncomingControlOnValue title type max
    by (cases h) auto
qed

lemma heard_Start:
  assumes "Start E d = Inr (d', err)"
  shows "heard d' = heard d"
proof (cases "active d")
  case False
  with assms obtain d1 r where
    1: "invoke E ModelStart (env_Start E) (client MStart (d\<lparr>active := True\<rparr>)) = Inr (d1, r)" and
    2: "d' = (case r of Some e \<Rightarrow> d1
              | None \<Rightarrow> step_if (acceptsExternalDevices d1) subscribeExternal d1)"
    by (auto simp: Start_def Let_def split: option.splits if_splits)
  have "heard d' = heard d1"
    unfolding 2 by (auto split: option.splits intro!: heard_core core_step_if)
  with heard_invoke [OF 1] show ?thesis by simp
qed (use assms in \<open>simp add: Start_def\<close>)

section \<open>The last value received\<close>

text \<open>
  The value message a step handles: the first of the queue, when the step has taken it from there.
\<close>

definition value_taken :: "('m, 't) world \<Rightarrow> ('m, 't) world \<Rightarrow> MQTTMessage option" where
  "value_taken w w' =
     (case handleMessageCh (drv w) of
        (HandleIncomingControlValue, msg) # q \<Rightarrow>
          if handleMessageCh (drv w') = q then Some msg else None
      | _ \<Rightarrow> None)"

fun record_value :: "MQTTMessage option \<Rightarrow> (string \<Rightarrow> string option) \<Rightarrow> string \<Rightarrow> string option" where
  "record_value None f = f"
| "record_value (Some msg) f = f(Topic msg \<mapsto> Payload msg)"

text \<open>
  A run of the system from its creation, with the payload of the last value message handled on
  each topic.
\<close>

inductive received :: "('m, 't) env \<Rightarrow> 'm \<Rightarrow> ('m, 't) world \<Rightarrow> (string \<Rightarrow> string option) \<Rightarrow> bool"
  for E m where
  nothing: "received E m (NewWorld m) Map.empty"
| more: "received E m w f \<Longrightarrow> step E w w' \<Longrightarrow> received E m w' (record_value (value_taken w w') f)"

lemma value_taken_None:
  "length (handleMessageCh (drv w)) \<le> length (handleMessageCh (drv w')) \<Longrightarrow> value_taken w w' = None"
  by (auto simp: value_taken_def split: list.splits handler.splits)

lemma heard_steady:
  assumes "heard (drv w') = heard (drv w)" "handleMessageCh (drv w') = handleMessageCh (drv w)"
  shows "heard (drv w') = record_value (value_taken w w') (heard (drv w))"
  using assms by (simp add: value_taken_None)

lemma heard_WhenReady:
  assumes "WhenReady t d = Inr d'"
  shows "heard d' = heard d" "handleMessageCh d' = handleMessageCh d"
  using heard_evolves [OF evolves_WhenReady [OF assms]] evolves_WhenReady [OF assms]
  by (simp_all add: evolves_def)

lemma heard_CallSync:
  assumes "CallSync t d = Inr d'"
  shows "heard d' = heard d" "handleMessageCh d' = handleMessageCh d"
  using heard_evolves [OF evolves_CallSync [OF assms]] evolves_CallSync [OF assms]
  by (simp_all add: evolves_def)

lemma step_heard:
  assumes "step E w w'"
  shows "heard (drv w') = record_value (value_taken w w') (heard (drv w))"
  using assms
proof cases
  case (on_message h msg q d)
  have "handleMessageCh d = q"
    using steady_run_handler [OF on_message(4)] by (simp add: steady_def)
  moreover have "value_taken w w' = (if h = HandleIncomingControlValue then Some msg else None)"
    using on_message(1,3) calculation by (cases h) (simp_all add: value_taken_def)
  ultimately show ?thesis
    using heard_run_handler [OF on_message(4)] on_message(1) by simp
next
  case (start d)
  with heard_Start [OF start(4)] Start_effect(2) [OF start(4)] show ?thesis
    by (intro heard_steady) simp_all
next
  case (start_failed d err)
  with heard_Start [OF start_failed(3)] Start_effect(2) [OF start_failed(3)] show ?thesis
    by (intro heard_steady) simp_all
next
  case (on_ready d)
  then obtain d1 where 1: "d = d1\<lparr>ready := True\<rparr>"
    "run_thunks E (snd (Ready (whenReady (drv w))))
       ((drv w)\<lparr>whenReady := fst (Ready (whenReady (drv w)))\<rparr>) = Inr d1"
    by (auto simp: onReady_def case_prod_beta Let_def)
  from heard_run_thunks [OF 1(2)] steady_run_thunks [OF 1(2)] on_ready(1) show ?thesis
    by (intro heard_steady) (simp_all add: 1(1) steady_def)
next
  case (on_poll d)
  then have "invoke_unit E ModelPoll (env_Poll E) (drv w) = Inr d" by (simp add: onPoll_def)
  from heard_invoke_unit [OF this] steady_invoke_unit [OF this] on_poll(1) show ?thesis
    by (intro heard_steady) (simp_all add: steady_def)
next
  case (on_event t q d)
  from heard_run_thunk [OF on_event(4)] steady_run_thunk [OF on_event(4)] on_event(1) show ?thesis
    by (intro heard_steady) (simp_all add: steady_def)
next
  case (on_quit d)
  then obtain d1 where 1: "invoke_unit E ModelStop (env_Stop E) (drv w) = Inr d1" "d = client MStop d1"
    by (auto simp: onQuit_def)
  from heard_invoke_unit [OF 1(1)] steady_invoke_unit [OF 1(1)] on_quit(1) show ?thesis
    by (intro heard_steady) (simp_all add: 1(2) steady_def)
next
  case (incoming h msg)
  then have "value_taken w w' = None" "heard (drv w') = heard (drv w)"
    by (auto intro!: value_taken_None simp: HandleMessageSync_def)
  then show ?thesis by simp
next
  case (call_sync t d)
  with heard_CallSync [OF call_sync(2)] show ?thesis by (intro heard_steady) simp_all
next
  case (when_ready t d)
  with heard_WhenReady [OF when_ready(2)] show ?thesis by (intro heard_steady) simp_all
next
  case (set_external b d)
  then show ?thesis
    by (intro heard_steady) (auto simp: SetAcceptsExternalDevices_def heard_def fun_eq_iff split: if_splits)
qed (simp_all add: value_taken_None publishClean_def SetAutoPoll_def SetPollInterval_def)

lemma received_heard: "received E m w f \<Longrightarrow> heard (drv w) = f"
proof (induction rule: received.induct)
  case nothing
  show ?case by (simp add: heard_def NewWorld_def NewDriver_def fun_eq_iff)
next
  case (more w f w')
  with step_heard [OF more(2)] show ?case by simp
qed

text \<open>Every reachable state has such a run.\<close>

lemma reachable_received:
  fixes E :: "('m, 't) env"
  shows "reachable E m w \<Longrightarrow> received E m w (heard (drv w))"
proof (induction rule: reachable.induct)
  case new
  have "heard (drv (NewWorld m :: ('m, 't) world)) = Map.empty"
    by (simp add: heard_def NewWorld_def NewDriver_def fun_eq_iff)
  with received.nothing [of E m] show ?case by simp
next
  case (more w w')
  from received.more [OF more(3,2)] step_heard [OF more(2)] show ?case by simp
qed

section \<open>Where the model's code runs\<close>

text \<open>
  A state of the driver in which code of the model or of a device may call the driver, with the last
  values at that moment: at the beginning of any call from outside or branch of the loop; within the
  handling of a value, when \<open>AddExternalDevice\<close> or \<open>AcceptValue\<close> is called; and after any other call
  to the driver in the same step. Of the driver's fields only \<open>topics\<close> matters here.
\<close>

inductive code_runs :: "('m, 't) env \<Rightarrow> ('m, 't) world \<Rightarrow> (string \<Rightarrow> string option)
    \<Rightarrow> ('m, 't) driver \<Rightarrow> (string \<Rightarrow> string option) \<Rightarrow> bool" for E w f where
  begins: "topics d = topics (drv w) \<Longrightarrow> code_runs E w f d f"
| looking: "handleMessageCh (drv w) = (HandleIncomingControlValue, msg) # q \<Longrightarrow>
     storeReceivedValue msg ((drv w)\<lparr>handleMessageCh := q\<rparr>) = Inr d1 \<Longrightarrow>
     topics d = topics (update_topic (Topic msg) (\<lambda>e. e\<lparr>topicReady := ready d1\<rparr>) d1) \<Longrightarrow>
     code_runs E w f d (f(Topic msg \<mapsto> Payload msg))"
| delivering: "handleMessageCh (drv w) = (HandleIncomingControlValue, msg) # q \<Longrightarrow>
     storeReceivedValue msg ((drv w)\<lparr>handleMessageCh := q\<rparr>) = Inr d1 \<Longrightarrow>
     topics d1 (Topic msg) = Some e \<Longrightarrow>
     (if Dev e = None \<or> topicReady e \<noteq> ready d1
      then resolveTopicDevice E (Topic msg) e d1 else Inr d1) = Inr d2 \<Longrightarrow>
     topics d = topics d2 \<Longrightarrow> code_runs E w f d (f(Topic msg \<mapsto> Payload msg))"
| goes_on: "code_runs E w f d1 g \<Longrightarrow> observe E c d1 = Inr (d2, s) \<Longrightarrow> topics d = topics d2 \<Longrightarrow>
     code_runs E w f d g"

lemma code_runs_exec:
  "code_runs E w f d g \<Longrightarrow> exec E a d = Inr (d', r) \<Longrightarrow> code_runs E w f d' g"
proof (induction a arbitrary: d)
  case (Return m r)
  then have "topics d' = topics d" by auto
  with Return(1) show ?case
    by (induction rule: code_runs.induct) (auto intro: code_runs.intros)
next
  case (Observer c k)
  then obtain d1 s where 1: "observe E c d = Inr (d1, s)" "exec E (k s) d1 = Inr (d', r)"
    by auto
  from code_runs.goes_on [OF Observer.prems(1) 1(1) refl] have "code_runs E w f d1 g" .
  from Observer.IH [OF _ this 1(2)] show ?case by simp
qed

lemma code_runs_heard: "code_runs E w f d g \<Longrightarrow> heard (drv w) = f \<Longrightarrow> heard d = g"
proof (induction rule: code_runs.induct)
  case (begins d)
  then show ?case using heard_cong by blast
next
  case (looking msg q d1 d)
  from heard_cong [OF looking(3)] heard_storeReceivedValue [OF looking(2)] looking(4) show ?case by simp
next
  case (delivering msg q d1 e d2 d)
  have "heard d2 = heard d1"
    using delivering(4) by (auto dest: heard_resolveTopicDevice split: if_splits)
  with heard_cong [OF delivering(5)] heard_storeReceivedValue [OF delivering(2)] delivering(6)
  show ?case by simp
next
  case (goes_on d1 g c d2 s d)
  from heard_cong [OF goes_on(3)] heard_evolves [OF evolves_observe [OF goes_on(2)]] goes_on(4,5)
  show ?case by simp
qed

section \<open>The value a control starts with\<close>

lemma initialValue_heard:
  "initialValue dev c d =
     (if active d \<and> is_virtual dev \<and> Retain c
      then get_or (Value c) (heard d) (controlTopic dev (Name c) []) else Value c)"
  by (simp add: initialValue_def get_or_def heard_def split: option.splits)

definition publishes :: "string \<Rightarrow> handler mqtt_call \<Rightarrow> bool" where
  "publishes t k = (case k of MPublish msg \<Rightarrow> Topic msg = t | _ \<Rightarrow> False)"

lemma controlTopic_meta_neq [simp]: "controlTopic dev c [''meta'', k] \<noteq> controlTopic dev c []"
proof
  assume "controlTopic dev c [''meta'', k] = controlTopic dev c []"
  then have "length (controlTopic dev c [''meta'', k]) = length (controlTopic dev c [])" by simp
  then show False by (simp add: controlTopic_def topic_def)
qed

lemma controlCalls_value:
  "filter (publishes (controlTopic dev (Name c) [])) (controlCalls E dev c i v) =
     (if Retain c
      then [MPublish \<lparr>Topic = controlTopic dev (Name c) [], Payload = v, QoS = 1, Retained = True\<rparr>]
      else [])"
  by (simp add: controlCalls_def metaMessage_def publishes_def Let_def)

end
