(* ===== verification/Driver_Properties.thy ===== *)
theory Driver_Properties
  imports Driver_Demo Driver_Values
begin

text \<open>
  The properties of the driver: what holds in every state a running driver can reach, whatever its
  model does, and what its operations do. Each is a short step from the invariant and the lemmas of
  the earlier theories; a property with hypotheses is followed by a concrete instance.
\<close>

section \<open>Every reachable state\<close>

lemma cleanup_clears:
  assumes "cleanup_ok {} d"
  shows "retained_store (messages (client_calls (calls (performCleanup d)))) Map.empty = Map.empty"
proof -
  let ?r = "retained_store (messages (client_calls (calls d))) Map.empty"
  have dom: "dom ?r \<subseteq> set (cleanupTopics d)"
    using retained_store_dom [of "messages (client_calls (calls d))" Map.empty] assms
    by (fastforce simp: cleanup_ok_def)
  have "messages (map (\<lambda>t. MPublishSync \<lparr>Topic = t, Payload = [], QoS = 1, Retained = True\<rparr> :: handler mqtt_call) ts)
    = map (\<lambda>t. \<lparr>Topic = t, Payload = [], QoS = 1, Retained = True\<rparr>) ts" for ts
    by (induction ts) auto
  then have "retained_store (messages (client_calls (calls (performCleanup d)))) Map.empty =
      ?r |` (- set (cleanupTopics d))"
    by (simp only: client_calls_performCleanup messages_simps retained_store_simps retained_store_clear)
  moreover have "r |` (- S) = Map.empty" if "dom r \<subseteq> S" for r :: "string \<rightharpoonup> MQTTMessage" and S
    using that by (auto simp: restrict_map_def fun_eq_iff domIff)
  ultimately show ?thesis using dom by simp
qed

text \<open>
  C1. Cleanup is complete: whatever a model and its devices have done, if the driver's cleanup runs
  in any reachable state, no retained message of the driver is left at a broker that had none.
\<close>

theorem cleanup_removes_everything:
  assumes "reachable E m w"
  shows "retained_store (messages (client_calls (calls (performCleanup (drv w))))) Map.empty = Map.empty"
proof -
  have "cleanup_ok {} (drv w)"
    using reachable_world_inv [OF assms] by (simp add: world_inv_def driver_inv_def)
  then show ?thesis by (rule cleanup_clears)
qed

lemma cleanup_removes_everything_witness:
  "retained_store (messages (client_calls (calls (performCleanup demo_d4)))) Map.empty = Map.empty"
  using cleanup_removes_everything [OF demo_reach4] by (simp add: demo_world_def)

text \<open>
  C2. A device that is connected to hardware (local and not virtual) is never handed a value of its
  own value topic: such values reach virtual and external devices only.
\<close>

theorem values_never_reach_hardware:
  assumes "reachable E m w" "AcceptValue dev n v \<in> set (calls (drv w))"
  shows "\<not> (is_local dev \<and> \<not> is_virtual dev)"
proof -
  have "calls_ok (drv w)"
    using reachable_world_inv [OF assms(1)] by (simp add: world_inv_def driver_inv_def)
  with assms(2) have "call_ok (AcceptValue dev n v)"
    by (auto simp: calls_ok_def list_all_iff)
  then show ?thesis by (simp add: hardware_def)
qed

lemma values_never_reach_hardware_witness: "\<not> (is_local demo_ext \<and> \<not> is_virtual demo_ext)"
  by (rule values_never_reach_hardware [OF demo_reach4, of demo_ext "''t''" "''7''"])
     (simp add: demo_world_def demo_call)

text \<open>
  C3. What an incoming message makes the driver do: \<open>AcceptOnValue\<close> on local devices, the methods of
  \<open>ExternalDeviceModel\<close> on external devices, \<open>AcceptValue\<close> never on a hardware device and, once the
  driver is ready, on external devices only.
\<close>

theorem handlers_call_the_right_devices:
  assumes "reachable E m w" "handleMessageCh (drv w) = (h, msg) # q"
    and "run_handler E h msg ((drv w)\<lparr>handleMessageCh := q\<rparr>) = Inr d"
  shows "\<exists>ks. calls d = calls (drv w) @ ks \<and> list_all (handler_call (ready (drv w))) ks"
proof -
  let ?d = "(drv w)\<lparr>handleMessageCh := q\<rparr>"
  have "world_inv (w\<lparr>drv := ?d\<rparr>)"
    using world_inv_pop_message [OF reachable_world_inv [OF assms(1)] assms(2)] .
  then have "driver_inv {} {} ?d" by (simp add: world_inv_def)
  from grows_run_handler [OF this assms(3)] show ?thesis by (simp add: grows_def)
qed

lemma handlers_call_the_right_devices_witness:
  "\<exists>ks. calls demo_d4 = calls demo_d3 @ ks \<and> list_all (handler_call False) ks"
proof -
  have "ready demo_d3 = False" by (simp add: demo_d3_def HandleMessageSync_def)
  then show ?thesis
    using handlers_call_the_right_devices [OF demo_reach3, of HandleIncomingControlValue demo_msg "[]" demo_d4]
      demo_mail demo_handle
    by (simp add: demo_world_def del: run_handler.simps)
qed


text \<open>
  A driver that accepts external devices, with a model that does not implement \<open>ExtendedModel\<close>, dies
  of the first title of a device it does not know.
\<close>

lemma title_without_extended_model:
  assumes "looping w" "handleMessageCh (drv w) = (HandleDeviceTitle, msg) # q"
    and "4 < length (split_on CHR ''/'' (Topic msg))"
    and "no_extended_model E (split_on CHR ''/'' (Topic msg) ! 2) (drv w) TypeAssertion"
  shows "dies E w TypeAssertion"
  using assms(1,2)
proof (rule dies.message_dies)
  show "run_handler E HandleDeviceTitle msg ((drv w)\<lparr>handleMessageCh := q\<rparr>) = Inl TypeAssertion"
    using assms(3,4) by (simp add: handleDeviceTitle_def with_external_def ensureExtDevice_def
        ensureDevice_def no_extended_model_def index_at_def)
qed



text \<open>
  C6. The cache of topics agrees with the devices: a cached device is the one registered under the
  device name in the topic, \<open>Skip\<close> says whether it is a hardware device, and an entry resolved while
  ready caches an external device only.
\<close>

theorem topic_cache_coherent:
  assumes "reachable E m w" "topics (drv w) t = Some e" "Dev e = Some dev"
  shows "deviceMap (drv w) (split_on CHR ''/'' t ! 2) = Some dev \<and>
    Skip e = (is_local dev \<and> \<not> is_virtual dev) \<and> (topicReady e \<longrightarrow> is_external dev)"
proof -
  have "driver_inv {} {} (drv w)"
    using reachable_world_inv [OF assms(1)] by (simp add: world_inv_def)
  then have "entry_ok (deviceMap (drv w)) e" "index_at (split_on CHR ''/'' t) 2 = Inr (DeviceName e)"
    using assms(2) by (auto simp: driver_inv_def cache_ok_def names_ok_def)
  with assms(3) show ?thesis by (simp add: entry_ok_def hardware_def)
qed

lemma topic_cache_coherent_witness:
  "deviceMap demo_d4 (split_on CHR ''/'' ''/devices/x/controls/t'' ! 2) = Some demo_ext \<and>
     Skip demo_entry = (is_local demo_ext \<and> \<not> is_virtual demo_ext)"
proof -
  have "topics (drv (demo_world demo_d4)) ''/devices/x/controls/t'' = Some demo_entry"
    "Dev demo_entry = Some demo_ext"
    by (simp_all add: demo_world_def demo_d4_def demo_entry_def)
  from topic_cache_coherent [OF demo_reach4 this] show ?thesis
    unfolding demo_world_def world.select_convs by blast
qed

text \<open>
  The queues of the driver never hold more than \<open>EVENT_QUEUE_LEN\<close> entries, every message in the
  queue came in through a subscription of its handler, and \<open>whenReady\<close> keeps an executor.
\<close>

theorem queues_bounded:
  assumes "reachable E m w"
  shows "length (eventCh (drv w)) \<le> EVENT_QUEUE_LEN \<and>
    length (handleMessageCh (drv w)) \<le> EVENT_QUEUE_LEN \<and>
    list_all (\<lambda>(h, msg). deliverable (client_calls (calls (drv w))) h (Topic msg)) (handleMessageCh (drv w)) \<and>
    executor (whenReady (drv w))"
  using reachable_world_inv [OF assms]
  by (auto simp: world_inv_def mail_ok_def driver_inv_def queue_ok_def list_all_iff)

lemma queues_bounded_witness: "length (eventCh demo_d3) \<le> EVENT_QUEUE_LEN"
  using queues_bounded [OF demo_reach3] by (simp add: demo_world_def)


section \<open>Devices and controls\<close>




text \<open>
  \<open>OnNewControl\<close> does exactly this: it publishes the control's type, its title, units, flag and
  maximum where there are any, its order, and, retained, its value; it subscribes to the control's
  \<open>on\<close> topic unless the control is read-only; it lists exactly these topics for cleanup; and it
  returns the value it published.
\<close>

theorem new_control_effect:
  "calls (fst (OnNewControl E dev c d)) =
     calls d @ map Client (controlCalls E dev c (controlOrder dev c d) (initialValue dev c d)) \<and>
   set (cleanupTopics (fst (OnNewControl E dev c d))) = set (cleanupTopics d) \<union> set (controlTopics dev c) \<and>
   controlList (fst (OnNewControl E dev c d)) =
     (controlList d)(DevName dev \<mapsto> get_or [] (controlList d) (DevName dev) @ [Name c]) \<and>
   snd (OnNewControl E dev c d) = initialValue dev c d"
  by (simp add: OnNewControl_calls OnNewControl_cleanupTopics OnNewControl_controlList OnNewControl_result)

text \<open>
  C26. Controls of a device that have no order of their own are numbered after all the controls
  registered before them, as long as the orders stay below the largest \<open>int\<close>; the first one of a
  new device gets 1.
\<close>

theorem automatic_orders_increase:
  assumes "0 \<le> get_or 0 (nextOrder d) (DevName dev)"
    and "\<forall>i\<in>set (controlOrders E dev cs d). i < 2 ^ 63 - 1"
    and "k < length cs" "Order (cs ! k) \<le> 0" "j < k"
  shows "controlOrders E dev cs d ! j < controlOrders E dev cs d ! k"
  using controlOrders_auto [OF assms(1-4)] assms(5) by blast

lemma automatic_orders_increase_witness:
  "let d = (NewDriver ())\<lparr>nextOrder := [''d'' \<mapsto> 1]\<rparr>;
       os = controlOrders demo_env demo_dev [demo_control\<lparr>Order := 5\<rparr>, demo_control] d
   in os = [5, 6] \<and> os ! 0 < os ! 1"
proof -
  let ?d = "(NewDriver ())\<lparr>nextOrder := [''d'' \<mapsto> 1]\<rparr>"
  let ?cs = "[demo_control\<lparr>Order := 5\<rparr>, demo_control]"
  have os: "controlOrders demo_env demo_dev ?cs ?d = [5, 6]"
    by (simp add: controlOrder_def OnNewControl_nextOrder demo_control_def demo_dev_def wrap64_def)
  have "controlOrders demo_env demo_dev ?cs ?d ! 0 < controlOrders demo_env demo_dev ?cs ?d ! 1"
    by (rule automatic_orders_increase [of ?d demo_dev demo_env ?cs 1 0])
       (simp_all add: os del: controlOrders.simps, simp_all add: demo_dev_def demo_control_def)
  then show ?thesis by (simp only: os Let_def)
qed

text \<open>
  C16. A message on the \<open>on\<close> topic that \<open>OnNewControl\<close> subscribed for a control comes back to that
  control: with names free of slashes the handler calls \<open>AcceptOnValue\<close> of that device with that
  control's name, and echoes the payload to the control's value topic exactly when it returned true.
\<close>

theorem on_message_round_trip:
  assumes "Topic msg = controlTopic dev n [''on'']" "CHR ''/'' \<notin> set (DevName dev)" "CHR ''/'' \<notin> set n"
    and "deviceMap d (DevName dev) = Some dev" "is_local dev"
    and "invoke E (AcceptOnValue dev n (Payload msg)) (env_AcceptOnValue E dev n (Payload msg)) d
      = Inr (d1, echo)"
  shows "handleIncomingControlOnValue E msg d =
    Inr (if echo then publishValue dev n (Payload msg) d1 else d1)"
proof -
  have "split_on CHR ''/'' (Topic msg) = ['''', ''devices'', DevName dev, ''controls'', n, ''on'']"
    using controlTopic_split [OF assms(2,3), of "[''on'']"] assms(1) by simp
  with assms(4-6) show ?thesis
    by (simp add: handleIncomingControlOnValue_def index_at_def step_if_def)
qed

lemma on_message_round_trip_witness:
  "handleIncomingControlOnValue demo_env demo_on demo_d2 =
     Inr (publishValue demo_dev ''c'' ''1''
       (demo_d2\<lparr>calls := calls demo_d2 @ [AcceptOnValue demo_dev ''c'' ''1'']\<rparr>))"
  using on_message_round_trip [of demo_on demo_dev "''c''" demo_d2 demo_env
      "demo_d2\<lparr>calls := calls demo_d2 @ [AcceptOnValue demo_dev ''c'' ''1'']\<rparr>" True]
  by (simp add: demo_on_def demo_dev_def controlTopic_def topic_def invoke_def demo_env_def)

text \<open>
  \<open>RemoveDevice\<close> forgets the device with its controls and order, resets every cached device,
  and unsubscribes, for a local device, from the \<open>on\<close> topic of each of its controls and nothing else.
\<close>

theorem remove_device_effect:
  "deviceMap (RemoveDevice dev d) = (deviceMap d)(DevName dev := None) \<and>
   topics (RemoveDevice dev d) = (\<lambda>t. map_option resetDevice (topics d t)) \<and>
   calls (RemoveDevice dev d) =
     calls d @ (case deviceMap d (DevName dev) of
                  Some dev' \<Rightarrow>
                    if is_local dev'
                    then map (\<lambda>n. Client (MUnsubscribe [controlTopic dev' n [''on'']]))
                           (get_or [] (controlList d) (DevName dev))
                    else []
                | None \<Rightarrow> [])"
  by (simp add: RemoveDevice_calls)

text \<open>
  A control's type and units round trip: a type \<open>t:u\<close> without a separate unit is split at its
  first colon into \<open>GetType\<close> and \<open>GetUnits\<close>; explicit units win over those in the type.
\<close>

theorem type_and_units:
  "(CHR '':'' \<notin> set (GetType c)) \<and>
   (if CHR '':'' \<in> set (Type c) then \<exists>u. Type c = GetType c @ CHR '':'' # u \<and> (Units c = [] \<longrightarrow> GetUnits c = u)
    else GetType c = Type c) \<and>
   (Units c \<noteq> [] \<longrightarrow> GetUnits c = Units c)"
proof -
  have "\<exists>u. Type c = GetType c @ CHR '':'' # u \<and> (Units c = [] \<longrightarrow> GetUnits c = u)"
    if colon: "CHR '':'' \<in> set (Type c)"
  proof -
    from colon obtain i where i: "index_of CHR '':'' (Type c) = Some i"
      by (cases "index_of CHR '':'' (Type c)") auto
    with index_of_Some [OF i] show ?thesis
      by (intro exI [of _ "drop (i + 1) (Type c)"]) (simp add: GetType_def GetUnits_def)
  qed
  then show ?thesis
    by (simp add: GetType_no_colon GetType_plain GetUnits_def)
qed

lemma type_and_units_witness: "GetType demo_control = ''value'' \<and> GetUnits demo_control = ''lux''"
  using type_and_units [of demo_control] by (simp add: demo_control_def GetType_def GetUnits_def)

section \<open>Starting and stopping\<close>

definition never_loops :: "('m, 't) world \<Rightarrow> bool" where
  "never_loops w \<longleftrightarrow> \<not> looping w \<and> (active (drv w) \<or> stopper w \<noteq> NotStopping)"

lemma never_loops_step: "step E w w' \<Longrightarrow> never_loops w \<Longrightarrow> never_loops w'"
proof (induction rule: step.induct)
  case (call_sync t w d)
  then show ?case using evolves_CallSync [of t "drv w" d] by (simp add: never_loops_def evolves_def)
next
  case (when_ready t w d)
  then show ?case using evolves_WhenReady [of t "drv w" d] by (simp add: never_loops_def evolves_def)
qed (auto simp: never_loops_def HandleMessageSync_def publishClean_def SetAutoPoll_def SetPollInterval_def
      SetAcceptsExternalDevices_def dest: Start_effect split: if_splits)

lemma never_loops_steps: "steps E w w' \<Longrightarrow> never_loops w \<Longrightarrow> never_loops w'"
  by (induction rule: steps.induct) (auto intro: never_loops_step)

text \<open>
  C28. When the model's \<open>Start\<close> fails, \<open>Start\<close> leaves the driver active without a goroutine, and that
  is final: no sequence of calls and events ever runs the loop. A later \<open>Start\<close> returns no error and
  does nothing, and a \<open>Stop\<close> that follows waits for ever.
\<close>

theorem failed_start_is_final:
  assumes "stopper w = NotStopping" "\<not> looping w" "Start E (drv w) = Inr (d, Some err)"
    and "steps E (w\<lparr>drv := d\<rparr>) w'"
  shows "\<not> looping w' \<and> (active (drv w') \<or> stopper w' \<noteq> NotStopping)"
proof -
  have "never_loops (w\<lparr>drv := d\<rparr>)"
    using assms(1-3) Start_effect(4) [OF assms(3)] by (simp add: never_loops_def)
  with assms(4) have "never_loops w'" by (rule never_loops_steps)
  then show ?thesis by (simp add: never_loops_def)
qed

lemma failed_start_is_final_witness:
  "\<exists>d. Start (demo_env\<lparr>env_Start := \<lambda>m. Return () (Some ''no hardware'')\<rparr>) (NewDriver ())
         = Inr (d, Some ''no hardware'') \<and> active d \<and>
       \<not> looping ((NewWorld ())\<lparr>drv := d\<rparr>)"
proof -
  let ?E = "demo_env\<lparr>env_Start := \<lambda>m. Return () (Some ''no hardware'')\<rparr>"
  obtain d where d: "Start ?E (drv (NewWorld ())) = Inr (d, Some ''no hardware'')"
    by (simp add: NewWorld_def NewDriver_def Start_def invoke_def Let_def)
  have s: "stopper (NewWorld ()) = NotStopping" "\<not> looping (NewWorld ())" by (simp_all add: NewWorld_def)
  from failed_start_is_final [OF s d steps.none] have "active d"
    by (simp add: NewWorld_def)
  with d show ?thesis by (auto simp: NewWorld_def)
qed

lemma steps_step: "steps E w1 w2 \<Longrightarrow> step E w w1 \<Longrightarrow> steps E w w2"
proof (induction rule: steps.induct)
  case (none w1)
  show ?case by (rule steps.one_more [OF steps.none none])
next
  case (one_more w1 w2 w3)
  from one_more.IH [OF one_more.prems] one_more.hyps(2) show ?case by (rule steps.one_more)
qed

text \<open>The client calls of a stop that cleans the topics \<open>ts\<close>.\<close>

abbreviation cleanupCalls :: "string list \<Rightarrow> handler mqtt_call list" where
  "cleanupCalls ts \<equiv>
     map (\<lambda>t. MPublishSync \<lparr>Topic = t, Payload = [], QoS = 1, Retained = True\<rparr>) ts"

lemma quit_calls:
  assumes "onQuit E d = Inr d'"
  shows "\<exists>ks. client_calls (calls d') = client_calls (calls d) @ ks @ [MStop]"
proof -
  from assms obtain d1 where 1: "invoke_unit E ModelStop (env_Stop E) d = Inr d1" and d': "d' = client MStop d1"
    by (auto simp: onQuit_def)
  have "grows (\<lambda>_. True) d d1" using 1 by (rule grows_invoke_unit) auto
  then show ?thesis by (auto simp: grows_def d' client_def)
qed

lemma clean_then_quit:
  assumes "stopper w = Cleaning ts" "looping w" "\<And>d. \<exists>d'. onQuit E d = Inr d'"
  shows "\<exists>w' ks. steps E w w' \<and> stopper w' = NotStopping \<and> \<not> looping w' \<and>
    client_calls (calls (drv w')) = client_calls (calls (drv w)) @ cleanupCalls ts @ ks @ [MStop]"
  using assms
proof (induction ts arbitrary: w)
  case Nil
  let ?w1 = "w\<lparr>stopper := Quitting\<rparr>"
  obtain d where d: "onQuit E (drv w) = Inr d" using Nil.prems(3) by blast
  let ?w2 = "?w1\<lparr>drv := d, looping := False, waiting := False, ticker := False, stopper := NotStopping\<rparr>"
  have "step E w ?w1" using Nil.prems(1) by (rule step.cleaned)
  moreover have "step E ?w1 ?w2" by (rule step.on_quit) (simp_all add: Nil.prems(2) d)
  ultimately have "steps E w ?w2" by (blast intro: steps.intros)
  with quit_calls [OF d] show ?case by fastforce
next
  case (Cons t ts)
  let ?w1 = "w\<lparr>drv := publishClean t (drv w), stopper := Cleaning ts\<rparr>"
  have "step E w ?w1" using Cons.prems(1) by (rule step.clean)
  moreover obtain w' ks where w': "steps E ?w1 w'" "stopper w' = NotStopping" "\<not> looping w'"
    "client_calls (calls (drv w')) = client_calls (calls (drv ?w1)) @ cleanupCalls ts @ ks @ [MStop]"
    using Cons.IH [of ?w1] Cons.prems by auto
  moreover have "client_calls (calls (drv w')) =
      client_calls (calls (drv w)) @ cleanupCalls (t # ts) @ ks @ [MStop]"
    by (simp add: w'(4) publishClean_def client_def)
  ultimately show ?case using steps_step by blast
qed

text \<open>
  C27. A \<open>Stop\<close> of a running driver whose model's \<open>Stop\<close> returns can complete: it publishes the empty
  message for each cleanup topic in order, and the client is stopped last, after the model.
\<close>

theorem stop_completes:
  assumes "stopper w = NotStopping" "active (drv w)" "looping w" "\<forall>d. \<exists>d'. onQuit E d = Inr d'"
  shows "\<exists>w' ks. steps E w w' \<and> stopper w' = NotStopping \<and> \<not> looping w' \<and>
    client_calls (calls (drv w')) =
      client_calls (calls (drv w)) @ cleanupCalls (cleanupTopics (drv w)) @ ks @ [MStop]"
proof -
  let ?w = "w\<lparr>drv := (drv w)\<lparr>active := False\<rparr>, stopper := Cleaning (cleanupTopics (drv w))\<rparr>"
  have "step E w ?w" using assms(1,2) by (rule step.stop)
  moreover obtain w' ks where w': "steps E ?w w'" "stopper w' = NotStopping" "\<not> looping w'"
    "client_calls (calls (drv w')) =
      client_calls (calls (drv ?w)) @ cleanupCalls (cleanupTopics (drv w)) @ ks @ [MStop]"
    using clean_then_quit [of ?w "cleanupTopics (drv w)" E] assms(3,4) by auto
  moreover from w'(4) have "client_calls (calls (drv w')) =
      client_calls (calls (drv w)) @ cleanupCalls (cleanupTopics (drv w)) @ ks @ [MStop]"
    by simp
  ultimately show ?thesis using steps_step by blast
qed

lemma stop_completes_witness:
  "\<exists>w'. steps demo_env (demo_world demo_d2) w' \<and> stopper w' = NotStopping \<and> \<not> looping w'"
proof -
  have "\<forall>d. \<exists>d'. onQuit demo_env d = Inr d'"
    by (simp add: onQuit_def invoke_unit_def invoke_def demo_env_def)
  moreover have "stopper (demo_world demo_d2) = NotStopping" "active (drv (demo_world demo_d2))"
    "looping (demo_world demo_d2)"
    by (simp_all add: demo_world_def)
  ultimately show ?thesis using stop_completes by blast
qed

section \<open>Deferred thunks\<close>

text \<open>
  In any interleaving of \<open>MaybeDefer\<close> and \<open>Ready\<close>, every thunk submitted is handed over exactly
  once and in the order of submission, or still waits; before the first \<open>Ready\<close> none is handed over,
  and after a \<open>Ready\<close> none waits.
\<close>

theorem deferred_fifo:
  "let (dl, handed) = dl_run es (NewDeferredList ex) in
     handed @ pending dl = submitted es \<and>
     (if ReadyEvent \<in> set es then pending dl = [] else handed = [])"
proof -
  obtain dl handed where r: "dl_run es (NewDeferredList ex) = (dl, handed)" by (cases "dl_run es (NewDeferredList ex)")
  have "handed @ pending dl = submitted es"
    using dl_run_conserves [OF r] by simp
  moreover have "pending dl = []" if "ReadyEvent \<in> set es"
    using dl_run_ready [OF that r] by (simp add: pending_def)
  moreover have "handed = []" if "ReadyEvent \<notin> set es"
    using dl_run_waiting [of "NewDeferredList ex" "[]" es] that r by (simp add: NewDeferredList_def)
  ultimately show ?thesis by (simp add: r)
qed

lemma deferred_fifo_witness:
  "dl_run [DeferEvent (1::nat), DeferEvent 2, ReadyEvent, DeferEvent 3] (NewDeferredList True) =
     (\<lparr>fns = None, executor = True\<rparr>, [1, 2, 3])"
  using deferred_fifo [of "[DeferEvent (1::nat), DeferEvent 2, ReadyEvent, DeferEvent 3]" True]
  by (simp add: NewDeferredList_def MaybeDefer_def Ready_def)

section \<open>The race in \<open>Stop\<close>\<close>

lemma clean_all:
  "stopper w = Cleaning ts \<Longrightarrow>
     steps E w (w\<lparr>drv := fold publishClean ts (drv w), stopper := Quitting\<rparr>)"
proof (induction ts arbitrary: w)
  case Nil
  from steps.one_more [OF steps.none step.cleaned [OF Nil]] show ?case by simp
next
  case (Cons t ts)
  have "step E w (w\<lparr>drv := publishClean t (drv w), stopper := Cleaning ts\<rparr>)"
    using Cons.prems by (rule step.clean)
  moreover have "steps E (w\<lparr>drv := publishClean t (drv w), stopper := Cleaning ts\<rparr>)
    (w\<lparr>drv := fold publishClean ts (publishClean t (drv w)), stopper := Quitting\<rparr>)"
    using Cons.IH [of "w\<lparr>drv := publishClean t (drv w), stopper := Cleaning ts\<rparr>"] by simp
  ultimately show ?case by (simp add: steps_step)
qed

definition demo_d8 :: "(unit, unit) driver" where
  "demo_d8 = fold publishClean (cleanupTopics demo_d2) (demo_d2\<lparr>active := False\<rparr>)"

definition demo_d9 :: "(unit, unit) driver" where
  "demo_d9 = publishValue demo_dev ''c'' ''5'' (demo_d8\<lparr>calls := calls demo_d8 @ [ModelPoll]\<rparr>)"

definition demo_left :: MQTTMessage where
  "demo_left = \<lparr>Topic = ''/devices/d/controls/c'', Payload = ''5'', QoS = 1, Retained = True\<rparr>"

lemma demo_ct: "controlTopic demo_dev ''c'' [] = ''/devices/d/controls/c''"
  by (simp add: controlTopic_def topic_def demo_dev_def)

lemma demo_d8_retain: "retainMap demo_d8 ''/devices/d/controls/c'' = Some True"
proof -
  have "retainMap (fold publishClean ts d) = retainMap d" for ts and d :: "(unit, unit) driver"
    by (rule fold_field) (simp add: publishClean_def client_def)
  then have "retainMap demo_d8 = retainMap demo_d2" by (simp add: demo_d8_def)
  moreover have "Name demo_control = ''c''" "Retain demo_control"
    by (simp_all add: demo_control_def Retain_def pushButtonType_def)
  ultimately show ?thesis
    by (simp add: demo_d2_def subscribeExternal_def OnNewControl_retainMap demo_ct Let_def)
qed

lemma demo_d9_calls:
  "calls demo_d9 = calls demo_d8 @ [ModelPoll, Client (MPublish demo_left)]"
  by (simp add: demo_d9_def demo_ct demo_d8_retain demo_left_def)

text \<open>
  \<open>Stop\<close> cleans up before it asks the loop to quit, so a poll between the two can publish a
  value that outlives the driver: a run of the demo model ends stopped, with a retained message left.
\<close>

theorem stop_may_leave_a_value:
  "\<exists>w. reachable demo_env () w \<and> stopper w = NotStopping \<and> \<not> looping w \<and> \<not> active (drv w) \<and>
     retained_store (messages (client_calls (calls (drv w)))) Map.empty ''/devices/d/controls/c''
       = Some demo_left"
proof -
  let ?w0 = "(demo_world demo_d2)\<lparr>drv := demo_d2\<lparr>active := False\<rparr>, stopper := Cleaning (cleanupTopics demo_d2)\<rparr>"
  let ?w1 = "?w0\<lparr>drv := demo_d8, stopper := Quitting\<rparr>"
  let ?d = "client MStop (demo_d9\<lparr>calls := calls demo_d9 @ [ModelStop]\<rparr>)"
  let ?w3 = "?w1\<lparr>drv := ?d, looping := False, waiting := False, ticker := False, stopper := NotStopping\<rparr>"
  have "step demo_env (demo_world demo_d2) ?w0"
    using step.stop [of "demo_world demo_d2" demo_env] by (simp add: demo_world_def)
  with demo_reach2 have r0: "reachable demo_env () ?w0" by (rule reachable.more)
  have "steps demo_env ?w0 ?w1"
    using clean_all [of ?w0 "cleanupTopics demo_d2" demo_env] by (simp add: demo_d8_def)
  from this r0 have "reachable demo_env () ?w1" by (rule reachable_steps)
  moreover have "step demo_env ?w1 (?w1\<lparr>drv := demo_d9\<rparr>)"
  proof (rule step.on_poll)
    have "env_Poll demo_env () = Observer (OnValueCall demo_dev ''c'' ''5'') (\<lambda>_. Return () ())"
      "is_external demo_dev = False"
      by (simp_all add: demo_env_def demo_dev_def)
    then show "onPoll demo_env (drv ?w1) = Inr demo_d9"
      by (simp add: onPoll_def invoke_unit_def invoke_def OnValue_def demo_d9_def)
  qed (simp add: demo_world_def)
  ultimately have "reachable demo_env () (?w1\<lparr>drv := demo_d9\<rparr>)" by (rule reachable.more)
  moreover have "step demo_env (?w1\<lparr>drv := demo_d9\<rparr>)
      (?w1\<lparr>drv := demo_d9, drv := ?d, looping := False, waiting := False, ticker := False,
           stopper := NotStopping\<rparr>)"
    by (rule step.on_quit)
       (simp_all add: demo_world_def onQuit_def invoke_unit_def invoke_def demo_env_def)
  ultimately have "reachable demo_env ()
      (?w1\<lparr>drv := demo_d9, drv := ?d, looping := False, waiting := False, ticker := False,
           stopper := NotStopping\<rparr>)"
    by (rule reachable.more)
  then have "reachable demo_env () ?w3" by simp
  moreover have "\<not> active (drv ?w3)"
  proof -
    have "active (fold publishClean ts d) = active d" for ts and d :: "(unit, unit) driver"
      by (rule fold_field) (simp add: publishClean_def)
    moreover have "active demo_d9 = active demo_d8"
      by (simp add: demo_d9_def core_fields(9) [OF core_publish(3)])
    ultimately show ?thesis by (simp add: demo_d8_def)
  qed
  moreover have "retained_store (messages (client_calls (calls ?d))) Map.empty ''/devices/d/controls/c''
      = Some demo_left"
    by (simp add: client_def demo_d9_calls retain_step_def, simp add: demo_left_def)
  ultimately show ?thesis by (intro exI [of _ ?w3]) simp
qed

end
