(* ===== verification/Driver_Client.thy ===== *)
theory Driver_Client
  imports Driver_Loop
begin

text \<open>
  How the driver uses its client: in every reachable state, the calls it has made start the client
  before anything else, stop it after everything else, and start it again before they go on.
\<close>

lemma own_calls_running:
  assumes "list_all (\<lambda>k. own_call k \<or> client_call k = []) ks"
  shows "client_phase True (client_calls ks) = Some True"
  using assms
proof (induction ks)
  case (Cons k ks)
  then show ?case by (cases k rule: own_call.cases) auto
qed simp

definition running :: "('m, 't) driver \<Rightarrow> bool \<Rightarrow> bool" where
  "running d b \<longleftrightarrow> client_phase False (client_calls (calls d)) = Some b"

lemma running_same: "running d b \<Longrightarrow> calls d' = calls d \<Longrightarrow> running d' b"
  by (simp add: running_def)

lemma running_grows:
  assumes "running d True" "grows P d d'" "\<And>k. P k \<Longrightarrow> own_call k \<or> client_call k = []"
  shows "running d' True"
proof -
  from assms(2) obtain ks where ks: "calls d' = calls d @ ks" "list_all P ks"
    by (auto simp: grows_def)
  from ks(2) assms(3) have "client_phase True (client_calls ks) = Some True"
    by (intro own_calls_running) (auto simp: list_all_iff)
  with assms(1) ks(1) show ?thesis by (simp add: running_def client_phase_append)
qed

lemma handler_call_client: "handler_call r k \<Longrightarrow> own_call k \<or> client_call k = []"
  by (cases k) auto

lemma Start_running:
  assumes "running d b" "\<not> active d" "Start E d = Inr (d', err)"
  shows "running d' True"
proof -
  let ?d0 = "client MStart (d\<lparr>active := True\<rparr>)"
  from assms(2,3) obtain d1 r where
    1: "invoke E ModelStart (env_Start E) ?d0 = Inr (d1, r)" and
    2: "d' = (case r of Some e \<Rightarrow> d1
              | None \<Rightarrow> step_if (acceptsExternalDevices d1) subscribeExternal d1)"
    by (auto simp: Start_def Let_def split: option.splits if_splits)
  have "running ?d0 True"
    using assms(1) by (simp add: running_def client_def client_phase_append)
  moreover have "grows (\<lambda>k. own_call k \<or> k = ModelStart) ?d0 d1"
    using 1 by (rule grows_invoke) auto
  ultimately have run1: "running d1 True"
    by (rule running_grows) auto
  have "grows own_call d1 (subscribeExternal d1)"
    unfolding subscribeExternal_def Let_def subscribe_def
    by (intro grows_trans [OF _ grows_client] grows_refl) auto
  with run1 have "running (subscribeExternal d1) True"
    by (rule running_grows) simp
  with run1 show ?thesis by (simp add: 2 step_if_def split: option.splits)
qed

definition client_ok :: "('m, 't) world \<Rightarrow> bool" where
  "client_ok w \<longleftrightarrow>
     (\<exists>b. running (drv w) b \<and> (looping w \<or> active (drv w) \<or> stopper w \<noteq> NotStopping \<longrightarrow> b))"

lemma client_ok_looping: "client_ok w \<Longrightarrow> looping w \<Longrightarrow> running (drv w) True"
  by (auto simp: client_ok_def)

lemma client_okI: "running (drv w) True \<Longrightarrow> client_ok w"
  by (auto simp: client_ok_def)

lemma client_ok_same:
  assumes "client_ok w" "calls d = calls (drv w)" "active d = active (drv w)"
  shows "client_ok (w\<lparr>drv := d\<rparr>)"
  using assms running_same by (fastforce simp: client_ok_def)

lemma run_invoke_unit:
  "running d True \<Longrightarrow> invoke_unit E k a d = Inr d' \<Longrightarrow> client_call k = [] \<Longrightarrow> running d' True"
  by (rule running_grows [where P = "\<lambda>k'. own_call k' \<or> k' = k"]) (auto intro: grows_invoke_unit)

lemma CallSync_calls: "CallSync t d = Inr d' \<Longrightarrow> calls d' = calls d \<and> active d' = active d"
  by (auto simp: CallSync_def split: if_splits)

lemma WhenReady_calls: "WhenReady t d = Inr d' \<Longrightarrow> calls d' = calls d \<and> active d' = active d"
  by (auto simp: WhenReady_def CallSync_def split: prod.splits dispatch.splits if_splits)

text \<open>A driver that is being stopped is not active.\<close>

definition quiet :: "('m, 't) world \<Rightarrow> bool" where
  "quiet w \<longleftrightarrow> (stopper w \<noteq> NotStopping \<longrightarrow> \<not> active (drv w))"

lemma quiet_steady: "quiet w \<Longrightarrow> steady d = steady (drv w) \<Longrightarrow> quiet (w\<lparr>drv := d\<rparr>)"
  by (simp add: quiet_def steady_def)

lemma quiet_step: "step E w w' \<Longrightarrow> quiet w \<Longrightarrow> quiet w'"
proof (induction rule: step.induct)
  case (on_ready w d)
  then obtain ts d1 where
    "run_thunks E ts ((drv w)\<lparr>whenReady := (whenReady (drv w))\<lparr>fns := None\<rparr>\<rparr>) = Inr d1"
    and d: "d = d1\<lparr>ready := True\<rparr>"
    by (auto simp: onReady_def Ready_def)
  from steady_run_thunks [OF this(1)] on_ready.prems show ?case
    by (simp add: quiet_def d steady_def)
next
  case (on_message w h msg q d)
  from steady_run_handler [OF on_message.hyps(3)] on_message.prems show ?case
    by (simp add: quiet_def steady_def)
next
  case (on_event w t q d)
  from steady_run_thunk [OF on_event.hyps(3)] on_event.prems show ?case
    by (simp add: quiet_def steady_def)
next
  case (call_sync t w d)
  with CallSync_calls [of t "drv w" d] show ?case by (simp add: quiet_def)
next
  case (when_ready t w d)
  with WhenReady_calls [of t "drv w" d] show ?case by (simp add: quiet_def)
next
  case (on_poll w d)
  with quiet_steady [of w d] show ?case by (auto simp: onPoll_def dest: steady_invoke_unit)
next
  case (set_external b w d)
  then show ?case by (auto simp: quiet_def SetAcceptsExternalDevices_def split: if_splits)
qed (auto simp: quiet_def HandleMessageSync_def publishClean_def SetAutoPoll_def SetPollInterval_def)

lemma client_ok_step: "step E w w' \<Longrightarrow> world_inv w \<Longrightarrow> quiet w \<Longrightarrow> client_ok w \<Longrightarrow> client_ok w'"
proof (induction rule: step.induct)
  case (start w d)
  then obtain b where "running (drv w) b" by (auto simp: client_ok_def)
  from Start_running [OF this start.hyps(2,3)] show ?case by (intro client_okI) simp
next
  case (start_failed w d err)
  then obtain b where b: "running (drv w) b" by (auto simp: client_ok_def)
  show ?case
  proof (cases "active (drv w)")
    case True
    with start_failed.hyps have False by (simp add: Start_def)
    then show ?thesis ..
  next
    case False
    from Start_running [OF b False start_failed.hyps(2)] show ?thesis by (intro client_okI) simp
  qed
next
  case (on_ready w d)
  then obtain ts d1 where
    ts: "run_thunks E ts ((drv w)\<lparr>whenReady := (whenReady (drv w))\<lparr>fns := None\<rparr>\<rparr>) = Inr d1"
    and d: "d = d1\<lparr>ready := True\<rparr>"
    by (auto simp: onReady_def Ready_def)
  have "running ((drv w)\<lparr>whenReady := (whenReady (drv w))\<lparr>fns := None\<rparr>\<rparr>) True"
    using client_ok_looping [OF on_ready.prems(3) on_ready.hyps(1)] by (simp add: running_def)
  from running_grows [OF this grows_run_thunks [OF ts]] have "running d True"
    by (simp add: d running_def)
  then show ?case by (intro client_okI) simp
next
  case (on_poll w d)
  with client_ok_looping [of w] show ?case
    by (intro client_okI) (auto simp: onPoll_def intro: run_invoke_unit)
next
  case (on_message w h msg q d)
  let ?d = "(drv w)\<lparr>handleMessageCh := q\<rparr>"
  have "running ?d True"
    using client_ok_looping [OF on_message.prems(3) on_message.hyps(1)] by (simp add: running_def)
  moreover have "driver_inv {} {} ?d"
    using world_inv_pop_message [OF on_message.prems(1) on_message.hyps(2)] by (simp add: world_inv_def)
  note grows_run_handler [OF this on_message.hyps(3)]
  ultimately have "running d True"
    using handler_call_client by (rule running_grows)
  then show ?case by (intro client_okI) simp
next
  case (on_event w t q d)
  have "running ((drv w)\<lparr>eventCh := q\<rparr>) True"
    using client_ok_looping [OF on_event.prems(3) on_event.hyps(1)] by (simp add: running_def)
  from running_grows [OF this grows_run_thunk [OF on_event.hyps(3)]] have "running d True" by simp
  then show ?case by (intro client_okI) simp
next
  case (on_quit w d)
  from on_quit.hyps(3) obtain d1 where
    1: "invoke_unit E ModelStop (env_Stop E) (drv w) = Inr d1" and d: "d = client MStop d1"
    by (auto simp: onQuit_def)
  have "running d1 True"
    using client_ok_looping [OF on_quit.prems(3) on_quit.hyps(1)] 1 by (rule run_invoke_unit) simp
  then have "running d False" by (simp add: d running_def client_def client_phase_append)
  moreover have "active d = active (drv w)"
    using steady_invoke_unit [OF 1] by (simp add: d steady_def)
  moreover have "\<not> active (drv w)"
    using on_quit.prems(2) on_quit.hyps(2) by (simp add: quiet_def)
  ultimately show ?case by (auto simp: client_ok_def)
next
  case (clean w t ts)
  then have "running (drv w) True" by (auto simp: client_ok_def)
  then have "running (publishClean t (drv w)) True"
    by (simp add: running_def publishClean_def client_def client_phase_append)
  then show ?case by (intro client_okI) simp
next
  case (call_sync t w d)
  with CallSync_calls [of t "drv w" d] show ?case by (simp add: client_ok_same)
next
  case (when_ready t w d)
  with WhenReady_calls [of t "drv w" d] show ?case by (simp add: client_ok_same)
next
  case (set_external b w d)
  then show ?case
    by (intro client_ok_same) (auto simp: SetAcceptsExternalDevices_def split: if_splits)
qed (auto simp: client_ok_def running_def HandleMessageSync_def SetAutoPoll_def SetPollInterval_def)

lemma reachable_client: "reachable E m w \<Longrightarrow> quiet w \<and> client_ok w"
proof (induction rule: reachable.induct)
  case new
  show ?case
    by (auto simp: quiet_def client_ok_def running_def NewWorld_def NewDriver_def)
next
  case (more w w')
  from more.hyps(1) have "world_inv w" by (rule reachable_world_inv)
  with more quiet_step [OF more.hyps(2)] client_ok_step [OF more.hyps(2)] show ?case by simp
qed

end
