(* ===== verification/Driver_Poll.thy ===== *)
theory Driver_Poll
  imports Driver_Client Driver_Demo
begin

text \<open>
  \<open>Poll\<close> of driver.go: a send on the unbuffered channel \<open>drv.poll\<close>, done by a goroutine of its own.
  The loop reads that channel, or else the channel of its ticker: \<open>Start\<close> chooses one of the two by
  \<open>autoPoll\<close>, once. A state is the running system with one caller of \<open>Poll\<close>, who is either about
  to call or waiting in the send.
\<close>

datatype poll_caller = Idle | Sending

text \<open>
  What takes place: the call, the loop taking the value that was sent (and polling the model), and
  any step of the system without this caller. There \<open>on_poll\<close> is a tick, or the call of another
  goroutine.
\<close>

inductive poll_step :: "('m, 't) env \<Rightarrow> ('m, 't) world \<times> poll_caller \<Rightarrow> ('m, 't) world \<times> poll_caller \<Rightarrow> bool"
  for E where
  called: "poll_step E (w, Idle) (w, Sending)"
| taken: "looping w \<Longrightarrow> \<not> ticker w \<Longrightarrow> onPoll E (drv w) = Inr d \<Longrightarrow>
     poll_step E (w, Sending) (w\<lparr>drv := d\<rparr>, Idle)"
| other: "step E w w' \<Longrightarrow> poll_step E (w, c) (w', c)"

inductive_cases poll_stepE: "poll_step E s s'"

text \<open>For the system itself it is a step of its own, or none.\<close>

lemma poll_step_world: "poll_step E s s' \<Longrightarrow> step E (fst s) (fst s') \<or> fst s' = fst s"
  by (auto elim!: poll_stepE intro: step.on_poll)

text \<open>A run during which the goroutine keeps running, from and to states with it.\<close>

inductive poll_run :: "('m, 't) env \<Rightarrow> ('m, 't) world \<times> poll_caller \<Rightarrow> ('m, 't) world \<times> poll_caller \<Rightarrow> bool"
  for E where
  here: "poll_run E s s"
| on: "poll_run E s s1 \<Longrightarrow> poll_step E s1 s2 \<Longrightarrow> looping (fst s2) \<Longrightarrow> poll_run E s s2"

section \<open>The goroutine of a driver\<close>

text \<open>While the goroutine runs and nobody stops it, the driver is active: no second one is started.\<close>

definition single :: "('m, 't) world \<Rightarrow> bool" where
  "single w \<longleftrightarrow> (looping w \<and> stopper w = NotStopping \<longrightarrow> active (drv w))"

lemma single_steady: "single w \<Longrightarrow> active d = active (drv w) \<Longrightarrow> single (w\<lparr>drv := d\<rparr>)"
  by (simp add: single_def)

lemma onReady_active: "onReady E d = Inr d' \<Longrightarrow> active d' = active d"
  by (auto simp: onReady_def Ready_def steady_def dest!: steady_run_thunks)

lemma onPoll_active: "onPoll E d = Inr d' \<Longrightarrow> active d' = active d"
  by (auto simp: onPoll_def steady_def dest!: steady_invoke_unit)

lemma single_step: "step E w w' \<Longrightarrow> single w \<Longrightarrow> single w'"
proof (induction rule: step.induct)
  case (start w d)
  then show ?case using Start_effect(4) by (auto simp: single_def)
next
  case (start_failed w d err)
  then show ?case using Start_effect(4) by (auto simp: single_def)
next
  case (on_message w h msg q d)
  from steady_run_handler [OF on_message.hyps(3)] on_message.prems show ?case
    by (simp add: single_def steady_def)
next
  case (on_event w t q d)
  from steady_run_thunk [OF on_event.hyps(3)] on_event.prems show ?case
    by (simp add: single_def steady_def)
next
  case (call_sync t w d)
  with CallSync_calls [of t "drv w" d] show ?case by (simp add: single_def)
next
  case (when_ready t w d)
  with WhenReady_calls [of t "drv w" d] show ?case by (simp add: single_def)
next
  case (set_external b w d)
  then show ?case by (auto simp: single_def SetAcceptsExternalDevices_def split: if_splits)
qed (auto simp: single_def HandleMessageSync_def publishClean_def SetAutoPoll_def SetPollInterval_def
      onReady_active onPoll_active)

lemma reachable_single: "reachable E m w \<Longrightarrow> single w"
proof (induction rule: reachable.induct)
  case new
  show ?case by (simp add: single_def NewWorld_def)
next
  case (more w w')
  from more.hyps(2) more.IH show ?case by (rule single_step)
qed

text \<open>The channel the goroutine polls by is chosen when it starts.\<close>

lemma ticker_step:
  "step E w w' \<Longrightarrow> single w \<Longrightarrow> looping w \<Longrightarrow> looping w' \<Longrightarrow> ticker w' = ticker w"
  by (induction rule: step.induct) (auto simp: single_def)

lemma poll_run_ticker:
  assumes "poll_run E s s'" "single (fst s)" "looping (fst s)"
  shows "single (fst s') \<and> looping (fst s') \<and> ticker (fst s') = ticker (fst s) \<and>
    (ticker (fst s) \<and> snd s = Sending \<longrightarrow> snd s' = Sending)"
  using assms
proof (induction rule: poll_run.induct)
  case (on s s1 s2)
  from on.hyps(2,3) on.IH [OF on.prems] show ?case
    by cases (auto simp: onPoll_active intro: single_steady single_step dest: ticker_step)
qed simp

section \<open>Who polls\<close>

text \<open>
  C38. While the goroutine of the driver runs, a waiting caller of \<open>Poll\<close> can be served, the model
  polled for it, exactly when the driver was started with \<open>autoPoll\<close> off. With \<open>autoPoll\<close> on, as
  \<open>NewDriver\<close> sets it, the call returns in no run, whatever the settings are changed to after
  \<open>Start\<close>.
\<close>

theorem poll_served_iff_no_ticker:
  assumes "reachable E m w" "looping w" "\<exists>d. onPoll E (drv w) = Inr d"
  shows "(\<exists>w'. poll_run E (w, Sending) (w', Idle)) \<longleftrightarrow> \<not> ticker w"
proof
  assume "\<exists>w'. poll_run E (w, Sending) (w', Idle)"
  then obtain w' where "poll_run E (w, Sending) (w', Idle)" ..
  from poll_run_ticker [OF this] reachable_single [OF assms(1)] assms(2) show "\<not> ticker w" by auto
next
  assume "\<not> ticker w"
  with assms(2,3) obtain d where "poll_step E (w, Sending) (w\<lparr>drv := d\<rparr>, Idle)"
    by (auto intro: poll_step.taken)
  from poll_run.on [OF poll_run.here this] assms(2)
  show "\<exists>w'. poll_run E (w, Sending) (w', Idle)" by auto
qed

lemma poll_served_iff_no_ticker_witness:
  "reachable demo_env () (demo_world demo_d2) \<and>
     (\<nexists>w'. poll_run demo_env (demo_world demo_d2, Sending) (w', Idle))"
proof
  show r: "reachable demo_env () (demo_world demo_d2)" by (rule demo_reach2)
  have "looping (demo_world demo_d2)" "ticker (demo_world demo_d2)" by (simp_all add: demo_world_def)
  moreover have "\<exists>d. onPoll demo_env (drv (demo_world demo_d2)) = Inr d"
    by (simp add: onPoll_def invoke_unit_def invoke_def demo_env_def)
  ultimately show "\<nexists>w'. poll_run demo_env (demo_world demo_d2, Sending) (w', Idle)"
    using poll_served_iff_no_ticker [OF r] by blast
qed

end
