(* ===== verification/Paho_Client.thy ===== *)
theory Paho_Client
  imports Mqtt_Interface
begin

text \<open>
  \<open>PahoMQTTClient\<close> of mqtt.go, the program's client for a real broker. The client it wraps is a
  third-party package: what the program asks of it is kept as a list of calls (\<open>inner\<close>). Each of them
  returns a token, and what becomes of the tokens is an argument of the operations (\<open>net\<close>): whether
  \<open>Wait\<close> ever returns, and the error then. Tokens go through a channel of \<open>TOKEN_QUEUE_LEN\<close> places to
  a goroutine that \<open>Start\<close> runs (\<open>draining\<close>) and \<open>Stop\<close> ends; it takes one out and waits for it
  (\<open>busy\<close>). A send to the full channel waits for that goroutine: for ever when it does not run, or
  when the token it waits for never completes.
\<close>

definition TOKEN_QUEUE_LEN :: nat where "TOKEN_QUEUE_LEN = 512"

text \<open>The callbacks given to the inner client: a user's, or the one of \<open>WaitForReady\<close>.\<close>

datatype 'h callback = User 'h | RetainedHack

datatype 'h inner_call =
    Connect
  | Disconnect
  | InnerPublish MQTTMessage
  | SubscribeMultiple "string \<rightharpoonup> nat" "'h callback"
  | InnerUnsubscribe "string list"

text \<open>A token stands for the inner call that returned it, by its position.\<close>

type_synonym token = nat

record net =
  completes :: "token \<Rightarrow> bool"
  token_error :: "token \<Rightarrow> string option"

record 'h paho =
  inner :: "'h inner_call list"
  waitForRetained :: bool
  readyClosed :: bool
  tokens :: "token list"
  subs :: "string \<rightharpoonup> 'h list"
  retainedMessages :: "string \<rightharpoonup> MQTTMessage"
  started :: bool
  connected :: bool
  draining :: bool
  busy :: "token option"

definition NewPahoMQTTClient :: "bool \<Rightarrow> 'h paho" where
  "NewPahoMQTTClient wait =
     \<lparr>inner = [], waitForRetained = wait, readyClosed = False, tokens = [], subs = Map.empty,
      retainedMessages = Map.empty, started = False, connected = False, draining = False, busy = None\<rparr>"

definition callInner :: "'h inner_call \<Rightarrow> 'h paho \<Rightarrow> 'h paho \<times> token" where
  "callInner k c = (c\<lparr>inner := inner c @ [k]\<rparr>, length (inner c))"

text \<open>The goroutine is in its \<open>select\<close>, or gets back to it.\<close>

definition attentive :: "net \<Rightarrow> 'h paho \<Rightarrow> bool" where
  "attentive net c \<longleftrightarrow> draining c \<and> (case busy c of None \<Rightarrow> True | Some tok \<Rightarrow> completes net tok)"

definition sendToken :: "net \<Rightarrow> token \<Rightarrow> 'h paho \<Rightarrow> 'h paho res" where
  "sendToken net tok c =
     (if length (tokens c) < TOKEN_QUEUE_LEN then Inr (c\<lparr>tokens := tokens c @ [tok]\<rparr>)
      else if attentive net c then
        Inr (c\<lparr>busy := Some (hd (tokens c)), tokens := tl (tokens c) @ [tok]\<rparr>)
      else Inl BlockedForever)"

text \<open>A step of the goroutine by itself: it takes a token, or has waited for one.\<close>

definition drainToken :: "net \<Rightarrow> 'h paho \<Rightarrow> 'h paho" where
  "drainToken net c =
     (if \<not> draining c then c
      else
        (case busy c of
           Some tok \<Rightarrow> if completes net tok then c\<lparr>busy := None\<rparr> else c
         | None \<Rightarrow>
             (case tokens c of [] \<Rightarrow> c | tok # toks \<Rightarrow> c\<lparr>busy := Some tok, tokens := toks\<rparr>)))"

text \<open>The unexported \<open>subscribe\<close>: all the topics at once, at QoS 2.\<close>

definition subscribeInner :: "'h callback \<Rightarrow> string list \<Rightarrow> 'h paho \<Rightarrow> 'h paho \<times> token" where
  "subscribeInner callback topics =
     callInner (SubscribeMultiple (fold (\<lambda>t filters. filters(t \<mapsto> 2)) topics Map.empty) callback)"

definition addSub :: "'h \<Rightarrow> string \<Rightarrow> 'h paho \<Rightarrow> 'h paho" where
  "addSub callback t c =
     (case subs c t of
        None \<Rightarrow> c\<lparr>subs := (subs c)(t \<mapsto> [callback])\<rparr>
      | Some subList \<Rightarrow> c\<lparr>subs := (subs c)(t \<mapsto> subList @ [callback])\<rparr>)"

definition Subscribe :: "net \<Rightarrow> 'h \<Rightarrow> string list \<Rightarrow> 'h paho \<Rightarrow> 'h paho res" where
  "Subscribe net callback topics c =
     (let c = fold (addSub callback) topics c in
      if \<not> connected c then Inr c
      else (let (c, tok) = subscribeInner (User callback) topics c in sendToken net tok c))"

definition Unsubscribe :: "string list \<Rightarrow> 'h paho \<Rightarrow> 'h paho" where
  "Unsubscribe topics c =
     (let c = fold (\<lambda>t c. c\<lparr>subs := (subs c)(t := None)\<rparr>) topics c in
      if \<not> connected c then c else fst (callInner (InnerUnsubscribe topics) c))"

definition Publish :: "net \<Rightarrow> MQTTMessage \<Rightarrow> 'h paho \<Rightarrow> 'h paho res" where
  "Publish net message c =
     (let (c, tok) = callInner (InnerPublish message) c in
      bind_res (sendToken net tok c) (\<lambda>c. Inr
        (if Retained message
         then (if Payload message = []
               then c\<lparr>retainedMessages := (retainedMessages c)(Topic message := None)\<rparr>
               else c\<lparr>retainedMessages := (retainedMessages c)(Topic message \<mapsto> message)\<rparr>)
         else c)))"

text \<open>\<open>PublishSync\<close> waits for its own token and keeps nothing.\<close>

definition PublishSync :: "net \<Rightarrow> MQTTMessage \<Rightarrow> 'h paho \<Rightarrow> 'h paho res" where
  "PublishSync net message c =
     (let (c, tok) = callInner (InnerPublish message) c in
      if completes net tok then Inr c else Inl BlockedForever)"

fun each :: "('x \<Rightarrow> 'c \<Rightarrow> 'c res) \<Rightarrow> 'x list \<Rightarrow> 'c \<Rightarrow> 'c res" where
  "each f [] c = Inr c"
| "each f (x # xs) c = bind_res (f x c) (each f xs)"

text \<open>
  \<open>onConnect\<close> subscribes again and publishes again; \<open>ts\<close> and \<open>rs\<close> are the orders in which the two
  maps are ranged over.
\<close>

definition resubscribe :: "net \<Rightarrow> string \<Rightarrow> 'h \<Rightarrow> 'h paho \<Rightarrow> 'h paho res" where
  "resubscribe net t callback c =
     (let (c, tok) = subscribeInner (User callback) [t] c in sendToken net tok c)"

definition onConnect :: "net \<Rightarrow> string list \<Rightarrow> string list \<Rightarrow> 'h paho \<Rightarrow> 'h paho res" where
  "onConnect net ts rs c =
     (let c = c\<lparr>connected := True\<rparr> in
      bind_res (each (\<lambda>t c. each (resubscribe net t) (get_or [] (subs c) t) c) ts c)
        (each (\<lambda>t c. case retainedMessages c t of Some msg \<Rightarrow> Publish net msg c | None \<Rightarrow> Inr c) rs))"

definition onConnectionLost :: "'h paho \<Rightarrow> 'h paho" where
  "onConnectionLost c = c\<lparr>connected := False\<rparr>"

text \<open>\<open>Start\<close> waits for the token of the connection.\<close>

definition StartClient :: "net \<Rightarrow> 'h paho \<Rightarrow> 'h paho res" where
  "StartClient net c =
     (if started c then Inr c
      else
        (let (c, tok) = callInner Connect (c\<lparr>started := True\<rparr>) in
         if \<not> completes net tok then Inl BlockedForever
         else (case token_error net tok of
                 Some e \<Rightarrow> Inl (ExplicitPanic e)
               | None \<Rightarrow> Inr (c\<lparr>draining := True\<rparr>))))"

text \<open>The send on \<open>stopped\<close> meets the goroutine's receive, when the goroutine gets to it.\<close>

definition StopClient :: "net \<Rightarrow> 'h paho \<Rightarrow> 'h paho res" where
  "StopClient net c =
     (if \<not> started c then Inr c
      else (let c = fst (callInner Disconnect (c\<lparr>started := False\<rparr>)) in
            if attentive net c then Inr (c\<lparr>draining := False, busy := None\<rparr>) else Inl BlockedForever))"

definition paho_ops :: "net \<Rightarrow> ('h paho, 'h) mqtt_ops" where
  "paho_ops net =
     \<lparr>op_Start = StartClient net, op_Stop = StopClient net, op_Publish = Publish net,
      op_PublishSync = PublishSync net, op_Subscribe = Subscribe net,
      op_Unsubscribe = (\<lambda>ts c. Inr (Unsubscribe ts c))\<rparr>"

section \<open>The retained-message hack\<close>

text \<open>
  \<open>WaitForReady\<close> closes \<open>ready\<close> at once, or subscribes to a fresh topic and closes \<open>ready\<close> when two
  messages it publishes there, at QoS 1 and 2, have both come back. \<open>got1\<close> and \<open>got2\<close> are variables of
  the callback's closure.
\<close>

definition closeReady :: "'h paho \<Rightarrow> 'h paho res" where
  "closeReady c = (if readyClosed c then Inl ClosedChannel else Inr (c\<lparr>readyClosed := True\<rparr>))"

definition waitCallback ::
  "string \<Rightarrow> string \<Rightarrow> (bool \<times> bool) \<times> 'h paho \<Rightarrow> ((bool \<times> bool) \<times> 'h paho) res" where
  "waitCallback waitTopic payload s =
     (let ((got1, got2), c) = s in
      if got1 \<and> got2 then Inr s
      else
        (let (got1, got2) = (if payload = ''1'' then (True, got2)
                             else if payload = ''2'' then (got1, True) else (got1, got2))
         in if got1 \<and> got2
            then bind_res (closeReady (Unsubscribe [waitTopic] c)) (\<lambda>c. Inr ((got1, got2), c))
            else Inr ((got1, got2), c)))"

definition WaitForReady :: "net \<Rightarrow> string \<Rightarrow> 'h paho \<Rightarrow> 'h paho res" where
  "WaitForReady net waitTopic c =
     (if \<not> waitForRetained c then closeReady c
      else
        (let (c, tok) = subscribeInner RetainedHack [waitTopic] c in
         if \<not> completes net tok then Inl BlockedForever
         else
           bind_res (if token_error net tok \<noteq> None then closeReady c else Inr c) (\<lambda>c.
           bind_res (Publish net \<lparr>Topic = waitTopic, Payload = ''1'', QoS = 1, Retained = False\<rparr> c)
             (Publish net \<lparr>Topic = waitTopic, Payload = ''2'', QoS = 2, Retained = False\<rparr>))))"

section \<open>The contract\<close>

lemma sendToken_Inr:
  assumes "sendToken net tok c = Inr c'"
  shows "\<exists>ts b. c' = c\<lparr>tokens := ts, busy := b\<rparr>"
proof -
  from assms have "c' = c\<lparr>tokens := tokens c', busy := busy c'\<rparr>"
    by (cases c) (auto simp: sendToken_def split: if_splits)
  then show ?thesis by blast
qed

lemma callInner_simps [simp]:
  "fst (callInner k c) = c\<lparr>inner := inner c @ [k]\<rparr>"
  "snd (callInner k c) = length (inner c)"
  by (simp_all add: callInner_def)

lemma addSub_fields [simp]:
  "inner (addSub h t c) = inner c" "retainedMessages (addSub h t c) = retainedMessages c"
  "connected (addSub h t c) = connected c" "tokens (addSub h t c) = tokens c"
  "draining (addSub h t c) = draining c" "started (addSub h t c) = started c"
  "get_or [] (subs (addSub h t c)) u = get_or [] (subs c) u @ (if u = t then [h] else [])"
  by (auto simp: addSub_def get_or_def split: option.splits)

lemma fold_addSub_fields [simp]:
  "inner (fold (addSub h) ts c) = inner c"
  "retainedMessages (fold (addSub h) ts c) = retainedMessages c"
  "connected (fold (addSub h) ts c) = connected c"
  "tokens (fold (addSub h) ts c) = tokens c"
  "draining (fold (addSub h) ts c) = draining c"
  "started (fold (addSub h) ts c) = started c"
  by (rule fold_field, simp)+

lemma fold_addSub:
  "get_or [] (subs (fold (addSub h) ts c)) u = get_or [] (subs c) u @ replicate (count_list ts u) h"
  by (induction ts arbitrary: c) auto

lemma fold_dropSub:
  "fold (\<lambda>t c. c\<lparr>subs := (subs c)(t := None)\<rparr>) ts c =
     c\<lparr>subs := (\<lambda>t. if t \<in> set ts then None else subs c t)\<rparr>"
  by (induction ts arbitrary: c) (auto simp: fun_eq_iff)

lemma Subscribe_Inr:
  assumes "Subscribe net h ts c = Inr c'"
  obtains ks tks bz where "c' = (fold (addSub h) ts c)\<lparr>inner := ks, tokens := tks, busy := bz\<rparr>"
proof (cases "connected c")
  case False
  with assms have c': "c' = fold (addSub h) ts c"
    by (simp add: Subscribe_def Let_def)
  then have "c' = (fold (addSub h) ts c)\<lparr>inner := inner c', tokens := tokens c', busy := busy c'\<rparr>"
    by (cases c') simp
  then show thesis by (rule that)
next
  case True
  with assms obtain ks tok where "sendToken net tok ((fold (addSub h) ts c)\<lparr>inner := ks\<rparr>) = Inr c'"
    by (auto simp: Subscribe_def subscribeInner_def callInner_def Let_def)
  from sendToken_Inr [OF this] show thesis by (auto intro: that)
qed

lemma Subscribe_fields:
  assumes "Subscribe net h ts c = Inr c'"
  shows "retainedMessages c' = retainedMessages c" "connected c' = connected c"
    "get_or [] (subs c') u = get_or [] (subs c) u @ replicate (count_list ts u) h"
  using assms by (auto elim!: Subscribe_Inr simp: fold_addSub)

lemma Unsubscribe_fields [simp]:
  "subs (Unsubscribe ts c) = (\<lambda>t. if t \<in> set ts then None else subs c t)"
  "retainedMessages (Unsubscribe ts c) = retainedMessages c"
  "connected (Unsubscribe ts c) = connected c"
  "readyClosed (Unsubscribe ts c) = readyClosed c"
  by (simp_all add: Unsubscribe_def fold_dropSub Let_def)

lemma Publish_Inr:
  assumes "Publish net m c = Inr c'"
  obtains tks bz where "c' = c\<lparr>inner := inner c @ [InnerPublish m], tokens := tks, busy := bz,
    retainedMessages := retain_step m (retainedMessages c)\<rparr>"
proof -
  from assms obtain c1 where c1: "sendToken net (length (inner c)) (c\<lparr>inner := inner c @ [InnerPublish m]\<rparr>) = Inr c1"
    and c': "c' = (if Retained m
         then (if Payload m = []
               then c1\<lparr>retainedMessages := (retainedMessages c1)(Topic m := None)\<rparr>
               else c1\<lparr>retainedMessages := (retainedMessages c1)(Topic m \<mapsto> m)\<rparr>)
         else c1)"
    by (auto simp: Publish_def callInner_def)
  from sendToken_Inr [OF c1] obtain tks bz where
    "c1 = c\<lparr>inner := inner c @ [InnerPublish m], tokens := tks, busy := bz\<rparr>" by auto
  with c' have "c' = c\<lparr>inner := inner c @ [InnerPublish m], tokens := tks, busy := bz,
    retainedMessages := retain_step m (retainedMessages c)\<rparr>"
    by (simp add: retain_step_def)
  then show thesis by (rule that)
qed

lemma PublishSync_Inr:
  "PublishSync net m c = Inr c' \<Longrightarrow> c' = c\<lparr>inner := inner c @ [InnerPublish m]\<rparr> \<and> completes net (length (inner c))"
  by (auto simp: PublishSync_def callInner_def split: if_splits)

lemma StartClient_fields:
  "StartClient net c = Inr c' \<Longrightarrow> connected c' = connected c \<and>
     subs c' = subs c \<and> retainedMessages c' = retainedMessages c \<and> started c'"
  by (auto simp: StartClient_def callInner_def split: if_splits option.splits)

lemma StopClient_fields:
  "StopClient net c = Inr c' \<Longrightarrow> connected c' = connected c \<and>
     subs c' = subs c \<and> retainedMessages c' = retainedMessages c \<and> \<not> started c'"
  by (auto simp: StopClient_def Let_def split: if_splits)

text \<open>The callbacks registered for a topic.\<close>

definition paho_handlers :: "'h paho \<Rightarrow> string \<Rightarrow> 'h list" where
  "paho_handlers c = get_or [] (subs c)"

lemma get_or_drop [simp]: "get_or z (\<lambda>t. if t \<in> S then None else m t) k = (if k \<in> S then z else get_or z m k)"
  by (simp add: get_or_def)

interpretation paho: mqtt_client "paho_ops net" paho_handlers
  by unfold_locales
     (auto simp: paho_ops_def paho_handlers_def Subscribe_fields
        dest!: PublishSync_Inr StartClient_fields StopClient_fields elim!: Publish_Inr)

section \<open>What the client keeps for a reconnection\<close>

text \<open>The messages a list of calls publishes asynchronously.\<close>

fun async_messages :: "'h mqtt_call \<Rightarrow> MQTTMessage list" where
  "async_messages (MPublish m) = [m]"
| "async_messages _ = []"

definition asyncs :: "'h mqtt_call list \<Rightarrow> MQTTMessage list" where
  "asyncs ks = concat (map async_messages ks)"

lemma asyncs_simps [simp]:
  "asyncs [] = []" "asyncs (k # ks) = async_messages k @ asyncs ks"
  "asyncs (ks @ ls) = asyncs ks @ asyncs ls"
  by (simp_all add: asyncs_def)

lemma perform_retained:
  "perform (paho_ops net) k c = Inr c' \<Longrightarrow>
     retainedMessages c' = retained_store (async_messages k) (retainedMessages c)"
  by (cases k)
     (auto simp: paho_ops_def Subscribe_fields dest: PublishSync_Inr StartClient_fields StopClient_fields
        elim!: Publish_Inr)

lemma perform_all_retained:
  "perform_all (paho_ops net) ks c = Inr c' \<Longrightarrow>
     retainedMessages c' = retained_store (asyncs ks) (retainedMessages c)"
  by (induction ks arbitrary: c) (auto dest: perform_retained)

text \<open>Every message kept is a retained one, kept under its own topic, and not empty.\<close>

definition retained_ok :: "(string \<rightharpoonup> MQTTMessage) \<Rightarrow> bool" where
  "retained_ok r \<longleftrightarrow> (\<forall>t m. r t = Some m \<longrightarrow> Topic m = t \<and> Retained m \<and> Payload m \<noteq> [])"

lemma retained_ok_step: "retained_ok r \<Longrightarrow> retained_ok (retain_step m r)"
  by (auto simp: retain_step_def retained_ok_def)

lemma retained_ok_store: "retained_ok r \<Longrightarrow> retained_ok (retained_store ms r)"
  by (induction ms arbitrary: r) (simp_all add: retained_ok_step)

lemma retain_step_same: "retained_ok r \<Longrightarrow> r t = Some m \<Longrightarrow> retain_step m r = r"
  by (auto simp: retain_step_def retained_ok_def)

section \<open>Reconnection\<close>

definition resubscription :: "string \<Rightarrow> 'h \<Rightarrow> 'h inner_call" where
  "resubscription t h = SubscribeMultiple [t \<mapsto> 2] (User h)"

definition resubscriptions :: "string list \<Rightarrow> (string \<rightharpoonup> 'h list) \<Rightarrow> 'h inner_call list" where
  "resubscriptions ts m =
     concat (map (\<lambda>t. map (resubscription t) (get_or [] m t)) ts)"

lemma resubscribe_Inr:
  assumes "resubscribe net t h c = Inr c'"
  obtains tks bz where "c' = c\<lparr>inner := inner c @ [resubscription t h], tokens := tks, busy := bz\<rparr>"
proof -
  from assms have
    "sendToken net (length (inner c)) (c\<lparr>inner := inner c @ [resubscription t h]\<rparr>) = Inr c'"
    by (simp add: resubscribe_def subscribeInner_def callInner_def resubscription_def)
  from sendToken_Inr [OF this] show thesis by (auto intro: that)
qed

lemma each_resubscribe_Inr:
  "each (resubscribe net t) hs c = Inr c' \<Longrightarrow>
     \<exists>tks bz. c' = c\<lparr>inner := inner c @ map (resubscription t) hs, tokens := tks, busy := bz\<rparr>"
proof (induction hs arbitrary: c)
  case Nil
  then have "c' = c\<lparr>inner := inner c @ map (resubscription t) [],
    tokens := tokens c, busy := busy c\<rparr>" by simp
  then show ?case by blast
next
  case (Cons h hs)
  then obtain c1 where c1: "resubscribe net t h c = Inr c1" "each (resubscribe net t) hs c1 = Inr c'" by auto
  from c1(1) obtain tks bz where
    "c1 = c\<lparr>inner := inner c @ [resubscription t h], tokens := tks, busy := bz\<rparr>"
    by (rule resubscribe_Inr)
  with Cons.IH [OF c1(2)] show ?case by auto
qed

lemma each_subs_Inr:
  "each (\<lambda>t c. each (resubscribe net t) (get_or [] (subs c) t) c) ts c = Inr c' \<Longrightarrow>
     \<exists>tks bz. c' = c\<lparr>inner := inner c @ resubscriptions ts (subs c), tokens := tks, busy := bz\<rparr>"
proof (induction ts arbitrary: c)
  case Nil
  then have "c' = c\<lparr>inner := inner c @ resubscriptions [] (subs c), tokens := tokens c, busy := busy c\<rparr>"
    by (simp add: resubscriptions_def)
  then show ?case by blast
next
  case (Cons t ts)
  then obtain c1 where c1: "each (resubscribe net t) (get_or [] (subs c) t) c = Inr c1"
    "each (\<lambda>t c. each (resubscribe net t) (get_or [] (subs c) t) c) ts c1 = Inr c'" by auto
  from each_resubscribe_Inr [OF c1(1)] obtain tk1 bz1 where
    "c1 = c\<lparr>inner := inner c @ map (resubscription t) (get_or [] (subs c) t), tokens := tk1, busy := bz1\<rparr>"
    by blast
  moreover from Cons.IH [OF c1(2)] obtain tks bz where
    "c' = c1\<lparr>inner := inner c1 @ resubscriptions ts (subs c1), tokens := tks, busy := bz\<rparr>"
    by blast
  ultimately show ?case
    by (intro exI [of _ tks] exI [of _ bz]) (simp add: resubscriptions_def)
qed

lemma each_republish_Inr:
  assumes "each (\<lambda>t c. case retainedMessages c t of Some msg \<Rightarrow> Publish net msg c | None \<Rightarrow> Inr c) rs c = Inr c'"
    and "retained_ok (retainedMessages c)" "set rs \<subseteq> dom (retainedMessages c)"
  shows "\<exists>tks bz. c' = c\<lparr>inner := inner c @ map (\<lambda>t. InnerPublish (the (retainedMessages c t))) rs, tokens := tks, busy := bz\<rparr>"
  using assms
proof (induction rs arbitrary: c)
  case Nil
  then have "c' = c\<lparr>inner := inner c @ map (\<lambda>t. InnerPublish (the (retainedMessages c t))) [],
    tokens := tokens c, busy := busy c\<rparr>" by simp
  then show ?case by blast
next
  case (Cons t rs)
  then obtain m c1 where m: "retainedMessages c t = Some m" and c1: "Publish net m c = Inr c1"
    and rest: "each (\<lambda>t c. case retainedMessages c t of Some msg \<Rightarrow> Publish net msg c | None \<Rightarrow> Inr c) rs c1 = Inr c'"
    by auto
  from c1 obtain tks bz where "c1 = c\<lparr>inner := inner c @ [InnerPublish m], tokens := tks, busy := bz,
      retainedMessages := retain_step m (retainedMessages c)\<rparr>"
    by (rule Publish_Inr)
  then have c1': "c1 = c\<lparr>inner := inner c @ [InnerPublish m], tokens := tks, busy := bz\<rparr>"
    using retain_step_same [OF Cons.prems(2) m] by simp
  from Cons.IH [OF rest] Cons.prems(2,3) m show ?case
    by (auto simp: c1')
qed

lemma onConnect_Inr:
  assumes run: "onConnect net ts rs c = Inr c'" and ok: "retained_ok (retainedMessages c)"
    and rs: "set rs \<subseteq> dom (retainedMessages c)"
  obtains tks bz where "c' = c\<lparr>connected := True,
    inner := inner c @ resubscriptions ts (subs c) @
      map (\<lambda>t. InnerPublish (the (retainedMessages c t))) rs, tokens := tks, busy := bz\<rparr>"
proof -
  let ?c = "c\<lparr>connected := True\<rparr>"
  from run obtain c1 where
    1: "each (\<lambda>t c. each (resubscribe net t) (get_or [] (subs c) t) c) ts ?c = Inr c1" and
    2: "each (\<lambda>t c. case retainedMessages c t of Some msg \<Rightarrow> Publish net msg c | None \<Rightarrow> Inr c) rs c1 = Inr c'"
    by (auto simp: onConnect_def Let_def)
  from each_subs_Inr [OF 1] obtain tks bz where
    "c1 = ?c\<lparr>inner := inner c @ resubscriptions ts (subs c), tokens := tks, busy := bz\<rparr>" by auto
  with each_republish_Inr [OF 2] ok rs show thesis by (auto intro: that)
qed

text \<open>Publishing again what is kept leaves a broker with exactly what is kept.\<close>

lemma republish_store:
  assumes ok: "retained_ok r" and "key_order r rs"
  shows "retained_store (map (\<lambda>t. the (r t)) rs) Map.empty = r"
proof -
  have "retained_store (map (\<lambda>t. the (r t)) rs) r0 = (\<lambda>t. if t \<in> set rs then r t else r0 t)"
    if "set rs \<subseteq> dom r" for r0
    using that
  proof (induction rs arbitrary: r0)
    case (Cons t rs)
    then obtain m where m: "r t = Some m" by auto
    with ok have "retain_step m r0 = r0(t \<mapsto> m)"
      by (auto simp: retained_ok_def retain_step_def)
    with Cons m show ?case by (auto simp: fun_eq_iff)
  qed simp
  with assms show ?thesis
    by (auto simp: key_order_def fun_eq_iff domIff)
qed

section \<open>What may block\<close>

text \<open>
  The ways an operation on the client may fail: it waits for ever, when some token never completes,
  or \<open>Start\<close> panics with the error of a token.
\<close>

definition paho_abort :: "net \<Rightarrow> abort \<Rightarrow> bool" where
  "paho_abort net e \<longleftrightarrow>
     e = BlockedForever \<and> (\<exists>tok. \<not> completes net tok) \<or>
     (\<exists>tok msg. token_error net tok = Some msg \<and> e = ExplicitPanic msg)"

lemma attentive_draining: "draining c \<Longrightarrow> \<not> attentive net c \<Longrightarrow> paho_abort net BlockedForever"
  by (auto simp: attentive_def paho_abort_def split: option.splits)

lemma sendToken_Inl: "sendToken net tok c = Inl e \<Longrightarrow> draining c \<Longrightarrow> paho_abort net e"
  using attentive_draining by (auto simp: sendToken_def split: if_splits)

lemma sendToken_bound:
  "sendToken net tok c = Inr c' \<Longrightarrow> length (tokens c) \<le> TOKEN_QUEUE_LEN \<Longrightarrow>
     length (tokens c') \<le> TOKEN_QUEUE_LEN"
  by (auto simp: sendToken_def TOKEN_QUEUE_LEN_def split: if_splits)

lemma sendToken_busy:
  "sendToken net tok c = Inr c' \<Longrightarrow> (busy c \<noteq> None \<longrightarrow> draining c) \<Longrightarrow> busy c' \<noteq> None \<longrightarrow> draining c'"
  by (auto simp: sendToken_def attentive_def split: if_splits)

text \<open>The state between two calls: whoever has started the client has its goroutine running.\<close>

definition paho_ok :: "'h paho \<Rightarrow> bool" where
  "paho_ok c \<longleftrightarrow> (started c \<longleftrightarrow> draining c) \<and> (busy c \<noteq> None \<longrightarrow> draining c) \<and>
     length (tokens c) \<le> TOKEN_QUEUE_LEN \<and> retained_ok (retainedMessages c)"

lemma paho_ok_New: "paho_ok (NewPahoMQTTClient b)"
  by (simp add: paho_ok_def NewPahoMQTTClient_def retained_ok_def)

lemma paho_ok_sent:
  assumes "paho_ok c" "sendToken net tok (c\<lparr>inner := ks\<rparr>) = Inr c'"
  shows "paho_ok c' \<and> started c' = started c"
  using assms sendToken_Inr [OF assms(2)] sendToken_bound [OF assms(2)] sendToken_busy [OF assms(2)]
  by (auto simp: paho_ok_def)

lemma paho_ok_fields [simp]:
  "paho_ok (c\<lparr>inner := ks\<rparr>) = paho_ok c" "paho_ok (c\<lparr>connected := b\<rparr>) = paho_ok c"
  "paho_ok (c\<lparr>subs := m\<rparr>) = paho_ok c"
  by (simp_all add: paho_ok_def)

lemma paho_ok_addSub: "paho_ok (fold (addSub h) ts c) = paho_ok c"
proof -
  have "busy (fold (addSub h) ts c) = busy c"
    by (rule fold_field) (auto simp: addSub_def split: option.splits)
  then show ?thesis by (simp add: paho_ok_def)
qed

lemma Publish_ok:
  assumes "paho_ok c"
  shows "Publish net m c = Inl e \<Longrightarrow> started c \<Longrightarrow> paho_abort net e"
    "Publish net m c = Inr c' \<Longrightarrow> paho_ok c' \<and> started c' = started c"
proof -
  let ?c1 = "c\<lparr>inner := inner c @ [InnerPublish m]\<rparr>"
  show "Publish net m c = Inl e \<Longrightarrow> started c \<Longrightarrow> paho_abort net e"
    using assms sendToken_Inl [of net "length (inner c)" ?c1 e]
    by (auto simp: paho_ok_def Publish_def callInner_def bind_res_eq_Inl)
  assume run: "Publish net m c = Inr c'"
  then obtain c2 where c2: "sendToken net (length (inner c)) ?c1 = Inr c2"
    and "c' = c2 \<or> (\<exists>r. c' = c2\<lparr>retainedMessages := r\<rparr>)"
    by (auto simp: Publish_def callInner_def split: if_splits)
  then have same: "tokens c' = tokens c2" "started c' = started c2" "draining c' = draining c2" "busy c' = busy c2"
    by auto
  from run have "retained_ok (retainedMessages c')"
    using retained_ok_store [of "retainedMessages c" "[m]"] assms
    by (auto simp: paho_ok_def elim!: Publish_Inr)
  with same paho_ok_sent [OF assms c2] show "paho_ok c' \<and> started c' = started c"
    by (auto simp: paho_ok_def)
qed

lemma Subscribe_ok:
  assumes "paho_ok c"
  shows "Subscribe net h ts c = Inl e \<Longrightarrow> started c \<Longrightarrow> paho_abort net e"
    "Subscribe net h ts c = Inr c' \<Longrightarrow> paho_ok c' \<and> started c' = started c"
proof -
  show "Subscribe net h ts c = Inl e \<Longrightarrow> started c \<Longrightarrow> paho_abort net e"
    using assms
    by (auto simp: paho_ok_def Subscribe_def subscribeInner_def callInner_def Let_def
        split: if_splits intro!: sendToken_Inl)
  assume run: "Subscribe net h ts c = Inr c'"
  show "paho_ok c' \<and> started c' = started c"
  proof (cases "connected c")
    case False
    with run assms show ?thesis by (auto simp: Subscribe_def Let_def paho_ok_addSub)
  next
    case True
    with run obtain ks tok where
      "sendToken net tok ((fold (addSub h) ts c)\<lparr>inner := ks\<rparr>) = Inr c'"
      by (auto simp: Subscribe_def subscribeInner_def callInner_def Let_def)
    with paho_ok_sent [OF _ this] assms show ?thesis by (simp add: paho_ok_addSub)
  qed
qed

lemma StartClient_ok:
  assumes "paho_ok c"
  shows "StartClient net c = Inl e \<Longrightarrow> paho_abort net e"
    "StartClient net c = Inr c' \<Longrightarrow> paho_ok c' \<and> started c'"
  using assms
  by (auto simp: paho_ok_def StartClient_def callInner_def paho_abort_def split: if_splits option.splits)

lemma StopClient_ok:
  assumes "paho_ok c"
  shows "StopClient net c = Inl e \<Longrightarrow> paho_abort net e"
    "StopClient net c = Inr c' \<Longrightarrow> paho_ok c' \<and> \<not> started c'"
proof -
  let ?c = "c\<lparr>started := False, inner := inner c @ [Disconnect]\<rparr>"
  show "StopClient net c = Inl e \<Longrightarrow> paho_abort net e"
    using assms attentive_draining [of ?c net]
    by (auto simp: paho_ok_def StopClient_def Let_def split: if_splits)
  show "StopClient net c = Inr c' \<Longrightarrow> paho_ok c' \<and> \<not> started c'"
    using assms by (auto simp: paho_ok_def StopClient_def Let_def split: if_splits)
qed

lemma Unsubscribe_ok: "paho_ok c \<Longrightarrow> paho_ok (Unsubscribe ts c) \<and> started (Unsubscribe ts c) = started c"
  by (simp add: paho_ok_def Unsubscribe_def fold_dropSub Let_def)

lemma PublishSync_ok:
  assumes "paho_ok c"
  shows "PublishSync net m c = Inl e \<Longrightarrow> paho_abort net e"
    "PublishSync net m c = Inr c' \<Longrightarrow> paho_ok c' \<and> started c' = started c"
proof -
  show "PublishSync net m c = Inl e \<Longrightarrow> paho_abort net e"
    by (auto simp: PublishSync_def callInner_def paho_abort_def split: if_splits)
  show "PublishSync net m c = Inr c' \<Longrightarrow> paho_ok c' \<and> started c' = started c"
    using assms by (auto dest: PublishSync_Inr)
qed

text \<open>No call that keeps to the protocol fails in another way.\<close>

lemma perform_ok:
  assumes ok: "paho_ok c" and phase: "client_phase (started c) [k] = Some b"
  shows "case perform (paho_ops net) k c of
      Inr c' \<Rightarrow> paho_ok c' \<and> started c' = b | Inl e \<Rightarrow> paho_abort net e"
proof (cases k)
  case MStart
  with phase StartClient_ok [OF ok, of net] show ?thesis
    by (simp add: paho_ops_def split: sum.split)
next
  case MStop
  with phase have "\<not> b" by (auto split: if_splits)
  with MStop StopClient_ok [OF ok, of net] show ?thesis by (simp add: paho_ops_def split: sum.split)
next
  case (MPublish m)
  with phase have "started c" "b" by (auto split: if_splits)
  with MPublish Publish_ok [OF ok, of net m] show ?thesis by (simp add: paho_ops_def split: sum.split)
next
  case (MPublishSync m)
  with phase have "started c" "b" by (auto split: if_splits)
  with MPublishSync PublishSync_ok [OF ok, of net m] show ?thesis
    by (simp add: paho_ops_def split: sum.split)
next
  case (MSubscribe h ts)
  with phase have "started c" "b" by (auto split: if_splits)
  with MSubscribe Subscribe_ok [OF ok, of net h ts] show ?thesis
    by (simp add: paho_ops_def split: sum.split)
next
  case (MUnsubscribe ts)
  with phase have "started c" "b" by (auto split: if_splits)
  with MUnsubscribe Unsubscribe_ok [OF ok, of ts] show ?thesis by (simp add: paho_ops_def)
qed

interpretation paho: reliable_client "paho_ops net" paho_handlers paho_ok started "paho_abort net"
  by unfold_locales (rule perform_ok)

section \<open>The wait for retained messages\<close>

lemma waitCallback_seen:
  assumes "readyClosed c \<longleftrightarrow> got1 \<and> got2"
  shows "\<exists>c'. waitCallback t p ((got1, got2), c) =
      Inr ((got1 \<or> p = ''1'' \<and> \<not> (got1 \<and> got2), got2 \<or> p = ''2'' \<and> \<not> (got1 \<and> got2)), c') \<and>
    (readyClosed c' \<longleftrightarrow> (got1 \<or> p = ''1'') \<and> (got2 \<or> p = ''2''))"
  using assms by (auto simp: waitCallback_def closeReady_def)

lemma each_waitCallback:
  assumes "readyClosed c \<longleftrightarrow> got1 \<and> got2"
  shows "\<exists>s c'. each (waitCallback t) ps ((got1, got2), c) = Inr (s, c') \<and>
    (readyClosed c' \<longleftrightarrow> (got1 \<or> ''1'' \<in> set ps) \<and> (got2 \<or> ''2'' \<in> set ps))"
  using assms
proof (induction ps arbitrary: got1 got2 c)
  case (Cons p ps)
  from waitCallback_seen [OF Cons.prems, of t p] obtain c1 where
    c1: "waitCallback t p ((got1, got2), c) =
      Inr ((got1 \<or> p = ''1'' \<and> \<not> (got1 \<and> got2), got2 \<or> p = ''2'' \<and> \<not> (got1 \<and> got2)), c1)"
    "readyClosed c1 \<longleftrightarrow> (got1 \<or> p = ''1'') \<and> (got2 \<or> p = ''2'')" by blast
  let ?g1 = "got1 \<or> p = ''1'' \<and> \<not> (got1 \<and> got2)" and ?g2 = "got2 \<or> p = ''2'' \<and> \<not> (got1 \<and> got2)"
  have "readyClosed c1 \<longleftrightarrow> ?g1 \<and> ?g2" using c1(2) by auto
  from Cons.IH [OF this] obtain s c' where
    "each (waitCallback t) ps ((?g1, ?g2), c1) = Inr (s, c')"
    "readyClosed c' \<longleftrightarrow> (?g1 \<or> ''1'' \<in> set ps) \<and> (?g2 \<or> ''2'' \<in> set ps)" by blast
  moreover from this(1) c1(1) have "each (waitCallback t) (p # ps) ((got1, got2), c) = Inr (s, c')"
    by (simp only: each.simps bind_res.simps)
  ultimately show ?case by auto
qed auto

end
