(* ===== verification/Paho_Session.thy ===== *)
theory Paho_Session
  imports Paho_Client
begin

text \<open>
  The client of mqtt.go among what happens to it: the calls of its user, in their order, and between
  them connections made and lost and the steps of the goroutine that waits for tokens. What it has
  asked of the inner client since the last connection was made is the session; in a connected
  client it agrees with the table of callbacks.
\<close>

section \<open>Schedules\<close>

datatype 'h client_event =
    Called "'h mqtt_call"
  | Connected "string list" "string list"
  | ConnectionLost
  | Drained

text \<open>
  The number is how many calls of \<open>inner\<close> were made before the connection. A connection is made only
  to a client that was started, and \<open>onConnect\<close> ranges over all of its two maps.
\<close>

fun paho_event :: "net \<Rightarrow> 'h client_event \<Rightarrow> nat \<times> 'h paho \<Rightarrow> (nat \<times> 'h paho) res" where
  "paho_event net (Called k) (n, c) = bind_res (perform (paho_ops net) k c) (\<lambda>c. Inr (n, c))"
| "paho_event net (Connected ts rs) (n, c) =
     (if started c \<and> key_order (subs c) ts \<and> key_order (retainedMessages c) rs
      then bind_res (onConnect net ts rs c) (\<lambda>c'. Inr (length (inner c), c'))
      else Inr (n, c))"
| "paho_event net ConnectionLost (n, c) = Inr (n, onConnectionLost c)"
| "paho_event net Drained (n, c) = Inr (n, drainToken net c)"

abbreviation paho_run :: "net \<Rightarrow> 'h client_event list \<Rightarrow> nat \<times> 'h paho \<Rightarrow> (nat \<times> 'h paho) res" where
  "paho_run net \<equiv> each (paho_event net)"

fun event_calls :: "'h client_event \<Rightarrow> 'h mqtt_call list" where
  "event_calls (Called k) = [k]"
| "event_calls _ = []"

definition calls_of :: "'h client_event list \<Rightarrow> 'h mqtt_call list" where
  "calls_of es = concat (map event_calls es)"

lemma calls_of_simps [simp]:
  "calls_of [] = []" "calls_of (e # es) = event_calls e @ calls_of es"
  "calls_of (map Called ks) = ks"
  by (simp_all add: calls_of_def) (induction ks; simp)

lemma calls_of_append: "calls_of (es @ fs) = calls_of es @ calls_of fs"
  by (simp add: calls_of_def)

lemma paho_run_calls:
  "paho_run net (map Called ks) (n, c) = bind_res (perform_all (paho_ops net) ks c) (\<lambda>c. Inr (n, c))"
proof (induction ks arbitrary: c)
  case (Cons k ks)
  then show ?case by (cases "perform (paho_ops net) k c") simp_all
qed simp

section \<open>What was asked of the inner client\<close>

text \<open>
  The callbacks the inner client was given for each filter and not told to drop. It subscribes with
  the broker for the filters it was given.
\<close>

fun asked_step :: "'h inner_call \<Rightarrow> (string \<Rightarrow> 'h callback list) \<Rightarrow> (string \<Rightarrow> 'h callback list)" where
  "asked_step (SubscribeMultiple filters cb) tab =
     (\<lambda>t. if filters t = None then tab t else tab t @ [cb])"
| "asked_step (InnerUnsubscribe ts) tab = (\<lambda>t. if t \<in> set ts then [] else tab t)"
| "asked_step _ tab = tab"

definition asked :: "'h inner_call list \<Rightarrow> string \<Rightarrow> 'h callback list" where
  "asked ks = fold asked_step ks (\<lambda>_. [])"

lemma asked_append: "asked (ks @ ls) = fold asked_step ls (asked ks)"
  by (simp add: asked_def)

lemma asked_subscribing:
  "\<forall>ts. InnerUnsubscribe ts \<notin> set ks \<Longrightarrow>
     set (fold asked_step ks tab t) =
       set (tab t) \<union> {cb. \<exists>f. SubscribeMultiple f cb \<in> set ks \<and> f t \<noteq> None}"
proof (induction ks arbitrary: tab)
  case (Cons k ks)
  then show ?case by (cases k) auto
qed simp

lemma filters_iff: "fold (\<lambda>t filters. filters(t \<mapsto> (2::nat))) ts f u = None \<longleftrightarrow> u \<notin> set ts \<and> f u = None"
  by (induction ts arbitrary: f) auto

lemma asked_reconnection:
  assumes "key_order m ts"
  shows "set (asked (resubscriptions ts m @ map (\<lambda>t. InnerPublish (r t)) rs) t) = User ` set (get_or [] m t)"
proof -
  let ?ks = "resubscriptions ts m @ map (\<lambda>t. InnerPublish (r t)) rs"
  have "\<forall>us. InnerUnsubscribe us \<notin> set ?ks"
    by (auto simp: resubscriptions_def resubscription_def)
  then have "set (asked ?ks t) = {cb. \<exists>f. SubscribeMultiple f cb \<in> set ?ks \<and> f t \<noteq> None}"
    unfolding asked_def by (subst asked_subscribing) auto
  also have "\<dots> = {User h | h. t \<in> set ts \<and> h \<in> set (get_or [] m t)}"
  proof (intro set_eqI iffI)
    fix cb
    assume "cb \<in> {User h | h. t \<in> set ts \<and> h \<in> set (get_or [] m t)}"
    then obtain h where "cb = User h" "SubscribeMultiple [t \<mapsto> 2] cb \<in> set ?ks"
      by (auto simp: resubscriptions_def resubscription_def)
    then show "cb \<in> {cb. \<exists>f. SubscribeMultiple f cb \<in> set ?ks \<and> f t \<noteq> None}"
      by (intro CollectI exI [of _ "[t \<mapsto> 2]"]) simp
  qed (auto simp: resubscriptions_def resubscription_def split: if_splits)
  also have "\<dots> = User ` set (get_or [] m t)"
    using assms by (cases "m t") (auto simp: key_order_def get_or_def)
  finally show ?thesis .
qed

section \<open>The session agrees with the table\<close>

definition session_ok :: "nat \<times> 'h paho \<Rightarrow> bool" where
  "session_ok s \<longleftrightarrow>
     (case s of (n, c) \<Rightarrow> n \<le> length (inner c) \<and>
        (connected c \<longrightarrow> (\<forall>t. set (asked (drop n (inner c)) t) = User ` set (paho_handlers c t))))"

lemma session_ok_same:
  assumes "session_ok (n, c)" "inner c' = inner c @ ks" "connected c' \<longrightarrow> connected c"
    "\<And>tab. fold asked_step ks tab = tab" "subs c' = subs c"
  shows "session_ok (n, c')"
  using assms by (simp add: session_ok_def asked_append paho_handlers_def)

lemma session_ok_perform:
  assumes ok: "session_ok (n, c)" and run: "perform (paho_ops net) k c = Inr c'"
  shows "session_ok (n, c')"
proof (cases k)
  case MStart
  with run have "inner c' = inner c @ (if started c then [] else [Connect])" "connected c' = connected c"
    "subs c' = subs c"
    by (auto simp: paho_ops_def StartClient_def callInner_def split: if_splits option.splits)
  with ok show ?thesis by (intro session_ok_same [OF ok]) auto
next
  case MStop
  with run have "inner c' = inner c @ (if started c then [Disconnect] else [])" "connected c' = connected c"
    "subs c' = subs c"
    by (auto simp: paho_ops_def StopClient_def Let_def split: if_splits)
  with ok show ?thesis by (intro session_ok_same [OF ok]) auto
next
  case (MPublish m)
  with run have "Publish net m c = Inr c'" by (simp add: paho_ops_def)
  then obtain tks bz where "c' = c\<lparr>inner := inner c @ [InnerPublish m], tokens := tks, busy := bz,
    retainedMessages := retain_step m (retainedMessages c)\<rparr>" by (rule Publish_Inr)
  then show ?thesis by (intro session_ok_same [OF ok, of _ "[InnerPublish m]"]) auto
next
  case (MPublishSync m)
  with run have "PublishSync net m c = Inr c'" by (simp add: paho_ops_def)
  from PublishSync_Inr [OF this] show ?thesis
    by (intro session_ok_same [OF ok, of _ "[InnerPublish m]"]) auto
next
  case (MSubscribe h ts)
  with run have sub: "Subscribe net h ts c = Inr c'" by (simp add: paho_ops_def)
  note tab = Subscribe_fields(2,3) [OF sub]
  show ?thesis
  proof (cases "connected c")
    case False
    then have "c' = fold (addSub h) ts c" using sub by (simp add: Subscribe_def Let_def)
    with ok False show ?thesis by (simp add: session_ok_def)
  next
    case True
    let ?f = "fold (\<lambda>t filters. filters(t \<mapsto> 2)) ts Map.empty"
    from True sub obtain tok where
      "sendToken net tok ((fold (addSub h) ts c)\<lparr>inner := inner c @ [SubscribeMultiple ?f (User h)]\<rparr>) = Inr c'"
      by (auto simp: Subscribe_def subscribeInner_def callInner_def Let_def)
    from sendToken_Inr [OF this] have inner: "inner c' = inner c @ [SubscribeMultiple ?f (User h)]" by auto
    have "set (asked (drop n (inner c')) t) = User ` set (paho_handlers c' t)" for t
      using ok True
      by (auto simp: inner asked_append session_ok_def filters_iff paho_handlers_def tab
          set_replicate_conv_if count_list_0_iff)
    with ok show ?thesis by (simp add: session_ok_def inner)
  qed
next
  case (MUnsubscribe ts)
  with run have c': "c' = Unsubscribe ts c" by (simp add: paho_ops_def)
  show ?thesis
  proof (cases "connected c")
    case False
    with ok show ?thesis
      by (simp add: c' session_ok_def Unsubscribe_def fold_dropSub Let_def)
  next
    case True
    then have inner: "inner c' = inner c @ [InnerUnsubscribe ts]"
      by (simp add: c' Unsubscribe_def fold_dropSub Let_def)
    have "set (asked (drop n (inner c')) t) = User ` set (paho_handlers c' t)" for t
      unfolding inner using ok True by (simp add: asked_append session_ok_def paho_handlers_def c')
    with ok show ?thesis by (simp add: session_ok_def inner)
  qed
qed

section \<open>Runs\<close>

text \<open>A loop whose body keeps \<open>P\<close> or fails in an admitted way.\<close>

lemma each_outcome:
  assumes "\<And>x c. x \<in> set xs \<Longrightarrow> P c \<Longrightarrow> case f x c of Inr c' \<Rightarrow> P c' | Inl e \<Rightarrow> Q e" "P c"
  shows "case each f xs c of Inr c' \<Rightarrow> P c' | Inl e \<Rightarrow> Q e"
  using assms
proof (induction xs arbitrary: c)
  case (Cons x xs)
  show ?case
  proof (cases "f x c")
    case (Inl e)
    with Cons.prems(1) [of x c] Cons.prems(2) show ?thesis by simp
  next
    case (Inr c1)
    with Cons.prems(1) [of x c] Cons.prems(2) have "P c1" by simp
    with Cons.IH [of c1] Cons.prems(1) Inr show ?thesis by simp
  qed
qed simp

lemma onConnect_ok:
  assumes "paho_ok c"
  shows "onConnect net ts rs c = Inl e \<Longrightarrow> started c \<Longrightarrow> paho_abort net e"
    "onConnect net ts rs c = Inr c' \<Longrightarrow> paho_ok c' \<and> started c' = started c"
proof -
  let ?P = "\<lambda>c'. paho_ok c' \<and> started c' = started c" and ?Q = "\<lambda>e. started c \<longrightarrow> paho_abort net e"
  have sub: "case resubscribe net t h c1 of Inr c' \<Rightarrow> ?P c' | Inl e \<Rightarrow> ?Q e" if "?P c1" for t h c1
    using that paho_ok_sent [of c1 net "length (inner c1)" "inner c1 @ [resubscription t h]"]
      sendToken_Inl [of net "length (inner c1)" "c1\<lparr>inner := inner c1 @ [resubscription t h]\<rparr>"]
    by (auto simp: resubscribe_def subscribeInner_def callInner_def resubscription_def paho_ok_def
        split: sum.split)
  have pub: "case (case retainedMessages c1 t of Some msg \<Rightarrow> Publish net msg c1 | None \<Rightarrow> Inr c1) of
      Inr c' \<Rightarrow> ?P c' | Inl e \<Rightarrow> ?Q e" if "?P c1" for t c1
    using that Publish_ok [of c1 net] by (auto split: option.split sum.split)
  have subs: "case each (\<lambda>t c. each (resubscribe net t) (get_or [] (subs c) t) c) ts (c\<lparr>connected := True\<rparr>) of
      Inr c' \<Rightarrow> ?P c' | Inl e \<Rightarrow> ?Q e"
    by (intro each_outcome [where P = ?P] sub) (use assms in auto)
  have "case onConnect net ts rs c of Inr c' \<Rightarrow> ?P c' | Inl e \<Rightarrow> ?Q e"
  proof (cases "each (\<lambda>t c. each (resubscribe net t) (get_or [] (subs c) t) c) ts (c\<lparr>connected := True\<rparr>)")
    case (Inl e)
    with subs show ?thesis by (simp add: onConnect_def Let_def)
  next
    case (Inr c1)
    with subs have "?P c1" by simp
    then have "case each (\<lambda>t c. case retainedMessages c t of Some msg \<Rightarrow> Publish net msg c | None \<Rightarrow> Inr c) rs c1 of
        Inr c' \<Rightarrow> ?P c' | Inl e \<Rightarrow> ?Q e"
      by (intro each_outcome [where P = ?P] pub)
    with Inr show ?thesis by (simp add: onConnect_def Let_def)
  qed
  then show "onConnect net ts rs c = Inl e \<Longrightarrow> started c \<Longrightarrow> paho_abort net e"
    "onConnect net ts rs c = Inr c' \<Longrightarrow> paho_ok c' \<and> started c' = started c"
    by auto
qed

lemma drainToken_ok:
  assumes "paho_ok c"
  shows "paho_ok (drainToken net c)" "started (drainToken net c) = started c"
    "subs (drainToken net c) = subs c" "inner (drainToken net c) = inner c"
    "connected (drainToken net c) = connected c"
  using assms by (auto simp: drainToken_def paho_ok_def split: option.split list.split)

text \<open>Every event keeps the invariants and does to the table what its calls ask for.\<close>

lemma paho_event_Inr:
  assumes ok: "paho_ok c" "session_ok (n, c)" and run: "paho_event net e (n, c) = Inr (n', c')"
  shows "paho_ok c' \<and> session_ok (n', c') \<and>
    paho_handlers c' = call_table (event_calls e) (paho_handlers c)"
proof (cases e)
  case (Called k)
  with run have k: "perform (paho_ops net) k c = Inr c'" "n' = n" by auto
  have "paho_ok c'"
    using k(1) StartClient_ok(2) [OF ok(1), of net c'] StopClient_ok(2) [OF ok(1), of net c']
      Publish_ok(2) [OF ok(1), of net _ c'] PublishSync_ok(2) [OF ok(1), of net _ c']
      Subscribe_ok(2) [OF ok(1), of net _ _ c'] Unsubscribe_ok [OF ok(1)]
    by (cases k) (simp_all add: paho_ops_def, metis)
  with session_ok_perform [OF ok(2) k(1)] paho.perform_handlers [OF k(1)] Called k(2) show ?thesis by simp
next
  case (Connected ts rs)
  show ?thesis
  proof (cases "started c \<and> key_order (subs c) ts \<and> key_order (retainedMessages c) rs")
    case False
    with run ok Connected show ?thesis by simp
  next
    case True
    with run Connected have k: "onConnect net ts rs c = Inr c'" "n' = length (inner c)" by auto
    have "retained_ok (retainedMessages c)" "set rs \<subseteq> dom (retainedMessages c)"
      using ok(1) True by (auto simp: paho_ok_def key_order_def)
    with k(1) obtain tks bz where c': "c' = c\<lparr>connected := True, inner := inner c @ resubscriptions ts (subs c) @
      map (\<lambda>t. InnerPublish (the (retainedMessages c t))) rs, tokens := tks, busy := bz\<rparr>"
      by (rule onConnect_Inr)
    then have "session_ok (n', c')"
      using True by (simp add: session_ok_def k(2) asked_reconnection paho_handlers_def)
    moreover have "paho_handlers c' = paho_handlers c" by (simp add: c' paho_handlers_def)
    ultimately show ?thesis using onConnect_ok(2) [OF ok(1) k(1)] Connected by simp
  qed
next
  case ConnectionLost
  with run ok show ?thesis by (auto simp: onConnectionLost_def session_ok_def paho_handlers_def)
next
  case Drained
  with run ok drainToken_ok [OF ok(1), of net] show ?thesis
    by (auto simp: session_ok_def paho_handlers_def)
qed

lemma paho_run_Inr:
  assumes "paho_ok c" "session_ok (n, c)" "paho_run net es (n, c) = Inr (n', c')"
  shows "paho_ok c' \<and> session_ok (n', c') \<and> paho_handlers c' = call_table (calls_of es) (paho_handlers c)"
  using assms
proof (induction es arbitrary: n c)
  case (Cons e es)
  then obtain n1 c1 where 1: "paho_event net e (n, c) = Inr (n1, c1)" "paho_run net es (n1, c1) = Inr (n', c')"
    by auto
  from paho_event_Inr [OF Cons.prems(1,2) 1(1)] Cons.IH [OF _ _ 1(2)] show ?case by simp
qed simp

text \<open>A user's calls neither make nor lose the connection.\<close>

lemma perform_connected: "perform (paho_ops net) k c = Inr c' \<Longrightarrow> connected c' = connected c"
  by (cases k) (auto simp: paho_ops_def StartClient_fields StopClient_fields Subscribe_fields
      dest: PublishSync_Inr elim!: Publish_Inr)

lemma paho_run_connected:
  assumes "paho_run net (Called MStart # Connected [] [] # map Called ks) (0, NewPahoMQTTClient b) = Inr (n, c)"
  shows "connected c"
proof -
  have calls: "connected c'" if "paho_run net (map Called ks) (i, c1) = Inr (j, c')" "connected c1"
    for ks i j and c1 c' :: "'a paho"
    using that
  proof (induction ks arbitrary: c1)
    case (Cons k ks)
    then obtain c2 where 2: "perform (paho_ops net) k c1 = Inr c2" "paho_run net (map Called ks) (i, c2) = Inr (j, c')"
      by auto
    from Cons.IH [OF 2(2)] perform_connected [OF 2(1)] Cons.prems(2) show ?case by simp
  qed simp
  from assms obtain c0 where 0: "StartClient net (NewPahoMQTTClient b :: 'a paho) = Inr c0"
    and rest: "paho_run net (Connected [] [] # map Called ks) (0, c0) = Inr (n, c)"
    by (auto simp: paho_ops_def)
  from StartClient_fields [OF 0] have "subs c0 = Map.empty" "retainedMessages c0 = Map.empty" "started c0"
    by (simp_all add: NewPahoMQTTClient_def)
  then have "paho_event net (Connected [] []) (0, c0) = Inr (length (inner c0), c0\<lparr>connected := True\<rparr>)"
    by (simp add: key_order_def onConnect_def Let_def)
  with rest calls [of ks "length (inner c0)" "c0\<lparr>connected := True\<rparr>" n c] show ?thesis by simp
qed

lemma paho_event_phase:
  assumes ok: "paho_ok c" and phase: "client_phase (started c) (event_calls e) = Some b"
  shows "case paho_event net e (n, c) of Inr s \<Rightarrow> started (snd s) = b | Inl a \<Rightarrow> paho_abort net a"
proof (cases e)
  case (Called k)
  with perform_ok [OF ok, of k b net] phase show ?thesis
    by (cases "perform (paho_ops net) k c") auto
next
  case (Connected ts rs)
  with onConnect_ok [OF ok, of net ts rs] phase show ?thesis
    by (cases "onConnect net ts rs c") auto
next
  case ConnectionLost
  with phase show ?thesis by (simp add: onConnectionLost_def)
next
  case Drained
  with phase drainToken_ok [OF ok] show ?thesis by simp
qed

lemma paho_run_phase:
  assumes "paho_ok c" "session_ok (n, c)" "client_phase (started c) (calls_of es) = Some b"
  shows "case paho_run net es (n, c) of Inr s \<Rightarrow> started (snd s) = b | Inl a \<Rightarrow> paho_abort net a"
  using assms
proof (induction es arbitrary: n c)
  case (Cons e es)
  from Cons.prems(3) client_phase_append [of "started c" "event_calls e" "calls_of es"] obtain b1 where
    b1: "client_phase (started c) (event_calls e) = Some b1" "client_phase b1 (calls_of es) = Some b"
    by (auto split: option.splits)
  show ?case
  proof (cases "paho_event net e (n, c)")
    case (Inl a)
    with paho_event_phase [OF Cons.prems(1) b1(1), of net n] show ?thesis by simp
  next
    case (Inr s)
    obtain n1 c1 where s: "s = (n1, c1)" by (cases s)
    from paho_event_phase [OF Cons.prems(1) b1(1), of net n] Inr s have "started c1 = b1" by simp
    with paho_event_Inr [OF Cons.prems(1,2)] Cons.IH [of c1 n1] b1(2) Inr s show ?thesis by simp
  qed
qed simp

lemma session_ok_New: "session_ok (0, NewPahoMQTTClient b)"
  by (simp add: session_ok_def NewPahoMQTTClient_def)

end
