(* ===== verification/Mqtt_Properties.thy ===== *)
theory Mqtt_Properties
  imports Paho_Session Fake_Mqtt
begin

text \<open>The properties of the two MQTT clients, of the fake broker and of the recorder.\<close>

section \<open>The client for a real broker\<close>

lemma NewPahoMQTTClient_fields [simp]:
  "paho_handlers (NewPahoMQTTClient b) = (\<lambda>_. [])"
  "retainedMessages (NewPahoMQTTClient b) = Map.empty"
  "\<not> started (NewPahoMQTTClient b)" "waitForRetained (NewPahoMQTTClient b) = b"
  by (simp_all add: paho_handlers_def NewPahoMQTTClient_def fun_eq_iff)

text \<open>
  C17. Whatever calls are made on a new client, it holds for each topic the callbacks those calls ask
  for, in order, and keeps for a reconnection exactly the retained messages a broker would have kept
  of the messages published with \<open>Publish\<close>.
\<close>

theorem paho_keeps_what_is_asked:
  assumes "perform_all (paho_ops net) ks (NewPahoMQTTClient b) = Inr c"
  shows "paho_handlers c = call_table ks (\<lambda>_. []) \<and>
    retainedMessages c = retained_store (asyncs ks) Map.empty"
  using paho.perform_all_handlers [OF assms] perform_all_retained [OF assms] by simp

text \<open>A network on which everything comes about, and one on which nothing is ever acknowledged.\<close>

definition prompt_net :: net where
  "prompt_net = \<lparr>completes = (\<lambda>_. True), token_error = (\<lambda>_. None)\<rparr>"

definition mute_net :: net where
  "mute_net = \<lparr>completes = (\<lambda>tok. tok = 0), token_error = (\<lambda>_. None)\<rparr>"

lemma prompt_net_abort [simp]: "\<not> paho_abort prompt_net e"
  by (simp add: paho_abort_def prompt_net_def)

lemma prompt_performs:
  assumes "client_phase False ks = Some b"
  shows "\<exists>c. perform_all (paho_ops prompt_net) ks (NewPahoMQTTClient w) = Inr c"
  using paho.perform_all_returns [OF paho_ok_New, of w ks b prompt_net] assms
  by (auto simp: NewPahoMQTTClient_def split: sum.splits)

lemma paho_keeps_what_is_asked_witness:
  "\<exists>c. perform_all (paho_ops prompt_net) [MStart, MSubscribe (1::nat) [''a''], MSubscribe 2 [''a'', ''b''],
        MPublish \<lparr>Topic = ''t'', Payload = ''v'', QoS = 1, Retained = True\<rparr>] (NewPahoMQTTClient True) = Inr c \<and>
     paho_handlers c ''a'' = [1, 2] \<and>
     retainedMessages c ''t'' = Some \<lparr>Topic = ''t'', Payload = ''v'', QoS = 1, Retained = True\<rparr>"
proof -
  let ?ks = "[MStart, MSubscribe (1::nat) [''a''], MSubscribe 2 [''a'', ''b''],
        MPublish \<lparr>Topic = ''t'', Payload = ''v'', QoS = 1, Retained = True\<rparr>]"
  have "client_phase False ?ks = Some True" by simp
  from prompt_performs [OF this] obtain c where
    c: "perform_all (paho_ops prompt_net) ?ks (NewPahoMQTTClient True) = Inr c"
    by blast
  from paho_keeps_what_is_asked [OF c] have
    "paho_handlers c ''a'' = [1, 2]"
    "retainedMessages c ''t'' = Some \<lparr>Topic = ''t'', Payload = ''v'', QoS = 1, Retained = True\<rparr>"
    by (simp_all add: retain_step_def)
  with c show ?thesis by blast
qed

text \<open>
  C12. After a reconnection the broker knows again what the client knows: in whatever order the maps
  are walked, one subscription is made for each callback of each topic, every kept message is
  published once and nothing else is, so a broker that lost everything has the same retained messages.
\<close>

theorem reconnection_restores_the_session:
  assumes "paho_ok c" "onConnect net ts rs c = Inr c'"
    and "key_order (subs c) ts" "key_order (retainedMessages c) rs"
  shows "connected c' \<and> subs c' = subs c \<and> retainedMessages c' = retainedMessages c \<and>
    inner c' = inner c @ resubscriptions ts (subs c) @
      map (\<lambda>t. InnerPublish (the (retainedMessages c t))) rs \<and>
    retained_store (map (\<lambda>t. the (retainedMessages c t)) rs) Map.empty = retainedMessages c"
proof -
  have ok: "retained_ok (retainedMessages c)" and rs: "set rs \<subseteq> dom (retainedMessages c)"
    using assms(1,4) by (auto simp: paho_ok_def key_order_def)
  from assms(2) ok rs obtain tks bz where "c' = c\<lparr>connected := True,
    inner := inner c @ resubscriptions ts (subs c) @
      map (\<lambda>t. InnerPublish (the (retainedMessages c t))) rs, tokens := tks, busy := bz\<rparr>"
    by (rule onConnect_Inr)
  with republish_store [OF ok assms(4)] show ?thesis by simp
qed

definition demo_paho :: "nat paho" where
  "demo_paho = (NewPahoMQTTClient False)
     \<lparr>subs := [''a'' \<mapsto> [1, 2]], started := True, draining := True,
      retainedMessages := [''t'' \<mapsto> \<lparr>Topic = ''t'', Payload = ''v'', QoS = 1, Retained = True\<rparr>]\<rparr>"

lemma reconnection_restores_the_session_witness:
  "\<exists>c'. onConnect prompt_net [''a''] [''t''] demo_paho = Inr c' \<and>
     inner c' = [resubscription ''a'' 1, resubscription ''a'' 2,
       InnerPublish \<lparr>Topic = ''t'', Payload = ''v'', QoS = 1, Retained = True\<rparr>]"
proof -
  have ok: "paho_ok demo_paho"
    by (simp add: paho_ok_def demo_paho_def NewPahoMQTTClient_def retained_ok_def)
  have keys: "key_order (subs demo_paho) [''a'']" "key_order (retainedMessages demo_paho) [''t'']"
    by (auto simp: key_order_def demo_paho_def split: if_splits)
  obtain c' where c': "onConnect prompt_net [''a''] [''t''] demo_paho = Inr c'"
    by (simp add: onConnect_def demo_paho_def NewPahoMQTTClient_def resubscribe_def subscribeInner_def
        callInner_def sendToken_def TOKEN_QUEUE_LEN_def Publish_def)
  from reconnection_restores_the_session [OF ok c' keys] c' show ?thesis
    by (simp add: demo_paho_def NewPahoMQTTClient_def resubscriptions_def)
qed




text \<open>
  \<open>PublishSync\<close> without an acknowledgement never returns, and neither does \<open>Stop\<close> once the goroutine
  waits for one.
\<close>

theorem unacknowledged_calls_block:
  "PublishSync mute_net m (c\<lparr>inner := [Connect]\<rparr>) = Inl BlockedForever \<and>
   perform_all (paho_ops mute_net) [MStart, MPublish m] (NewPahoMQTTClient w) =
     Inr ((NewPahoMQTTClient w)\<lparr>inner := [Connect, InnerPublish m], tokens := [1], started := True,
        draining := True, retainedMessages := retain_step m Map.empty\<rparr>) \<and>
   StopClient mute_net (drainToken mute_net (c\<lparr>started := True, draining := True, busy := None, tokens := [1]\<rparr>)) =
     Inl BlockedForever"
  by (simp add: mute_net_def PublishSync_def callInner_def paho_ops_def StartClient_def Publish_def
      sendToken_def TOKEN_QUEUE_LEN_def NewPahoMQTTClient_def retain_step_def StopClient_def drainToken_def
      attentive_def Let_def)

text \<open>
  Before \<open>Start\<close> the channel of tokens has no reader: once it is full, \<open>Publish\<close> never returns.
\<close>

theorem publish_before_start_blocks:
  assumes "paho_ok c" "\<not> started c" "length (tokens c) = TOKEN_QUEUE_LEN"
  shows "Publish net m c = Inl BlockedForever"
  using assms by (simp add: Publish_def callInner_def sendToken_def paho_ok_def attentive_def)

lemma publish_before_start_blocks_witness:
  "Publish prompt_net \<lparr>Topic = ''t'', Payload = ''v'', QoS = 1, Retained = True\<rparr>
     ((NewPahoMQTTClient False)\<lparr>tokens := [0..<TOKEN_QUEUE_LEN]\<rparr>) = Inl BlockedForever"
  by (rule publish_before_start_blocks)
     (simp_all add: paho_ok_def NewPahoMQTTClient_def retained_ok_def)

text \<open>
  The callback that waits for the retained messages closes \<open>ready\<close> exactly when both of its two
  messages have come, in any order, with any duplicates and with others in between, and never twice.
\<close>

theorem ready_after_both_messages:
  assumes "\<not> readyClosed c"
  shows "\<exists>s c'. each (waitCallback t) ps ((False, False), c) = Inr (s, c') \<and>
    (readyClosed c' \<longleftrightarrow> ''1'' \<in> set ps \<and> ''2'' \<in> set ps)"
  using each_waitCallback [of c False False t ps] assms by simp

lemma ready_after_both_messages_witness:
  "\<exists>s c'. each (waitCallback ''w'') [''2'', ''x'', ''2'', ''1'', ''1''] ((False, False), NewPahoMQTTClient True :: nat paho)
     = Inr (s, c') \<and> readyClosed c'"
  using ready_after_both_messages [of "NewPahoMQTTClient True :: nat paho" "''w''" "[''2'', ''x'', ''2'', ''1'', ''1'']"]
  by (simp add: NewPahoMQTTClient_def)

text \<open>
  A client that does not wait for retained messages can be waited for once only: a second
  \<open>WaitForReady\<close>, which a driver started again makes, closes a closed channel.
\<close>

theorem second_wait_panics:
  assumes "\<not> waitForRetained c" "WaitForReady net t c = Inr c1"
  shows "WaitForReady net' t' c1 = Inl ClosedChannel"
  using assms by (auto simp: WaitForReady_def closeReady_def split: if_splits)

lemma second_wait_panics_witness:
  "WaitForReady prompt_net ''u'' ((NewPahoMQTTClient False :: nat paho)\<lparr>readyClosed := True\<rparr>) = Inl ClosedChannel"
  by (rule second_wait_panics [of "NewPahoMQTTClient False" prompt_net "''t''"])
     (simp_all add: NewPahoMQTTClient_def WaitForReady_def closeReady_def)

section \<open>The fake broker\<close>

text \<open>
  Broker and clients of the fake agree after any calls: a client is a subscriber of a filter
  exactly when it has callbacks for it, and once.
\<close>

theorem fake_broker_consistent:
  assumes "fake_ok s" "perform_all (fake_ops ps ts n) ks s = Inr s'"
  shows "distinct (subscribers s' t) \<and> (m \<in> set (subscribers s' t) \<longleftrightarrow> callbacks_of m s' t \<noteq> [])"
proof -
  have "fake_ok s'"
    using assms
  proof (induction ks arbitrary: s)
    case (Cons k ks)
    then obtain s1 where "perform (fake_ops ps ts n) k s = Inr s1"
      "perform_all (fake_ops ps ts n) ks s1 = Inr s'" by auto
    with Cons fake_ok_perform show ?case by blast
  qed simp
  then show ?thesis by (simp add: fake_ok_def)
qed

definition demo_fake :: "nat fake" where
  "demo_fake = fst (MakeClient ''c1'' NewFakeMQTTBroker)"

lemma fake_broker_consistent_witness:
  "\<exists>s'. perform_all (fake_ops (\<lambda>_. []) (\<lambda>_ _. []) 0) [MStart, MSubscribe 7 [''a'']] demo_fake = Inr s' \<and>
     (0 \<in> set (subscribers s' ''a'') \<longleftrightarrow> callbacks_of 0 s' ''a'' \<noteq> [])"
proof -
  obtain s' where s': "perform_all (fake_ops (\<lambda>_. []) (\<lambda>_ _. []) 0) [MStart, MSubscribe 7 [''a'']] demo_fake = Inr s'"
    by (simp add: fake_ops_def demo_fake_def MakeClient_def NewFakeMQTTBroker_def clientStart_def
        close_ready_def newClient_def clientSubscribe_def brokerSubscribe_def record_item_def Rec_def
        REC_CAPACITY_def Let_def ensureStarted_def)
  have "fake_ok demo_fake"
    by (simp add: fake_ok_def demo_fake_def MakeClient_def NewFakeMQTTBroker_def subscribers_def
        callbacks_of_def newClient_def Let_def)
  from fake_broker_consistent [OF this s'] s' show ?thesis by blast
qed

text \<open>
  C29. What a message published by a client reaches: for each filter of the broker that matches, each
  of its subscribers runs all the callbacks of all its matching filters, in the order the maps are
  walked. (A client with two matching filters is thus served twice.)
\<close>

theorem fake_publish_reaches:
  assumes "clientPublish ps ts n m s = Inr s'"
  shows "received s' = received s @
    concat (map (\<lambda>p. if topicMatch p (Topic m)
                     then concat (map (\<lambda>k. deliveries (\<lambda>k. callbacks_of k s) (ts p k) k m) (subscribers s p))
                     else []) ps) \<and>
    subscribers s' = subscribers s \<and> callbacks_of k s' = callbacks_of k s"
proof -
  from assms obtain i where run: "brokerPublish ps ts i m s = Inr s'"
    by (auto simp: clientPublish_def)
  from brokerPublish_received [OF run] brokerPublish_fields(2) [OF run] brokerPublish_callbacks [OF run]
  show ?thesis by (simp add: subscribers_def)
qed

definition demo_fake2 :: "nat fake" where
  "demo_fake2 = demo_fake\<lparr>subscriptions := [''a/b'' \<mapsto> [0], ''a/+'' \<mapsto> [0]],
     clients := (clients demo_fake)(0 := \<lparr>client_id = ''c1'', client_started = True,
       callbackMap = [''a/b'' \<mapsto> [7], ''a/+'' \<mapsto> [8]], client_ready = True\<rparr>)\<rparr>"

lemma fake_publish_reaches_witness:
  "\<exists>s'. clientPublish [''a/b'', ''a/+''] (\<lambda>_ _. [''a/b'', ''a/+'']) 0
          \<lparr>Topic = ''a/b'', Payload = [], QoS = 0, Retained = False\<rparr> demo_fake2 = Inr s' \<and>
     map (fst \<circ> snd) (received s') = [7, 8, 7, 8]"
proof -
  let ?m = "\<lparr>Topic = ''a/b'', Payload = [], QoS = 0, Retained = False\<rparr>"
  obtain s' where s': "clientPublish [''a/b'', ''a/+''] (\<lambda>_ _. [''a/b'', ''a/+'']) 0 ?m demo_fake2 = Inr s'"
    by (simp add: clientPublish_def brokerPublish_def ensureStarted_def demo_fake2_def demo_fake_def
        MakeClient_def NewFakeMQTTBroker_def record_item_def Rec_def REC_CAPACITY_def Let_def)
  have "received s' = [(0, 7, ?m), (0, 8, ?m), (0, 7, ?m), (0, 8, ?m)]"
    using fake_publish_reaches [OF s', of 0]
    by (simp add: deliveries_def callbacks_of_def subscribers_def demo_fake2_def demo_fake_def
        MakeClient_def NewFakeMQTTBroker_def topicMatch_def get_or_def Let_def)
  with s' show ?thesis by auto
qed

text \<open>
  The recursive matcher of topics is the usual rule: without a \<open>#\<close> level the filter and the topic
  have the same levels, up to \<open>+\<close>; with one, the levels before the first \<open>#\<close> agree so and the topic
  is at least as long.
\<close>

theorem topic_match_rule:
  "topicMatch pat t \<longleftrightarrow> matches_spec (split_on CHR ''/'' pat) (split_on CHR ''/'' t)"
  by (simp add: topicMatch_def topicPartsMatch_spec)

section \<open>The recorder\<close>

text \<open>
  \<open>Verify\<close> with a list of expectations succeeds exactly when that many items were recorded and
  each meets its expectation, and it consumes exactly these; with none, when nothing was recorded.
\<close>

theorem verify_succeeds_iff:
  "Verify es ch = Inr rest \<longleftrightarrow>
     (if es = [] then ch = [] \<and> rest = []
      else length es \<le> length ch \<and> list_all2 meets es (take (length es) ch) \<and>
           rest = drop (length es) ch)"
  by (rule verifyRec_ordered)

end
