(* ===== verification/Spec2Isabelle.thy ===== *)
theory Spec2Isabelle
  imports Content_Tracker Timer_Interface Profiling Visitor Test_Suite Data_Files Rpc_Round_Trip
    Dir_Watcher_Properties Fake_Model_Properties Driver_Properties Driver_Poll Mqtt_Properties
begin

text \<open>
  This development models wbgo, the Go library with which Wirenboard drivers talk to MQTT: the
  driver that connects a device model to an MQTT client (driver.go), its list of deferred thunks
  (util.go), the client for a real broker (mqtt.go), the RPC server (rpc.go), the watcher that loads
  and reloads files (dirwatcher.go), the tracker of file contents (content_tracker.go), timers
  (timers.go), loggers (log.go), profiling (profile.go), and what drivers are tested with (testutils/).

  \<^bold>\<open>The program.\<close> A \<open>Driver\<close> owns a model and a client. The model announces devices and controls through
  the observer interfaces, the driver publishes them (\<open>/devices/<device>/controls/<control>\<close> with
  their \<open>meta\<close> topics), subscribes to the \<open>on\<close> topics of writable controls and, when external devices
  are accepted, to everybody's topics. Incoming messages are queued and handled on one goroutine,
  which also runs the model's thunks, polls the model and ends on \<open>Stop\<close>. \<open>PahoMQTTClient\<close> keeps the
  callbacks and the retained messages so that a reconnection can restore them. \<open>MQTTRPCServer\<close> registers
  the methods of Go values, announces them, and answers every request that comes in on
  \<open>/rpc/v1/<app>/<service>/<method>/<client>\<close> with one reply. \<open>DirWatcher\<close> loads files and directories for
  a client, gathers the changes the system reports and hands them over in batches.

  \<^bold>\<open>Theories.\<close>
  \<^item> \<open>Prelude\<close>: outcomes of Go statements (\<open>res\<close>: a value, or a panic or a block for ever), slices, maps,
    strings, 64-bit \<open>int\<close>, and the lemmas the components share.
  \<^item> \<open>Mqtt_Interface\<close>: \<open>MQTTMessage\<close> and \<open>MQTTClient\<close> as lists of calls; what such a list asks for
    (\<open>call_table\<close>, \<open>retained_store\<close>, \<open>client_phase\<close>); the locale \<open>mqtt_client\<close>, the contract of a client's
    table of callbacks, and \<open>reliable_client\<close>, which adds that protocol-conforming calls return or fail
    in a way the provider names. Both are interpreted on \<open>PahoMQTTClient\<close>, where a call fails only when
    a token never completes or \<open>Start\<close> gets an error, and the first also on the fake client.
  \<^item> \<open>Deferred_List\<close>: \<open>DeferredList\<close>, under any interleaving of its two operations.
  \<^item> \<open>Driver_Model\<close>, \<open>Driver_Ops\<close>: the driver's data and one definition per method. Code of the model and
    of its devices is a parameter (\<open>env\<close>): a method is an interaction tree that may call the driver
    back any number of times, and nothing at all is assumed of it.
  \<^item> \<open>Driver_Invariants\<close>, \<open>Driver_Handlers\<close>, \<open>Driver_Growth\<close>: the invariant \<open>driver_inv\<close> and its preservation
    by every operation and handler; the only ways a handler panics; what they call and keep.
  \<^item> \<open>Driver_Loop\<close>: \<open>Start\<close>, the \<open>select\<close> loop, \<open>Stop\<close> and the goroutines around them as the step relation
    \<open>step\<close>, one rule per branch; \<open>reachable\<close>; and the invariant of the whole. \<open>Driver_Client\<close> shows how
    the driver uses its client, \<open>Driver_Controls\<close> what its operations on controls do, \<open>Driver_Poll\<close> when a
    caller of \<open>Poll\<close> is served, \<open>Driver_Values\<close> which value was last received on a topic (\<open>received\<close>, a
    history of the steps) and at which moments the model's code may ask for it (\<open>code_runs\<close>).
  \<^item> \<open>Driver_Demo\<close>: a small concrete system for the witnesses. \<open>Driver_Properties\<close>: the properties.
  \<^item> \<open>Paho_Client\<close>: the client for a real broker, with the fate of its tokens as an argument (\<open>net\<close>) and the
    goroutine that waits for them; \<open>Paho_Session\<close>: runs of it among connections made and lost
    (\<open>paho_run\<close>), and what it has asked of the inner client since the last one (\<open>asked\<close>). \<open>Topic_Match\<close>, \<open>Recorder\<close>, \<open>Fake_Mqtt\<close>; and their properties in \<open>Mqtt_Properties\<close>.
  \<^item> \<open>Utf8\<close>, \<open>Json_Text\<close>, \<open>Go_Float\<close>: what the server needs of the standard library. \<open>Json_Text\<close> has the
    scanner and parser of \<open>encoding/json\<close> as a state machine over a stack (\<open>parse_json\<close>), the printer
    (\<open>render\<close>) and the round trip between them; \<open>Go_Float\<close> the bits of a \<open>float64\<close> and \<open>math.Trunc\<close>.
  \<^item> \<open>Rpc_Types\<close> (types and methods of Go values, registration), \<open>Rpc_Request\<close> (errors, ids, parsing of a
    request), \<open>Rpc_Server\<close> (dispatch, replies, \<open>Start\<close>, \<open>Stop\<close> and the goroutine as the relation \<open>rpc_step\<close>),
    \<open>Rpc_Invariants\<close>, \<open>Rpc_Demo\<close> (the service of rpc_test.go) and \<open>Rpc_Properties\<close>.
  \<^item> \<open>File_Path\<close>: \<open>Clean\<close>, \<open>Join\<close> and \<open>Rel\<close> of \<open>path/filepath\<close>, \<open>IsSubpath\<close> and \<open>Truename\<close>. \<open>Dir_Watcher\<close>: the watcher, with
    the proof that removing a path terminates, and its goroutine, \<open>Load\<close> and \<open>Stop\<close> with the two locks they
    take as the relation \<open>dw_step\<close>;
    \<open>Dir_Watcher_Properties\<close>.
  \<^item> \<open>Content_Tracker\<close>; \<open>Timers\<close> and \<open>Timer_Interface\<close> (the contract of \<open>Timer\<close> as the locales \<open>timer_contract\<close> and
    \<open>one_shot\<close> over the ticks that were sent and those that were read, interpreted on real and fake timers); \<open>Logging\<close>; \<open>Profiling\<close>; \<open>Visitor\<close>; and of testutils/ \<open>Fake_Timer\<close>, \<open>Test_Log\<close>, \<open>Fake_Model\<close>,
    \<open>File_System\<close> (directories and files in a finite map) with \<open>Data_Files\<close>, \<open>Test_Suite\<close> and
    \<open>Rpc_Fixture\<close>
    with \<open>Rpc_Round_Trip\<close>, each with its properties.
  \<^item> Components put together: \<open>Fake_Model_Properties\<close> runs the driver on the fake model, \<open>Rpc_Round_Trip\<close> a
    request from the test's client through the fake broker, the RPC server and its goroutine to the
    recorder, \<open>Test_Suite\<close> the loggers on the test logs; this theory the driver on its client.

  \<^bold>\<open>Correspondence.\<close> Definitions have the names of the Go functions and fields; where two components
  use one name, a prefix tells them apart (\<open>brokerPublish\<close>, \<open>clientPublish\<close>, \<open>fakeStart\<close>). A goroutine's code
  between two channel operations is one step. Mutable structures are records passed along; the
  pointer to a topic's cache entry is its key in \<open>topics\<close>, so that a callback that clears the cache is
  seen by the handler that goes on with the entry; fake timers, fake devices and inner timers are
  objects in a list, found by their place in it. Channels are lists with their capacity (100 events, 100
  messages, 512 tokens, 1000 recorded items, 32 RPC messages). \<open>range\<close> over a map takes the order of the
  keys as an argument and the results hold for every order. No fuel is used: every definition
  terminates.

  \<^bold>\<open>Assumed or left out.\<close> \<open>Start\<close> and \<open>Stop\<close> of a driver are called one after the other; observer methods
  run on the driver's goroutine or inside \<open>Start\<close>, as the library asks of its users. \<open>float64\<close> values
  of the driver pass through unparsed (\<open>strconv.ParseFloat\<close> and \<open>%v\<close> are parameters). The inner MQTT
  client and the network are not part of the repository: calls on it are recorded, its answers are
  arguments (which tokens complete, and with what error). \<open>connMtx\<close> of the client is not modelled: a
  call or a reconnection is one step. The methods that users register with the RPC server, the decoding of parameters into
  their argument types, the marshalling of their results and the parsing and printing of a \<open>float64\<close>
  are parameters. The file system is what an operation of the directory watcher or the content
  tracker reads, an argument; of \<open>fsnotify\<close> the paths it was given are kept and its events are steps.
  The file system of the data file fixture has no links and no permissions, and only the test changes it.
  Delays are not timed: a timer expires at any moment after it was started. Not modelled, because
  they only do input and output or glue packages outside the repository: messages to the logs other than
  a test's, the running of suites by the testing packages. What \<open>Truename\<close> and \<open>GetStack\<close> ask of the system is
  an argument. The JSON package \<open>objx\<close> of the RPC fixture is a parameter.
\<close>

section \<open>The driver and its client\<close>

text \<open>
  C10. In every reachable state the driver has kept to its client's protocol: it made no call on a
  client it had not started or had stopped; and while its loop runs, the client runs.
\<close>

theorem driver_keeps_the_protocol:
  assumes "reachable E m w"
  shows "\<exists>b. client_phase False (client_calls (calls (drv w))) = Some b \<and> (looping w \<longrightarrow> b)"
  using reachable_client [OF assms] by (auto simp: client_ok_def running_def)

lemma driver_keeps_the_protocol_witness:
  "client_phase False (client_calls (calls demo_d4)) = Some True"
proof -
  have "looping (demo_world demo_d4)" by (simp add: demo_world_def)
  with driver_keeps_the_protocol [OF demo_reach4] show ?thesis
    by (simp add: demo_world_def) (metis (full_types))
qed


lemma prompt_run:
  assumes "client_phase False (calls_of es) = Some b"
  shows "\<exists>n c. paho_run prompt_net es (0, NewPahoMQTTClient w) = Inr (n, c)"
  using paho_run_phase [OF paho_ok_New session_ok_New, of w es b prompt_net] assms
  by (cases "paho_run prompt_net es (0, NewPahoMQTTClient w)") auto

text \<open>The calls of a driver begin with \<open>Start\<close>; for the witnesses the connection is made right after it.\<close>

definition connected_run :: "handler mqtt_call list \<Rightarrow> handler client_event list" where
  "connected_run ks = Called MStart # Connected [] [] # map Called (tl ks)"

lemma connected_run_calls:
  assumes "client_phase False ks = Some True"
  shows "calls_of (connected_run ks) = ks"
proof (cases ks)
  case (Cons k ks')
  with assms show ?thesis by (cases k) (simp_all add: connected_run_def)
qed (use assms in simp)

lemma connected_run_returns:
  assumes "client_phase False ks = Some True"
  shows "\<exists>n c. paho_run prompt_net (connected_run ks) (0, NewPahoMQTTClient w) = Inr (n, c) \<and> connected c"
proof -
  from prompt_run [of "connected_run ks" True w] connected_run_calls [OF assms] assms obtain n c where
    "paho_run prompt_net (connected_run ks) (0, NewPahoMQTTClient w) = Inr (n, c)" by auto
  with paho_run_connected [of prompt_net "tl ks" w n c] show ?thesis
    unfolding connected_run_def by blast
qed


text \<open>
  C24. A removed device is silent: once \<open>RemoveDevice\<close> has run for a local device, the client has no
  callback for the \<open>on\<close> topic of any of its controls, and while it is connected it does not have the
  inner client subscribed to that topic, as long as nobody subscribes to it again; whenever
  connections are made and lost.
\<close>

theorem removed_device_is_silent:
  assumes "deviceMap d (DevName dev) = Some dev'" "is_local dev'"
    and "controlList d (DevName dev) = Some ns" "n \<in> set ns"
    and "\<forall>h us. MSubscribe h us \<in> set ks \<longrightarrow> controlTopic dev' n [''on''] \<notin> set us"
    and "calls_of es = client_calls (calls (RemoveDevice dev d)) @ ks"
    and "paho_run net es (0, NewPahoMQTTClient b) = Inr (i, c)"
  shows "paho_handlers c (controlTopic dev' n [''on'']) = [] \<and>
    (connected c \<longrightarrow> asked (drop i (inner c)) (controlTopic dev' n [''on'']) = [])"
proof -
  let ?t = "controlTopic dev' n [''on'']"
  from assms(4) obtain ns1 ns2 where ns: "ns = ns1 @ n # ns2" by (auto simp: in_set_conv_decomp)
  let ?un = "map (\<lambda>n. MUnsubscribe [controlTopic dev' n [''on'']])"
  have un: "client_calls (map (\<lambda>n. Client (MUnsubscribe [controlTopic dev' n [''on'']])) xs) = ?un xs" for xs
    by (induction xs) auto
  have calls: "calls_of es = (client_calls (calls d) @ ?un ns1) @ MUnsubscribe [?t] # (?un ns2 @ ks)"
    using assms(1-3,6) ns by (simp add: RemoveDevice_calls un)
  have "call_table (?un ns2 @ ks) tab ?t = []" if "tab ?t = []" for tab :: "string \<Rightarrow> handler list"
    using that by (rule call_table_silent) (use assms(5) in auto)
  then have "call_table (calls_of es) (\<lambda>_. []) ?t = []"
    unfolding calls call_table_simps by simp
  moreover note paho_run_Inr [OF paho_ok_New session_ok_New assms(7)]
  ultimately have "paho_handlers c ?t = []" "session_ok (i, c)" by simp_all
  then have "paho_handlers c ?t = []" "connected c \<longrightarrow> set (asked (drop i (inner c)) ?t) = {}"
    by (simp_all only: session_ok_def prod.case) simp
  then show ?thesis by simp
qed

lemma removed_device_is_silent_witness:
  "\<exists>i c. paho_run prompt_net (connected_run (client_calls (calls (RemoveDevice demo_dev demo_d2))))
       (0, NewPahoMQTTClient True) = Inr (i, c) \<and> connected c \<and>
     paho_handlers c (controlTopic demo_dev ''c'' [''on'']) = [] \<and>
     asked (drop i (inner c)) (controlTopic demo_dev ''c'' [''on'']) = []"
proof -
  let ?ks = "client_calls (calls (RemoveDevice demo_dev demo_d2))"
  have cl: "controlList demo_d2 (DevName demo_dev) = Some [''c'']"
    by (simp add: demo_d2_def subscribeExternal_def OnNewControl_controlList Let_def demo_control_def
        OnNewDevice_alt step_if_def demo_dev_def)
  have dm: "deviceMap demo_d2 (DevName demo_dev) = Some demo_dev" "is_local demo_dev"
    by (simp_all add: demo_dev_def)
  obtain b where "client_phase False (client_calls (calls demo_d2)) = Some b" "b"
    using reachable_client [OF demo_reach2] by (auto simp: client_ok_def running_def demo_world_def)
  then have phase: "client_phase False ?ks = Some True"
    using dm cl by (simp add: RemoveDevice_calls client_phase_append)
  then have calls: "calls_of (connected_run ?ks) = ?ks @ []" by (simp add: connected_run_calls)
  from connected_run_returns [OF phase] obtain i c where
    c: "paho_run prompt_net (connected_run ?ks) (0, NewPahoMQTTClient True) = Inr (i, c)" "connected c" by blast
  from removed_device_is_silent [OF dm cl _ _ calls c(1)] c show ?thesis by auto
qed

text \<open>
  C30. The driver's cleanup goes to the broker only: it is published with \<open>PublishSync\<close>, so the client
  keeps every retained message it had, and a reconnection publishes all of them again.
\<close>

theorem cleanup_not_kept_by_client:
  assumes "perform_all (paho_ops net) (client_calls (calls (performCleanup d))) (NewPahoMQTTClient b) = Inr c"
  shows "retainedMessages c = retained_store (asyncs (client_calls (calls d))) Map.empty"
proof -
  have "asyncs (map (\<lambda>t. MPublishSync \<lparr>Topic = t, Payload = [], QoS = 1, Retained = True\<rparr> :: handler mqtt_call) ts) = []" for ts
    by (induction ts) auto
  with perform_all_retained [OF assms] show ?thesis
    by (simp add: client_calls_performCleanup)
qed

lemma cleanup_not_kept_by_client_witness:
  "\<exists>c. perform_all (paho_ops prompt_net)
       (client_calls (calls (performCleanup (publishMeta ''t'' ''v'' (client MStart (NewDriver () :: (unit, unit) driver))))))
       (NewPahoMQTTClient True) = Inr c \<and>
     retainedMessages c ''t'' = Some \<lparr>Topic = ''t'', Payload = ''v'', QoS = 1, Retained = True\<rparr>"
proof -
  define d where "d = publishMeta ''t'' ''v'' (client MStart (NewDriver () :: (unit, unit) driver))"
  have calls: "client_calls (calls d) =
      [MStart, MPublish \<lparr>Topic = ''t'', Payload = ''v'', QoS = 1, Retained = True\<rparr>]"
    by (simp add: d_def client_def NewDriver_def)
  have "cleanupTopics d = [''t'']"
    by (simp add: d_def client_def NewDriver_def add_once_def)
  then have "client_phase False (client_calls (calls (performCleanup d))) = Some True"
    by (simp add: client_calls_performCleanup calls)
  from prompt_performs [OF this] obtain c where
    c: "perform_all (paho_ops prompt_net) (client_calls (calls (performCleanup d))) (NewPahoMQTTClient True) = Inr c"
    by blast
  from cleanup_not_kept_by_client [OF this] c show ?thesis
    unfolding d_def [symmetric] by (simp add: calls retain_step_def)
qed

end
